(* ===== verification/Prelude.thy ===== *)
theory Prelude
  imports Main "HOL-Library.Word" "HOL-Library.AList" "HOL-Library.Sublist"
begin

text \<open>
  Shared vocabulary of the development: the Go values the components exchange, the part of
  Go's standard library they use (\<open>strings\<close>, big-endian integers, maps) and the generic
  lemmas about them.

  \<^item> a byte is a \<^typ>\<open>char\<close>, so that Go's conversion between \<open>[]byte\<close> and
    \<open>string\<close> is the identity;
  \<^item> a Go \<open>map\<close> is an association list with distinct keys: it is finite, \<open>len\<close> is
    its length, and a \<open>range\<close> loop visits its entries in list order, which stands for the
    unspecified order Go uses;
  \<^item> a call ends by returning a value, by returning an error, or by a run-time panic.
\<close>

named_theorems codec \<open>encoding and decoding of bytes\<close>
named_theorems gomap \<open>association lists as Go maps\<close>

type_synonym bytes = "char list"
type_synonym ('k, 'v) gomap = "('k \<times> 'v) list"

datatype ('e, 'a) outcome = Ok 'a | Err 'e | Panic

subsection \<open>Package strings\<close>

text \<open>\<open>strings.Split(s, sep)\<close> for a separator of one byte: the pieces between separators,
  never an empty list.\<close>

fun split_on :: "char \<Rightarrow> string \<Rightarrow> string list" where
  "split_on c [] = [[]]"
| "split_on c (x # xs) =
     (if x = c then [] # split_on c xs
      else (case split_on c xs of [] \<Rightarrow> [[x]] | p # ps \<Rightarrow> (x # p) # ps))"

text \<open>\<open>strings.Contains(s, sub)\<close>.\<close>

fun contains_str :: "string \<Rightarrow> string \<Rightarrow> bool" where
  "contains_str [] sub = (sub = [])"
| "contains_str (x # xs) sub = (prefix sub (x # xs) \<or> contains_str xs sub)"

text \<open>\<open>strings.ToLower\<close> on ASCII letters.\<close>

definition to_lower_char :: "char \<Rightarrow> char" where
  "to_lower_char c =
     (let n = of_char c :: nat in if 65 \<le> n \<and> n \<le> 90 then char_of (n + 32) else c)"

definition to_lower :: "string \<Rightarrow> string" where
  "to_lower = map to_lower_char"

lemma split_on_neq_Nil [simp]: "split_on c s \<noteq> []"
  by (induction s) (auto split: list.splits)

lemma split_on_single [simp]: "c \<notin> set s \<Longrightarrow> split_on c s = [s]"
  by (induction s) auto

lemma split_on_append [simp]:
  "c \<notin> set a \<Longrightarrow> split_on c (a @ c # b) = a # split_on c b"
  by (induction a) auto

lemma join_inj:
  assumes "c \<notin> set a" "c \<notin> set a'" "a @ c # b = a' @ c # b'"
  shows "a = a' \<and> b = b'"
proof -
  have "takeWhile (\<lambda>x. x \<noteq> c) (a @ c # b) = a" "takeWhile (\<lambda>x. x \<noteq> c) (a' @ c # b') = a'"
    using assms(1,2) by (auto simp: takeWhile_append)
  with assms(3) show ?thesis by auto
qed

lemma join_eq_iff [simp]:
  "c \<notin> set a \<Longrightarrow> c \<notin> set a' \<Longrightarrow> (a @ c # b = a' @ c # b') \<longleftrightarrow> a = a' \<and> b = b'"
  by (blast dest: join_inj)

lemma contains_str_iff: "contains_str s sub \<longleftrightarrow> (\<exists>p q. s = p @ sub @ q)"
proof (induction s)
  case Nil
  then show ?case by auto
next
  case (Cons x xs)
  show ?case
  proof
    assume "contains_str (x # xs) sub"
    then consider "prefix sub (x # xs)" | "contains_str xs sub" by auto
    then show "\<exists>p q. x # xs = p @ sub @ q"
    proof cases
      case 1
      then obtain q where "x # xs = sub @ q" by (auto simp: prefix_def)
      then have "x # xs = [] @ sub @ q" by simp
      then show ?thesis by blast
    next
      case 2
      with Cons.IH obtain p q where "xs = p @ sub @ q" by auto
      then have "x # xs = (x # p) @ sub @ q" by simp
      then show ?thesis by blast
    qed
  next
    assume "\<exists>p q. x # xs = p @ sub @ q"
    then obtain p q where eq: "x # xs = p @ sub @ q" by auto
    show "contains_str (x # xs) sub"
    proof (cases p)
      case Nil
      with eq have "prefix sub (x # xs)" by (simp add: prefix_def)
      then show ?thesis by simp
    next
      case (Cons y p')
      with eq have "xs = p' @ sub @ q" by simp
      with Cons.IH show ?thesis by auto
    qed
  qed
qed

lemma contains_strI: "contains_str (p @ sub @ q) sub"
  by (auto simp: contains_str_iff)

subsection \<open>Package encoding/binary: big-endian words\<close>

definition byte_of :: "8 word \<Rightarrow> char" where
  "byte_of w = char_of (unat w)"

definition word_of_byte :: "char \<Rightarrow> 8 word" where
  "word_of_byte c = of_nat (of_char c)"

definition be32 :: "32 word \<Rightarrow> bytes" where
  "be32 w = (let n = unat w in
     [char_of (n div 16777216), char_of (n div 65536), char_of (n div 256), char_of n])"

definition un_be32 :: "bytes \<Rightarrow> 32 word" where
  "un_be32 bs = of_nat (foldl (\<lambda>acc b. 256 * acc + of_char b) 0 bs)"

lemma word_of_byte_byte_of [codec]: "word_of_byte (byte_of w) = w"
proof -
  have "unat w < 256" using unsigned_less [of w, where ?'a = nat] by simp
  then show ?thesis by (simp add: word_of_byte_def byte_of_def)
qed

lemma byte_of_word_of_byte [codec]: "byte_of (word_of_byte c) = c"
proof -
  have "of_char c < (256 :: nat)" using nat_of_char_less_256 by simp
  then have "unat (of_nat (of_char c) :: 8 word) = of_char c"
    by (simp add: unat_of_nat)
  then show ?thesis by (simp add: word_of_byte_def byte_of_def)
qed

lemma length_be32 [simp]: "length (be32 w) = 4"
  by (simp add: be32_def Let_def)

lemma un_be32_be32 [codec]: "un_be32 (be32 w) = w"
proof -
  define n where "n = unat w"
  have n: "n < 4294967296" using unsigned_less [of w, where ?'a = nat] by (simp add: n_def)
  have low: "n div 65536 = n div 256 div 256" "n div 16777216 = n div 256 div 256 div 256"
    using div_mult2_eq [of n 256 256] div_mult2_eq [of n 65536 256] by simp_all
  have "256 * (256 * (256 * (n div 16777216) + n div 65536 mod 256)
      + n div 256 mod 256) + n mod 256 = n"
    unfolding low by (simp only: mult_div_mod_eq)
  with n have "foldl (\<lambda>acc b. 256 * acc + of_char b) 0 (be32 w) = n"
    by (simp add: be32_def n_def [symmetric])
  then show ?thesis by (simp add: un_be32_def n_def)
qed

lemma be32_un_be32 [codec]:
  assumes "length bs = 4"
  shows "be32 (un_be32 bs) = bs"
proof -
  obtain a b c d where bs: "bs = [a, b, c, d]"
    using assms by (auto simp: length_Suc_conv numeral_eq_Suc)
  have lt: "of_char x < (256 :: nat)" for x using nat_of_char_less_256 by simp
  define n :: nat where "n = 256 * (256 * (256 * of_char a + of_char b) + of_char c) + of_char d"
  have "n < 2 ^ 32" using lt [of a] lt [of b] lt [of c] lt [of d] unfolding n_def by (simp; linarith)
  moreover have "un_be32 bs = of_nat n" unfolding un_be32_def bs n_def by simp
  ultimately have n: "unat (un_be32 bs) = n" by (simp add: unat_of_nat)
  have low: "n div 65536 = n div 256 div 256" "n div 16777216 = n div 256 div 256 div 256"
    using div_mult2_eq [of n 256 256] div_mult2_eq [of n 65536 256] by simp_all
  have digit: "(256 * k + of_char x) div 256 = k" for k :: nat and x :: char
    using lt [of x] by simp
  have d1: "n div 256 = 256 * (256 * of_char a + of_char b) + of_char c"
    unfolding n_def by (rule digit)
  have d2: "n div 65536 = 256 * of_char a + of_char b" unfolding low(1) d1 by (rule digit)
  have d3: "n div 16777216 = of_char a" unfolding low(2) low(1) [symmetric] d2 by (rule digit)
  have last: "char_of (256 * k + of_char x) = x" for k :: nat and x :: char
  proof -
    have "(256 * k + of_char x) mod 256 = of_char x" using lt [of x] by simp
    then show ?thesis by (metis char_of_mod_256 char_of_char)
  qed
  have "char_of (n div 16777216) = a" "char_of (n div 65536) = b" "char_of (n div 256) = c" "char_of n = d"
    unfolding d3 d2 d1 by (simp_all only: last char_of_char n_def)
  then show ?thesis using n by (simp add: be32_def Let_def bs)
qed

subsection \<open>Go maps\<close>

text \<open>\<open>v, ok := m[k]\<close> is \<^const>\<open>map_of\<close>, \<open>m[k] = v\<close> is \<^const>\<open>AList.update\<close> and
  \<open>delete(m, k)\<close> is \<^const>\<open>AList.delete\<close>.\<close>

abbreviation gomap_ok :: "('k, 'v) gomap \<Rightarrow> bool" where
  "gomap_ok m \<equiv> distinct (map fst m)"

lemmas gomap_simps [gomap] = update_conv' delete_conv' distinct_update distinct_delete

lemma map_of_eq_empty_iff [gomap]: "map_of m = Map.empty \<longleftrightarrow> m = []"
  by (cases m) (auto simp: fun_eq_iff split: if_splits)

lemma gomap_range: "gomap_ok m \<Longrightarrow> (k, v) \<in> set m \<longleftrightarrow> map_of m k = Some v"
  by auto

text \<open>A map of maps, as one finite function.\<close>

definition nested_lookup :: "('a, ('b, 'c) gomap) gomap \<Rightarrow> 'a \<times> 'b \<Rightarrow> 'c option" where
  "nested_lookup m = (\<lambda>(a, n). case map_of m a of None \<Rightarrow> None | Some i \<Rightarrow> map_of i n)"

lemma nested_lookup_pair: "nested_lookup m (a, n) = (case map_of m a of None \<Rightarrow> None | Some i \<Rightarrow> map_of i n)"
  by (simp add: nested_lookup_def)

text \<open>The loop \<open>for k, v := range m { c[k] = v }\<close> into a new map \<open>c\<close>.\<close>

definition copy_map :: "('k, 'v) gomap \<Rightarrow> ('k, 'v) gomap" where
  "copy_map m = foldl (\<lambda>c (k, v). AList.update k v c) [] m"

lemma update_fresh: "k \<notin> fst ` set m \<Longrightarrow> AList.update k v m = m @ [(k, v)]"
  by (induction m) auto

lemma copy_map_id [gomap]: "gomap_ok m \<Longrightarrow> copy_map m = m"
proof -
  have "gomap_ok (c @ m) \<Longrightarrow> foldl (\<lambda>c (k, v). AList.update k v c) c m = c @ m" for c
    by (induction m arbitrary: c) (auto simp: update_fresh)
  from this [of "[]"] show "gomap_ok m \<Longrightarrow> copy_map m = m" by (simp add: copy_map_def)
qed

subsection \<open>Step relations that end\<close>

text \<open>A step relation with an invariant under which every step lowers a rank: a run has at most as many steps as the
  rank of its start, and can be extended to one that ends.\<close>

locale ranked_steps =
  fixes step :: "'s \<Rightarrow> 's \<Rightarrow> bool"
    and inv :: "'s \<Rightarrow> bool"
    and rank :: "'s \<Rightarrow> nat"
  assumes step_inv: "step s s' \<Longrightarrow> inv s \<Longrightarrow> inv s'"
    and step_rank: "step s s' \<Longrightarrow> inv s \<Longrightarrow> rank s' < rank s"
begin

lemma steps_rank: "(step ^^ n) s s' \<Longrightarrow> inv s \<Longrightarrow> inv s' \<and> n + rank s' \<le> rank s"
proof (induction n arbitrary: s')
  case (Suc n)
  then obtain t where t: "(step ^^ n) s t" "step t s'" by auto
  from Suc.IH [OF t(1) Suc.prems(2)] step_inv [OF t(2)] step_rank [OF t(2)] show ?case by fastforce
qed simp

lemma steps_bounded: "(step ^^ n) s s' \<Longrightarrow> inv s \<Longrightarrow> n \<le> rank s"
  using steps_rank by fastforce

lemma steps_inv: "step\<^sup>*\<^sup>* s s' \<Longrightarrow> inv s \<Longrightarrow> inv s'"
  by (induction rule: rtranclp_induct) (auto intro: step_inv)

lemma steps_end: "inv s \<Longrightarrow> \<exists>s'. step\<^sup>*\<^sup>* s s' \<and> inv s' \<and> (\<forall>t. \<not> step s' t)"
proof (induction "rank s" arbitrary: s rule: less_induct)
  case less
  show ?case
  proof (cases "\<exists>t. step s t")
    case True
    then obtain t where t: "step s t" by blast
    from less.hyps [OF step_rank [OF t less.prems] step_inv [OF t less.prems]] t show ?thesis
      by (meson converse_rtranclp_into_rtranclp)
  qed (use less.prems in blast)
qed

end

end
