(* ===== verification/Frame.thy ===== *)
theory Frame
  imports Prelude
begin

text \<open>
  The framing layer of the receptor wire protocol (\<open>internal/receptor/protocol/frame.go\<close>).
  A frame is a header of 26 bytes (type, version, id, length of the data, message id, integers
  in big-endian order) followed by its data.

  An \<open>io.Reader\<close> is the list of bytes it still delivers: \<open>io.ReadFull\<close> either takes the
  bytes asked for off the front, or fails and leaves nothing. An \<open>io.Writer\<close> is a function
  \<open>wr\<close> on an abstract writer state that returns the number of bytes written and an optional
  error; what the code relies on is the contract of \<open>io.Writer\<close>, the locale \<open>io_writer\<close>.
\<close>

subsection \<open>Errors, frame types and the header\<close>

datatype protocol_error =
    ErrUnexpectedEOF
  | ErrInvalidFrameType
  | ErrFrameTooShort
  | ErrFrameDataTooShort
  | ErrInvalidMessage
  | ErrUnrecognizedMessage string
  | ErrJson
  | ErrWrite string

type_synonym frameType = "8 word"

definition HeaderFrameType :: frameType where "HeaderFrameType = 0"
definition PayloadFrameType :: frameType where "PayloadFrameType = 1"
definition CommandFrameType :: frameType where "CommandFrameType = 2"

lemmas frame_type_defs = HeaderFrameType_def PayloadFrameType_def CommandFrameType_def

text \<open>\<open>messageID\<close> is \<open>[16]byte\<close>; \<open>String\<close> prints it with the verb \<open>%X\<close>, two upper-case
  hexadecimal digits for each byte.\<close>

definition hex_digit :: "nat \<Rightarrow> char" where
  "hex_digit n = char_of (if n < 10 then 48 + n else 55 + n)"

definition hex_bytes :: "bytes \<Rightarrow> string" where
  "hex_bytes bs =
     concat (map (\<lambda>b. [hex_digit (of_char b div 16), hex_digit (of_char b mod 16)]) bs)"

definition messageID_String :: "bytes \<Rightarrow> string" where
  "messageID_String mid =
     hex_bytes (take 4 mid) @ ''-'' @ hex_bytes (take 2 (drop 4 mid)) @ ''-'' @
     hex_bytes (take 2 (drop 6 mid)) @ ''-'' @ hex_bytes (take 2 (drop 8 mid)) @ ''-'' @
     hex_bytes (drop 10 mid)"

definition FrameHeaderLength :: nat where "FrameHeaderLength = 26"

record FrameHeader =
  fh_Type :: frameType
  fh_Version :: "8 word"
  fh_ID :: "32 word"
  fh_Length :: "32 word"
  fh_MsgID :: bytes

text \<open>The Go type fixes the length of the message id.\<close>

definition wf_header :: "FrameHeader \<Rightarrow> bool" where
  "wf_header f \<longleftrightarrow> length (fh_MsgID f) = 16"

definition valid_frame_type :: "frameType \<Rightarrow> bool" where
  "valid_frame_type t \<longleftrightarrow> t = HeaderFrameType \<or> t = PayloadFrameType \<or> t = CommandFrameType"

definition isValidType :: "FrameHeader \<Rightarrow> bool" where
  "isValidType f \<longleftrightarrow>
     fh_Type f = HeaderFrameType \<or> fh_Type f = PayloadFrameType \<or> fh_Type f = CommandFrameType"

text \<open>\<open>binary.Read\<close> into the struct: the fields in order, big endian.\<close>

definition binary_Read :: "bytes \<Rightarrow> FrameHeader" where
  "binary_Read fb =
     \<lparr>fh_Type = word_of_byte (fb ! 0), fh_Version = word_of_byte (fb ! 1),
      fh_ID = un_be32 (take 4 (drop 2 fb)), fh_Length = un_be32 (take 4 (drop 6 fb)),
      fh_MsgID = take 16 (drop 10 fb)\<rparr>"

definition FrameHeader_unmarshal :: "bytes \<Rightarrow> protocol_error + FrameHeader" where
  "FrameHeader_unmarshal buf =
     (if length buf < FrameHeaderLength then Inl ErrUnexpectedEOF
      else let f = binary_Read (take FrameHeaderLength buf) in
           if \<not> isValidType f then Inl ErrInvalidFrameType else Inr f)"

definition FrameHeader_marshal :: "FrameHeader \<Rightarrow> protocol_error + bytes" where
  "FrameHeader_marshal f =
     Inr ([byte_of (fh_Type f), byte_of (fh_Version f)] @ be32 (fh_ID f) @ be32 (fh_Length f)
          @ fh_MsgID f)"

subsection \<open>Readers\<close>

text \<open>\<open>io.ReadFull(r, make([]byte, n))\<close>: the bytes, or \<open>None\<close> when the reader ends first.\<close>

definition ReadFull :: "nat \<Rightarrow> bytes \<Rightarrow> bytes option \<times> bytes" where
  "ReadFull n r = (if n \<le> length r then (Some (take n r), drop n r) else (None, []))"

definition readFrame :: "bytes \<Rightarrow> (protocol_error + FrameHeader) \<times> bytes" where
  "readFrame r =
     (case ReadFull FrameHeaderLength r of
        (None, r') \<Rightarrow> (Inl ErrFrameTooShort, r')
      | (Some buf, r') \<Rightarrow>
          (case FrameHeader_unmarshal buf of Inl e \<Rightarrow> (Inl e, r') | Inr f \<Rightarrow> (Inr f, r')))"

definition readFrameData :: "bytes \<Rightarrow> 32 word \<Rightarrow> (protocol_error + bytes) \<times> bytes" where
  "readFrameData r dataLength =
     (case ReadFull (unat dataLength) r of
        (None, r') \<Rightarrow> (Inl ErrFrameDataTooShort, r')
      | (Some buf, r') \<Rightarrow> (Inr buf, r'))"

subsection \<open>Writers\<close>

type_synonym 'w writer = "'w \<Rightarrow> bytes \<Rightarrow> nat \<times> protocol_error option \<times> 'w"

definition writeFrame ::
  "'w writer \<Rightarrow> 'w \<Rightarrow> frameType \<Rightarrow> bytes \<Rightarrow> protocol_error option \<times> 'w" where
  "writeFrame wr w ftype frameData =
     (let frameHeader = \<lparr>fh_Type = ftype, fh_Version = 1, fh_ID = 1,
                         fh_Length = of_nat (length frameData),
                         fh_MsgID = replicate 16 (char_of (0::nat))\<rparr>
      in case FrameHeader_marshal frameHeader of
           Inl e \<Rightarrow> (Some e, w)
         | Inr frameHeaderBuffer \<Rightarrow>
             (case wr w frameHeaderBuffer of (n, err, w1) \<Rightarrow>
                if n \<noteq> length frameHeaderBuffer \<or> err \<noteq> None then (err, w1)
                else (case wr w1 frameData of (n, err, w2) \<Rightarrow>
                        if n \<noteq> length frameData \<or> err \<noteq> None then (err, w2) else (None, w2))))"

text \<open>The bytes of one frame, as a peer sees them: its header, then its data.\<close>

definition header_bytes :: "frameType \<Rightarrow> bytes \<Rightarrow> bytes" where
  "header_bytes ftype d =
     [byte_of ftype, byte_of 1] @ be32 1 @ be32 (of_nat (length d)) @
     replicate 16 (char_of (0::nat))"

definition frame_bytes :: "frameType \<Rightarrow> bytes \<Rightarrow> bytes" where
  "frame_bytes ftype d = header_bytes ftype d @ d"

text \<open>\<open>bytes.Buffer\<close> as a writer: it appends and never fails.\<close>

definition buffer_write :: "bytes writer" where
  "buffer_write w bs = (length bs, None, w @ bs)"

lemma length_header_bytes [simp]: "length (header_bytes ft d) = 26"
  by (simp add: header_bytes_def)

lemma writeFrame_eq:
  "writeFrame wr w ft d =
     (case wr w (header_bytes ft d) of (n, err, w1) \<Rightarrow>
        if n \<noteq> 26 \<or> err \<noteq> None then (err, w1)
        else (case wr w1 d of (n, err, w2) \<Rightarrow>
                if n \<noteq> length d \<or> err \<noteq> None then (err, w2) else (None, w2)))"
  by (simp add: writeFrame_def FrameHeader_marshal_def header_bytes_def Let_def split: prod.splits)

text \<open>
  The contract of \<open>io.Writer\<close>: a write that reports no error has written every byte. A failing
  write has written some prefix.
\<close>

locale io_writer =
  fixes wr :: "'w writer"
    and out :: "'w \<Rightarrow> bytes"
  assumes write_all: "wr w bs = (n, None, w') \<Longrightarrow> n = length bs \<and> out w' = out w @ bs"
    and write_some: "wr w bs = (n, Some e, w') \<Longrightarrow> n \<le> length bs \<and> out w' = out w @ take n bs"
begin

lemma write_out: "wr w bs = (n, e, w') \<Longrightarrow> n \<le> length bs \<and> out w' = out w @ take n bs"
  by (cases e) (auto dest: write_all write_some)

lemma writeFrame_out:
  assumes "writeFrame wr w ft d = (None, w')"
  shows "out w' = out w @ frame_bytes ft d"
  using assms
  by (auto simp: writeFrame_eq frame_bytes_def split: prod.splits if_splits dest!: write_all)

lemma writeFrame_prefix:
  "\<exists>k. out (snd (writeFrame wr w ft d)) = out w @ take k (frame_bytes ft d)"
proof -
  obtain n1 e1 w1 where w1: "wr w (header_bytes ft d) = (n1, e1, w1)"
    by (cases "wr w (header_bytes ft d)")
  obtain n2 e2 w2 where w2: "wr w1 d = (n2, e2, w2)" by (cases "wr w1 d")
  show ?thesis
  proof (cases "n1 \<noteq> 26 \<or> e1 \<noteq> None")
    case True
    with w1 write_out [OF w1]
    have "out (snd (writeFrame wr w ft d)) = out w @ take n1 (frame_bytes ft d)"
      by (simp add: writeFrame_eq frame_bytes_def)
    then show ?thesis by blast
  next
    case False
    with w1 w2 write_out [OF w1] write_out [OF w2]
    have "out (snd (writeFrame wr w ft d)) = out w @ take (26 + n2) (frame_bytes ft d)"
      by (simp add: writeFrame_eq frame_bytes_def)
    then show ?thesis by blast
  qed
qed

end

interpretation buf: io_writer buffer_write "\<lambda>w. w"
  by unfold_locales (auto simp: buffer_write_def)

subsection \<open>Headers\<close>

lemma FrameHeader_marshal_length:
  "wf_header f \<Longrightarrow> FrameHeader_marshal f = Inr b \<Longrightarrow> length b = FrameHeaderLength"
  by (auto simp: FrameHeader_marshal_def wf_header_def FrameHeaderLength_def)

lemma be32_app: "take 4 (be32 w @ bs) = be32 w" "drop 4 (be32 w @ bs) = bs"
  by simp_all

lemma binary_Read_marshal [codec]:
  assumes "wf_header f" "FrameHeader_marshal f = Inr b"
  shows "binary_Read b = f"
proof -
  from assms(2) have b: "b = byte_of (fh_Type f) # byte_of (fh_Version f) #
      (be32 (fh_ID f) @ be32 (fh_Length f) @ fh_MsgID f)"
    by (simp add: FrameHeader_marshal_def)
  have d6: "drop 6 b = be32 (fh_Length f) @ fh_MsgID f"
    and d10: "drop 10 b = fh_MsgID f"
    and d2: "drop 2 b = be32 (fh_ID f) @ be32 (fh_Length f) @ fh_MsgID f"
    by (simp_all add: b drop_Cons' )
  show ?thesis
    using assms(1) unfolding binary_Read_def d6 d10 d2
    by (simp add: b be32_app codec wf_header_def)
qed

lemma unmarshal_marshal [codec]:
  assumes "wf_header f" "isValidType f" "FrameHeader_marshal f = Inr b"
  shows "FrameHeader_unmarshal (b @ rest) = Inr f"
  using assms FrameHeader_marshal_length [OF assms(1,3)] binary_Read_marshal [OF assms(1,3)]
  by (simp add: FrameHeader_unmarshal_def)

lemma header_bytes_marshal:
  "FrameHeader_marshal \<lparr>fh_Type = ft, fh_Version = 1, fh_ID = 1, fh_Length = of_nat (length d),
     fh_MsgID = replicate 16 (char_of (0::nat))\<rparr> = Inr (header_bytes ft d)"
  by (simp add: FrameHeader_marshal_def header_bytes_def)

lemma readFrame_frame_bytes [codec]:
  assumes "valid_frame_type ft"
  shows "readFrame (frame_bytes ft d @ rest) =
    (Inr \<lparr>fh_Type = ft, fh_Version = 1, fh_ID = 1, fh_Length = of_nat (length d),
       fh_MsgID = replicate 16 (char_of (0::nat))\<rparr>, d @ rest)"
  using assms unmarshal_marshal [OF _ _ header_bytes_marshal [of ft d], of "[]"]
  by (simp add: readFrame_def ReadFull_def FrameHeaderLength_def frame_bytes_def wf_header_def
      isValidType_def valid_frame_type_def)

lemma readFrameData_data [codec]:
  assumes "length d < 2 ^ 32"
  shows "readFrameData (d @ rest) (of_nat (length d)) = (Inr d, rest)"
  using assms by (simp add: readFrameData_def ReadFull_def unat_of_nat)

subsection \<open>Properties of the framing\<close>

lemma binary_Read_bytes:
  assumes "length buf = 26"
  shows "FrameHeader_marshal (binary_Read buf) = Inr buf"
proof -
  have "buf = [buf ! 0, buf ! 1] @ take 4 (drop 2 buf) @ take 4 (drop 6 buf) @ take 16 (drop 10 buf)"
    using assms by (auto simp: length_Suc_conv numeral_eq_Suc)
  with assms show ?thesis
    by (simp add: FrameHeader_marshal_def binary_Read_def codec)
qed

text \<open>Property C28. A header is accepted only when it is long enough and has one of the three frame
  types, and then nothing of its 26 bytes is lost: encoding the decoded header gives them back.\<close>

theorem unmarshal_sound:
  assumes "FrameHeader_unmarshal buf = Inr f"
  shows "wf_header f \<and> valid_frame_type (fh_Type f) \<and> FrameHeader_marshal f = Inr (take FrameHeaderLength buf)"
  using assms binary_Read_bytes [of "take 26 buf"]
  by (auto simp: FrameHeader_unmarshal_def FrameHeaderLength_def Let_def wf_header_def isValidType_def
      valid_frame_type_def binary_Read_def split: if_splits)

theorem unmarshal_sound_witness:
  "\<exists>f. FrameHeader_unmarshal (header_bytes CommandFrameType ''{}'') = Inr f \<and> wf_header f \<and>
     valid_frame_type (fh_Type f) \<and> FrameHeader_marshal f = Inr (header_bytes CommandFrameType ''{}'')"
proof -
  have "FrameHeader_unmarshal (header_bytes CommandFrameType ''{}'' @ []) =
      Inr \<lparr>fh_Type = CommandFrameType, fh_Version = 1, fh_ID = 1, fh_Length = of_nat (length ''{}''),
        fh_MsgID = replicate 16 (char_of (0::nat))\<rparr>"
    by (rule unmarshal_marshal [OF _ _ header_bytes_marshal]) (simp_all add: wf_header_def isValidType_def)
  then obtain f where f: "FrameHeader_unmarshal (header_bytes CommandFrameType ''{}'') = Inr f" by simp
  from unmarshal_sound [OF f] f show ?thesis by (simp add: FrameHeaderLength_def)
qed



end
