(* ===== verification/Go_Json.thy ===== *)
theory Go_Json
  imports Prelude "HOL-Library.List_Lexorder" "HOL-Library.Char_ord"
begin

text \<open>
  The part of Go's package \<open>encoding/json\<close> the program uses: \<open>Unmarshal\<close> and \<open>Decoder\<close> into
  structs and \<open>interface{}\<close>, \<open>Marshal\<close> and \<open>Encoder\<close> with and without HTML escaping.

  Decoding has two stages, as in Go: the scanner turns text into a syntax tree (\<open>json\<close>) whose
  string and number literals are kept as written, and storing a value into a Go variable
  unquotes and converts the literals. A value held in an \<open>interface{}\<close> is a \<open>goany\<close>; a
  \<open>map[string]interface{}\<close> is represented by its entries in key order, the order in which Go
  encodes them.

  Modelled exactly on text whose bytes from 0x80 on form valid UTF-8 without U+2028 and U+2029
  (other text is rewritten by Go to U+FFFD or escaped); a number held in an \<open>interface{}\<close> is
  kept as its literal, where Go keeps the nearest \<open>float64\<close>; the limit of 10000 nested values
  is left out.
\<close>

subsection \<open>Syntax trees and their text\<close>

datatype json =
    JNull
  | JBool bool
  | JNum string
  | JStr string
  | JArr "json list"
  | JObj "(string \<times> json) list"

definition DQ :: char where "DQ = CHR 0x22"
definition BS :: char where "BS = CHR 0x5C"

primrec json_text :: "json \<Rightarrow> string"
  and elems_text :: "json list \<Rightarrow> string"
  and members_text :: "(string \<times> json) list \<Rightarrow> string"
  and member_text :: "string \<times> json \<Rightarrow> string" where
  "json_text JNull = ''null''"
| "json_text (JBool b) = (if b then ''true'' else ''false'')"
| "json_text (JNum s) = s"
| "json_text (JStr s) = DQ # s @ [DQ]"
| "json_text (JArr xs) = CHR ''['' # elems_text xs @ '']''"
| "json_text (JObj kvs) = CHR ''{'' # members_text kvs @ ''}''"
| "elems_text [] = []"
| "elems_text (x # xs) = json_text x @ (if xs = [] then [] else CHR '','' # elems_text xs)"
| "members_text [] = []"
| "members_text (x # xs) = member_text x @ (if xs = [] then [] else CHR '','' # members_text xs)"
| "member_text (k, v) = DQ # k @ DQ # CHR '':'' # json_text v"

subsection \<open>The scanner\<close>

definition is_ws :: "char \<Rightarrow> bool" where
  "is_ws c \<longleftrightarrow> c = CHR '' '' \<or> c = CHR 0x09 \<or> c = CHR 0x0A \<or> c = CHR 0x0D"

definition skip_ws :: "string \<Rightarrow> string" where
  "skip_ws s = dropWhile is_ws s"

definition is_digit :: "char \<Rightarrow> bool" where
  "is_digit c \<longleftrightarrow> 48 \<le> (of_char c :: nat) \<and> (of_char c :: nat) \<le> 57"

definition hex_val :: "char \<Rightarrow> nat option" where
  "hex_val c = (let n = of_char c :: nat in
     if 48 \<le> n \<and> n \<le> 57 then Some (n - 48)
     else if 97 \<le> n \<and> n \<le> 102 then Some (n - 87)
     else if 65 \<le> n \<and> n \<le> 70 then Some (n - 55) else None)"

definition is_hex :: "char \<Rightarrow> bool" where
  "is_hex c \<longleftrightarrow> hex_val c \<noteq> None"

definition simple_escape :: "char \<Rightarrow> bool" where
  "simple_escape e \<longleftrightarrow> e \<in> {DQ, BS, CHR ''/'', CHR ''b'', CHR ''f'', CHR ''n'', CHR ''r'', CHR ''t''}"

definition consume :: "string \<Rightarrow> (string \<times> string) option \<Rightarrow> (string \<times> string) option" where
  "consume p = map_option (\<lambda>(s, r). (p @ s, r))"

text \<open>The body of a string literal up to its closing quote, as written, and the rest.\<close>

fun scan_str :: "string \<Rightarrow> (string \<times> string) option" where
  "scan_str [] = None"
| "scan_str (c # cs) =
     (if c = DQ then Some ([], cs)
      else if c = BS then
        (case cs of
           [] \<Rightarrow> None
         | e # cs1 \<Rightarrow>
             if simple_escape e then consume [c, e] (scan_str cs1)
             else if e = CHR ''u'' then
               (case cs1 of
                  h1 # h2 # h3 # h4 # cs2 \<Rightarrow>
                    if is_hex h1 \<and> is_hex h2 \<and> is_hex h3 \<and> is_hex h4
                    then consume [c, e, h1, h2, h3, h4] (scan_str cs2) else None
                | _ \<Rightarrow> None)
             else None)
      else if (of_char c :: nat) < 32 then None
      else consume [c] (scan_str cs))"

declare scan_str.simps(2) [simp del]

text \<open>A number literal: sign, integer part without a leading zero, fraction, exponent.\<close>

definition scan_digits :: "string \<Rightarrow> string \<times> string" where
  "scan_digits s = (takeWhile is_digit s, dropWhile is_digit s)"

definition scan_int_part :: "string \<Rightarrow> (string \<times> string) option" where
  "scan_int_part s =
     (case s of
        [] \<Rightarrow> None
      | c # cs \<Rightarrow> if c = CHR ''0'' then Some ([c], cs)
                 else if is_digit c then Some (scan_digits s) else None)"

definition scan_frac :: "string \<Rightarrow> (string \<times> string) option" where
  "scan_frac s =
     (case s of
        [] \<Rightarrow> Some ([], s)
      | c # cs \<Rightarrow> if c = CHR ''.'' then
                   (case scan_digits cs of (ds, r) \<Rightarrow> if ds = [] then None else Some (c # ds, r))
                 else Some ([], s))"

definition scan_exp :: "string \<Rightarrow> (string \<times> string) option" where
  "scan_exp s =
     (case s of
        [] \<Rightarrow> Some ([], s)
      | c # cs \<Rightarrow>
          if c = CHR ''e'' \<or> c = CHR ''E'' then
            (let (sg, r0) = (case cs of d # ds \<Rightarrow> if d = CHR ''+'' \<or> d = CHR ''-'' then ([d], ds) else ([], cs)
                                     | [] \<Rightarrow> ([], cs))
             in case scan_digits r0 of (ds, r) \<Rightarrow> if ds = [] then None else Some (c # sg @ ds, r))
          else Some ([], s))"

definition scan_unsigned :: "string \<Rightarrow> (string \<times> string) option" where
  "scan_unsigned s =
     (case scan_int_part s of
        None \<Rightarrow> None
      | Some (i, s1) \<Rightarrow>
          (case scan_frac s1 of
             None \<Rightarrow> None
           | Some (f, s2) \<Rightarrow>
               (case scan_exp s2 of None \<Rightarrow> None | Some (e, r) \<Rightarrow> Some (i @ f @ e, r))))"

definition scan_num :: "string \<Rightarrow> (string \<times> string) option" where
  "scan_num s =
     (case s of
        [] \<Rightarrow> None
      | c # cs \<Rightarrow> if c = CHR ''-'' then consume [c] (scan_unsigned cs) else scan_unsigned s)"

definition scan_lit :: "string \<Rightarrow> json \<Rightarrow> string \<Rightarrow> (json \<times> string) option" where
  "scan_lit p v s = (if prefix p s then Some (v, drop (length p) s) else None)"

text \<open>Values, the elements of an array after its bracket, the members of an object after its
  brace. The first argument is fuel; \<open>scan_value_fuel\<close> below shows how much is enough.\<close>

fun scan_value :: "nat \<Rightarrow> string \<Rightarrow> (json \<times> string) option"
  and scan_elems :: "nat \<Rightarrow> string \<Rightarrow> (json list \<times> string) option"
  and scan_members :: "nat \<Rightarrow> string \<Rightarrow> ((string \<times> json) list \<times> string) option" where
  "scan_value 0 s = None"
| "scan_value (Suc n) s =
     (case s of
        [] \<Rightarrow> None
      | c # cs \<Rightarrow>
          if c = CHR ''{'' then
            (case skip_ws cs of
               [] \<Rightarrow> None
             | d # ds \<Rightarrow> if d = CHR ''}'' then Some (JObj [], ds)
                        else map_option (\<lambda>(kvs, r). (JObj kvs, r)) (scan_members n (d # ds)))
          else if c = CHR ''['' then
            (case skip_ws cs of
               [] \<Rightarrow> None
             | d # ds \<Rightarrow> if d = CHR '']'' then Some (JArr [], ds)
                        else map_option (\<lambda>(xs, r). (JArr xs, r)) (scan_elems n (d # ds)))
          else if c = DQ then map_option (\<lambda>(t, r). (JStr t, r)) (scan_str cs)
          else if c = CHR ''t'' then scan_lit ''true'' (JBool True) s
          else if c = CHR ''f'' then scan_lit ''false'' (JBool False) s
          else if c = CHR ''n'' then scan_lit ''null'' JNull s
          else map_option (\<lambda>(t, r). (JNum t, r)) (scan_num s))"
| "scan_elems 0 s = None"
| "scan_elems (Suc n) s =
     (case scan_value n (skip_ws s) of
        None \<Rightarrow> None
      | Some (v, r) \<Rightarrow>
          (case skip_ws r of
             [] \<Rightarrow> None
           | d # ds \<Rightarrow> if d = CHR '','' then map_option (\<lambda>(vs, r'). (v # vs, r')) (scan_elems n ds)
                      else if d = CHR '']'' then Some ([v], ds) else None))"
| "scan_members 0 s = None"
| "scan_members (Suc n) s =
     (case skip_ws s of
        [] \<Rightarrow> None
      | q # s1 \<Rightarrow>
          if q \<noteq> DQ then None else
          (case scan_str s1 of
             None \<Rightarrow> None
           | Some (k, s2) \<Rightarrow>
               (case skip_ws s2 of
                  [] \<Rightarrow> None
                | c # s3 \<Rightarrow>
                    if c \<noteq> CHR '':'' then None else
                    (case scan_value n (skip_ws s3) of
                       None \<Rightarrow> None
                     | Some (v, r) \<Rightarrow>
                         (case skip_ws r of
                            [] \<Rightarrow> None
                          | d # ds \<Rightarrow>
                              if d = CHR '','' then
                                map_option (\<lambda>(kvs, r'). ((k, v) # kvs, r')) (scan_members n ds)
                              else if d = CHR ''}'' then Some ([(k, v)], ds) else None)))))"

lemmas scan_Suc = scan_value.simps(2) scan_elems.simps(2) scan_members.simps(2)

declare scan_Suc [simp del]

definition json_fuel :: "string \<Rightarrow> nat" where
  "json_fuel s = 2 * length s + 1"

text \<open>\<open>Decoder.Decode\<close>: the first value of a stream and the rest; \<open>Unmarshal\<close>: one value and
  nothing but white space after it.\<close>

definition json_decode :: "string \<Rightarrow> (json \<times> string) option" where
  "json_decode s = scan_value (json_fuel s) (skip_ws s)"

definition json_parse :: "string \<Rightarrow> json option" where
  "json_parse s =
     (case json_decode s of
        None \<Rightarrow> None
      | Some (v, r) \<Rightarrow> if skip_ws r = [] then Some v else None)"

subsection \<open>String literals\<close>

text \<open>The UTF-8 encoding of a code point, as \<open>utf8.EncodeRune\<close>.\<close>

definition utf8_encode :: "nat \<Rightarrow> string" where
  "utf8_encode n =
     (if n < 128 then [char_of n]
      else if n < 2048 then [char_of (192 + n div 64), char_of (128 + n mod 64)]
      else if n < 65536 then
        [char_of (224 + n div 4096), char_of (128 + n div 64 mod 64), char_of (128 + n mod 64)]
      else [char_of (240 + n div 262144), char_of (128 + n div 4096 mod 64),
            char_of (128 + n div 64 mod 64), char_of (128 + n mod 64)])"

definition hex_of :: "char \<Rightarrow> nat" where
  "hex_of c = (case hex_val c of None \<Rightarrow> 0 | Some n \<Rightarrow> n)"

definition hex4 :: "char \<Rightarrow> char \<Rightarrow> char \<Rightarrow> char \<Rightarrow> nat" where
  "hex4 a b c d = 4096 * hex_of a + 256 * hex_of b + 16 * hex_of c + hex_of d"

definition is_surrogate :: "nat \<Rightarrow> bool" where
  "is_surrogate n \<longleftrightarrow> 55296 \<le> n \<and> n < 57344"

text \<open>\<open>utf16.DecodeRune\<close>: the code point of a surrogate pair.\<close>

definition surrogate_pair :: "nat \<Rightarrow> nat \<Rightarrow> nat option" where
  "surrogate_pair a b =
     (if 55296 \<le> a \<and> a < 56320 \<and> 56320 \<le> b \<and> b < 57344
      then Some (65536 + 1024 * (a - 55296) + (b - 56320)) else None)"

definition unescape_char :: "char \<Rightarrow> char" where
  "unescape_char e =
     (if e = CHR ''b'' then CHR 0x08 else if e = CHR ''f'' then CHR 0x0C
      else if e = CHR ''n'' then CHR 0x0A else if e = CHR ''r'' then CHR 0x0D
      else if e = CHR ''t'' then CHR 0x09 else e)"

text \<open>\<open>unquote\<close>: the string a literal denotes. A surrogate without its partner is U+FFFD.\<close>

fun unquote :: "string \<Rightarrow> string" where
  "unquote [] = []"
| "unquote (c # cs) =
     (if c \<noteq> BS then c # unquote cs
      else (case cs of
          [] \<Rightarrow> []
        | e # cs1 \<Rightarrow>
            if e \<noteq> CHR ''u'' then unescape_char e # unquote cs1
            else (case cs1 of
                h1 # h2 # h3 # h4 # cs2 \<Rightarrow>
                  (let n = hex4 h1 h2 h3 h4 in
                   if \<not> is_surrogate n then utf8_encode n @ unquote cs2
                   else (case cs2 of
                       b # u # g1 # g2 # g3 # g4 # cs3 \<Rightarrow>
                         if b = BS \<and> u = CHR ''u'' then
                           (case surrogate_pair n (hex4 g1 g2 g3 g4) of
                              Some m \<Rightarrow> utf8_encode m @ unquote cs3
                            | None \<Rightarrow> utf8_encode 65533 @ unquote cs2)
                         else utf8_encode 65533 @ unquote cs2
                     | _ \<Rightarrow> utf8_encode 65533 @ unquote cs2))
              | _ \<Rightarrow> [])))"

declare unquote.simps(2) [simp del]

text \<open>The literal Go writes for a string; \<open>html\<close> is \<open>SetEscapeHTML\<close>, on by default.\<close>

definition lower_hex :: "nat \<Rightarrow> char" where
  "lower_hex n = char_of (if n < 10 then 48 + n else 87 + n)"

definition quote_char :: "bool \<Rightarrow> char \<Rightarrow> string" where
  "quote_char html c =
     (if c = DQ \<or> c = BS then [BS, c]
      else if c = CHR 0x0A then [BS, CHR ''n'']
      else if c = CHR 0x0D then [BS, CHR ''r'']
      else if c = CHR 0x09 then [BS, CHR ''t'']
      else if (of_char c :: nat) < 32 \<or> html \<and> c \<in> {CHR ''<'', CHR ''>'', CHR ''&''} then
        [BS, CHR ''u'', CHR ''0'', CHR ''0'', lower_hex (of_char c div 16), lower_hex (of_char c mod 16)]
      else [c])"

definition quote_str :: "bool \<Rightarrow> string \<Rightarrow> string" where
  "quote_str html s = concat (map (quote_char html) s)"

subsection \<open>Values of type interface{}\<close>

text \<open>\<open>AOpaque\<close> stands for the values \<open>encoding/json\<close> refuses (a channel, a function, NaN).\<close>

datatype goany =
    ANil
  | ABool bool
  | ANum string
  | AStr string
  | AArr "goany list"
  | AMap "(string \<times> goany) list"
  | AOpaque

text \<open>Storing into a map keeps the entries in key order; a later entry replaces an earlier one.\<close>

fun put_entry :: "string \<Rightarrow> 'v \<Rightarrow> (string \<times> 'v) list \<Rightarrow> (string \<times> 'v) list" where
  "put_entry k v [] = [(k, v)]"
| "put_entry k v ((k', v') # m) =
     (if k = k' then (k, v) # m
      else if k < k' then (k, v) # (k', v') # m
      else (k', v') # put_entry k v m)"

primrec json_any :: "json \<Rightarrow> goany"
  and elems_any :: "json list \<Rightarrow> goany list"
  and members_any :: "(string \<times> json) list \<Rightarrow> (string \<times> goany) list \<Rightarrow> (string \<times> goany) list"
  and member_any :: "string \<times> json \<Rightarrow> string \<times> goany" where
  "json_any JNull = ANil"
| "json_any (JBool b) = ABool b"
| "json_any (JNum s) = ANum s"
| "json_any (JStr s) = AStr (unquote s)"
| "json_any (JArr xs) = AArr (elems_any xs)"
| "json_any (JObj kvs) = AMap (members_any kvs [])"
| "elems_any [] = []"
| "elems_any (x # xs) = json_any x # elems_any xs"
| "members_any [] = (\<lambda>m. m)"
| "members_any (x # xs) = (\<lambda>m. members_any xs (put_entry (fst (member_any x)) (snd (member_any x)) m))"
| "member_any (k, v) = (unquote k, json_any v)"

primrec any_json :: "bool \<Rightarrow> goany \<Rightarrow> json option"
  and anys_json :: "bool \<Rightarrow> goany list \<Rightarrow> json list option"
  and entries_json :: "bool \<Rightarrow> (string \<times> goany) list \<Rightarrow> (string \<times> json) list option"
  and entry_json :: "bool \<Rightarrow> string \<times> goany \<Rightarrow> (string \<times> json) option" where
  "any_json h ANil = Some JNull"
| "any_json h (ABool b) = Some (JBool b)"
| "any_json h (ANum s) = Some (JNum s)"
| "any_json h (AStr s) = Some (JStr (quote_str h s))"
| "any_json h (AArr xs) = map_option JArr (anys_json h xs)"
| "any_json h (AMap m) = map_option JObj (entries_json h m)"
| "any_json h AOpaque = None"
| "anys_json h [] = Some []"
| "anys_json h (x # xs) =
     (case any_json h x of None \<Rightarrow> None | Some j \<Rightarrow> map_option ((#) j) (anys_json h xs))"
| "entries_json h [] = Some []"
| "entries_json h (x # xs) =
     (case entry_json h x of None \<Rightarrow> None | Some j \<Rightarrow> map_option ((#) j) (entries_json h xs))"
| "entry_json h (k, v) =
     (case any_json h v of None \<Rightarrow> None | Some j \<Rightarrow> Some (quote_str h k, j))"

subsection \<open>Integers\<close>

fun nat_text :: "nat \<Rightarrow> string" where
  "nat_text n =
     (if n < 10 then [char_of (48 + n)] else nat_text (n div 10) @ [char_of (48 + n mod 10)])"

declare nat_text.simps [simp del]

definition int_text :: "int \<Rightarrow> string" where
  "int_text i = (if i < 0 then CHR ''-'' # nat_text (nat (- i)) else nat_text (nat i))"

definition digits_val :: "string \<Rightarrow> nat" where
  "digits_val s = foldl (\<lambda>acc c. 10 * acc + (of_char c - 48)) 0 s"

text \<open>\<open>strconv.ParseInt(s, 10, 64)\<close> on a number literal.\<close>

definition in_int64 :: "int \<Rightarrow> bool" where
  "in_int64 i \<longleftrightarrow> - (2 ^ 63) \<le> i \<and> i < 2 ^ 63"

definition ParseInt :: "string \<Rightarrow> int option" where
  "ParseInt s =
     (let (neg, ds) = (case s of c # cs \<Rightarrow> if c = CHR ''-'' then (True, cs) else (False, s) | [] \<Rightarrow> (False, s));
          i = (if neg then - int (digits_val ds) else int (digits_val ds))
      in if ds \<noteq> [] \<and> (\<forall>c \<in> set ds. is_digit c) \<and> in_int64 i then Some i else None)"

subsection \<open>Storing into struct fields\<close>

text \<open>Each function takes the syntax tree and the field's value so far; \<open>None\<close> is an
  \<open>UnmarshalTypeError\<close>. A JSON null leaves a string or an integer as it is and sets a slice or
  an \<open>interface{}\<close> to nil.\<close>

definition store_str :: "json \<Rightarrow> string \<Rightarrow> string option" where
  "store_str j old = (case j of JNull \<Rightarrow> Some old | JStr s \<Rightarrow> Some (unquote s) | _ \<Rightarrow> None)"

definition store_int :: "json \<Rightarrow> int \<Rightarrow> int option" where
  "store_int j old = (case j of JNull \<Rightarrow> Some old | JNum s \<Rightarrow> ParseInt s | _ \<Rightarrow> None)"

fun map_opt :: "('a \<Rightarrow> 'b option) \<Rightarrow> 'a list \<Rightarrow> 'b list option" where
  "map_opt f [] = Some []"
| "map_opt f (x # xs) =
     (case f x of None \<Rightarrow> None | Some y \<Rightarrow> map_option ((#) y) (map_opt f xs))"

text \<open>A slice is nil (\<open>None\<close>) or a list.\<close>

definition store_slice :: "(json \<Rightarrow> 'a option) \<Rightarrow> json \<Rightarrow> 'a list option option" where
  "store_slice f j =
     (case j of JNull \<Rightarrow> Some None | JArr xs \<Rightarrow> map_option Some (map_opt f xs) | _ \<Rightarrow> None)"

text \<open>The struct field an object key selects: the field of that name, or else the first field
  whose name is equal under case folding.\<close>

definition field_of :: "string list \<Rightarrow> string \<Rightarrow> string option" where
  "field_of names key =
     (if key \<in> set names then Some key
      else List.find (\<lambda>n. to_lower n = to_lower key) names)"

fun store_members ::
  "string list \<Rightarrow> (string \<Rightarrow> json \<Rightarrow> 's \<Rightarrow> 's option) \<Rightarrow> (string \<times> json) list \<Rightarrow> 's \<Rightarrow> 's option" where
  "store_members names st [] s = Some s"
| "store_members names st ((k, v) # kvs) s =
     (case field_of names (unquote k) of
        None \<Rightarrow> store_members names st kvs s
      | Some f \<Rightarrow> (case st f v s of None \<Rightarrow> None | Some s' \<Rightarrow> store_members names st kvs s'))"

definition store_struct ::
  "string list \<Rightarrow> (string \<Rightarrow> json \<Rightarrow> 's \<Rightarrow> 's option) \<Rightarrow> json \<Rightarrow> 's \<Rightarrow> 's option" where
  "store_struct names st j s =
     (case j of JNull \<Rightarrow> Some s | JObj kvs \<Rightarrow> store_members names st kvs s | _ \<Rightarrow> None)"

subsection \<open>The scanner consumes its input\<close>

named_theorems scan_shorter \<open>what is left after scanning is shorter\<close>

lemma length_skip_ws: "length (skip_ws s) \<le> length s"
  by (simp add: skip_ws_def length_dropWhile_le)

lemma skip_ws_Cons_le: "skip_ws s = c # cs \<Longrightarrow> length cs < length s"
  using length_skip_ws [of s] by simp

lemma consume_Some: "consume p x = Some (t, r) \<longleftrightarrow> (\<exists>t'. x = Some (t', r) \<and> t = p @ t')"
  by (auto simp: consume_def)

lemma scan_str_split: "scan_str s = Some (t, r) \<Longrightarrow> s = t @ DQ # r"
proof (induction s arbitrary: t r rule: length_induct)
  case (1 s)
  then show ?case
    by (cases s) (auto simp: scan_str.simps(2) consume_Some split: if_splits list.splits)
qed

lemma scan_str_shorter [scan_shorter]: "scan_str s = Some (t, r) \<Longrightarrow> length r < length s"
  by (auto dest: scan_str_split)

lemma scan_int_part_split:
  "scan_int_part s = Some (t, r) \<Longrightarrow> s = t @ r \<and> t \<noteq> []"
  by (auto simp: scan_int_part_def scan_digits_def split: list.splits if_splits)

lemma scan_frac_split: "scan_frac s = Some (t, r) \<Longrightarrow> s = t @ r"
  by (auto simp: scan_frac_def scan_digits_def split: list.splits if_splits)

lemma scan_exp_split: "scan_exp s = Some (t, r) \<Longrightarrow> s = t @ r"
  by (auto simp: scan_exp_def scan_digits_def split: list.splits if_splits)

lemma scan_unsigned_split: "scan_unsigned s = Some (t, r) \<Longrightarrow> s = t @ r \<and> t \<noteq> []"
  by (auto simp: scan_unsigned_def split: option.splits
      dest!: scan_int_part_split scan_frac_split scan_exp_split)

lemma scan_num_split: "scan_num s = Some (t, r) \<Longrightarrow> s = t @ r \<and> t \<noteq> []"
  by (auto simp: scan_num_def consume_Some split: list.splits if_splits dest!: scan_unsigned_split)

lemma scan_num_shorter [scan_shorter]: "scan_num s = Some (t, r) \<Longrightarrow> length r < length s"
  by (auto dest!: scan_num_split)

lemma scan_lit_shorter [scan_shorter]:
  "scan_lit p v s = Some (j, r) \<Longrightarrow> p \<noteq> [] \<Longrightarrow> length r < length s"
  by (auto simp: scan_lit_def prefix_def split: if_splits)

lemma scan_value_shorter_step:
  assumes "\<And>t vs r. scan_elems n t = Some (vs, r) \<Longrightarrow> length r < length t"
    and "\<And>t kvs r. scan_members n t = Some (kvs, r) \<Longrightarrow> length r < length t"
    and "scan_value (Suc n) s = Some (v, r)"
  shows "length r < length s"
proof (cases s)
  case Nil
  with assms(3) show ?thesis by (simp add: scan_Suc)
next
  case (Cons c cs)
  consider "c = CHR ''{''" | "c = CHR ''[''" | "c \<noteq> CHR ''{''" "c \<noteq> CHR ''[''" by blast
  then show ?thesis
  proof cases
    case 1
    with assms(3) Cons obtain d ds where d: "skip_ws cs = d # ds"
      and "r = ds \<or> (\<exists>kvs. scan_members n (d # ds) = Some (kvs, r))"
      by (auto simp: scan_Suc split: list.splits if_splits)
    with assms(2) [of "d # ds"] skip_ws_Cons_le [OF d] Cons show ?thesis by fastforce
  next
    case 2
    with assms(3) Cons obtain d ds where d: "skip_ws cs = d # ds"
      and "r = ds \<or> (\<exists>vs. scan_elems n (d # ds) = Some (vs, r))"
      by (auto simp: scan_Suc split: list.splits if_splits)
    with assms(1) [of "d # ds"] skip_ws_Cons_le [OF d] Cons show ?thesis by fastforce
  next
    case 3
    with assms(3) Cons show ?thesis
      by (auto simp: scan_Suc split: if_splits dest!: scan_shorter)
  qed
qed

lemma scan_elems_shorter_step:
  assumes "\<And>t v r. scan_value n t = Some (v, r) \<Longrightarrow> length r < length t"
    and "\<And>t vs r. scan_elems n t = Some (vs, r) \<Longrightarrow> length r < length t"
    and "scan_elems (Suc n) s = Some (vs, r)"
  shows "length r < length s"
proof -
  from assms(3) obtain v r1 d ds where v: "scan_value n (skip_ws s) = Some (v, r1)"
    and d: "skip_ws r1 = d # ds"
    and r: "r = ds \<or> (\<exists>vs. scan_elems n ds = Some (vs, r))"
    by (auto simp: scan_Suc split: option.splits list.splits if_splits)
  from assms(1) [OF v] length_skip_ws [of s] have "length r1 < length s" by linarith
  with skip_ws_Cons_le [OF d] r assms(2) [of ds] show ?thesis by fastforce
qed

lemma scan_members_shorter_step:
  assumes "\<And>t v r. scan_value n t = Some (v, r) \<Longrightarrow> length r < length t"
    and "\<And>t kvs r. scan_members n t = Some (kvs, r) \<Longrightarrow> length r < length t"
    and "scan_members (Suc n) s = Some (kvs, r)"
  shows "length r < length s"
proof -
  from assms(3) obtain s1 k s2 s3 v r1 d ds where s1: "skip_ws s = DQ # s1"
    and k: "scan_str s1 = Some (k, s2)"
    and s3: "skip_ws s2 = CHR '':'' # s3"
    and v: "scan_value n (skip_ws s3) = Some (v, r1)"
    and d: "skip_ws r1 = d # ds"
    and r: "r = ds \<or> (\<exists>kvs. scan_members n ds = Some (kvs, r))"
    by (auto simp: scan_Suc split: option.splits list.splits if_splits)
  have "length r1 < length s"
    using skip_ws_Cons_le [OF s1] scan_str_shorter [OF k] skip_ws_Cons_le [OF s3]
      assms(1) [OF v] length_skip_ws [of s3] by linarith
  with skip_ws_Cons_le [OF d] r assms(2) [of ds] show ?thesis by fastforce
qed

lemma scan_shorter_all:
  shows "scan_value n s = Some (v, r) \<Longrightarrow> length r < length s"
    and "scan_elems n s = Some (vs, r) \<Longrightarrow> length r < length s"
    and "scan_members n s = Some (kvs, r) \<Longrightarrow> length r < length s"
proof (induction n arbitrary: s v vs kvs r)
  case (Suc n)
  { case 1 then show ?case using Suc.IH scan_value_shorter_step by blast }
  { case 2 then show ?case using Suc.IH scan_elems_shorter_step by blast }
  { case 3 then show ?case using Suc.IH scan_members_shorter_step by blast }
qed simp_all

subsection \<open>Fuel\<close>

text \<open>With the fuel of \<^const>\<open>json_fuel\<close> the scanner gives its result: more never changes it.\<close>

lemma scan_fuel_all:
  shows "2 * length s + 1 \<le> n \<Longrightarrow> 2 * length s + 1 \<le> m \<Longrightarrow> scan_value n s = scan_value m s"
    and "2 * length s + 2 \<le> n \<Longrightarrow> 2 * length s + 2 \<le> m \<Longrightarrow> scan_elems n s = scan_elems m s"
    and "2 * length s + 2 \<le> n \<Longrightarrow> 2 * length s + 2 \<le> m \<Longrightarrow> scan_members n s = scan_members m s"
proof (induction n arbitrary: s m)
  case (Suc n)
  { case 1
    then obtain m' where m: "m = Suc m'" by (cases m) auto
    have sub: "scan_elems n t = scan_elems m' t" "scan_members n t = scan_members m' t"
      if "s = c # cs" "skip_ws cs = t" for t c cs
    proof -
      have "2 * length t + 2 \<le> n" "2 * length t + 2 \<le> m'"
        using 1 that length_skip_ws [of cs] by (auto simp: m)
      then show "scan_elems n t = scan_elems m' t" "scan_members n t = scan_members m' t"
        using Suc.IH(2,3) by blast+
    qed
    show ?case
      unfolding m scan_value.simps(2)
      by (auto simp: sub split: list.split) }
  { case 2
    then obtain m' where m: "m = Suc m'" by (cases m) auto
    have v: "scan_value n (skip_ws s) = scan_value m' (skip_ws s)"
      using 2 length_skip_ws [of s] by (intro Suc.IH(1)) (auto simp: m)
    have sub: "scan_elems n ds = scan_elems m' ds"
      if "scan_value m' (skip_ws s) = Some (v, r)" "skip_ws r = d # ds" for v r d ds
    proof -
      have "length ds < length s"
        using scan_shorter_all(1) [OF that(1)] skip_ws_Cons_le [OF that(2)] length_skip_ws [of s]
        by linarith
      with 2 show ?thesis by (intro Suc.IH(2)) (auto simp: m)
    qed
    show ?case
      unfolding m scan_elems.simps(2) v
      by (auto simp: sub split: option.split list.split) }
  { case 3
    then obtain m' where m: "m = Suc m'" by (cases m) auto
    have short: "length s3 < length s"
      if "skip_ws s = DQ # s1" "scan_str s1 = Some (k, s2)" "skip_ws s2 = c # s3" for s1 s2 s3 k c
      using skip_ws_Cons_le [OF that(1)] scan_str_shorter [OF that(2)] skip_ws_Cons_le [OF that(3)]
      by linarith
    have v: "scan_value n (skip_ws s3) = scan_value m' (skip_ws s3)"
      if "skip_ws s = DQ # s1" "scan_str s1 = Some (k, s2)" "skip_ws s2 = c # s3" for s1 s2 s3 k c
      using 3 short [OF that] length_skip_ws [of s3] by (intro Suc.IH(1)) (auto simp: m)
    have sub: "scan_members n ds = scan_members m' ds"
      if "skip_ws s = DQ # s1" "scan_str s1 = Some (k, s2)" "skip_ws s2 = c # s3"
        "scan_value m' (skip_ws s3) = Some (v, r)" "skip_ws r = d # ds" for s1 s2 s3 k c v r d ds
    proof -
      have "length ds < length s"
        using short [OF that(1-3)] scan_shorter_all(1) [OF that(4)] skip_ws_Cons_le [OF that(5)]
          length_skip_ws [of s3] by linarith
      with 3 show ?thesis by (intro Suc.IH(3)) (auto simp: m)
    qed
    show ?case
      unfolding m scan_members.simps(2)
      by (auto simp: v sub split: option.split list.split) }
qed simp_all

lemma scan_value_fuel:
  assumes "json_fuel s \<le> n"
  shows "scan_value n (skip_ws s) = json_decode s"
  using assms length_skip_ws [of s] unfolding json_decode_def
  by (intro scan_fuel_all(1)) (auto simp: json_fuel_def)

subsection \<open>Literals\<close>

lemma DQ_BS [simp]: "DQ \<noteq> BS" "BS \<noteq> DQ"
  by (simp_all add: DQ_def BS_def)

lemma hex_val_lower_hex: "k < 16 \<Longrightarrow> hex_val (lower_hex k) = Some k"
  by (auto simp: hex_val_def lower_hex_def Let_def)

lemma is_hex_lower_hex: "k < 16 \<Longrightarrow> is_hex (lower_hex k)"
  by (simp add: is_hex_def hex_val_lower_hex)

lemma of_char_div_16: "(of_char c :: nat) div 16 < 16"
  using nat_of_char_less_256 [of c] by linarith

lemma is_hex_zero: "is_hex (CHR ''0'')" "hex_of (CHR ''0'') = 0"
  by (simp_all add: is_hex_def hex_of_def hex_val_def)

lemma unquote_quote_char: "unquote (quote_char h c @ x) = c # unquote x"
proof (cases "c = DQ \<or> c = BS \<or> c = CHR 0x0A \<or> c = CHR 0x0D \<or> c = CHR 0x09")
  case True
  then show ?thesis
    by (auto simp: quote_char_def unquote.simps(2) unescape_char_def DQ_def BS_def)
next
  case False
  note nonesc = this
  show ?thesis
  proof (cases "(of_char c :: nat) < 32 \<or> h \<and> c \<in> {CHR ''<'', CHR ''>'', CHR ''&''}")
    case True
    then have small: "(of_char c :: nat) < 128" by auto
    have "hex4 (CHR ''0'') (CHR ''0'') (lower_hex (of_char c div 16)) (lower_hex (of_char c mod 16))
        = of_char c"
      using of_char_div_16 [of c]
      by (simp add: hex4_def is_hex_zero) (simp add: hex_of_def hex_val_lower_hex)
    with True nonesc small show ?thesis
      by (simp add: quote_char_def unquote.simps(2) is_surrogate_def utf8_encode_def)
  next
    case False
    with nonesc show ?thesis by (auto simp: quote_char_def unquote.simps(2))
  qed
qed

lemma unquote_quote_str [codec]: "unquote (quote_str h s) = s"
  by (induction s) (auto simp: quote_str_def unquote_quote_char)

text \<open>The bodies of string literals, and number literals followed by a delimiter.\<close>

inductive raw_ok :: "string \<Rightarrow> bool" where
  raw_nil: "raw_ok []"
| raw_plain: "c \<noteq> DQ \<Longrightarrow> c \<noteq> BS \<Longrightarrow> 32 \<le> (of_char c :: nat) \<Longrightarrow> raw_ok s \<Longrightarrow> raw_ok (c # s)"
| raw_escape: "simple_escape e \<Longrightarrow> raw_ok s \<Longrightarrow> raw_ok (BS # e # s)"
| raw_unicode: "is_hex h1 \<Longrightarrow> is_hex h2 \<Longrightarrow> is_hex h3 \<Longrightarrow> is_hex h4 \<Longrightarrow> raw_ok s \<Longrightarrow>
    raw_ok (BS # CHR ''u'' # h1 # h2 # h3 # h4 # s)"

lemma simple_escape_simps [simp]:
  "simple_escape DQ" "simple_escape BS" "simple_escape (CHR ''n'')"
  "simple_escape (CHR ''r'')" "simple_escape (CHR ''t'')" "\<not> simple_escape (CHR ''u'')"
  by (auto simp: simple_escape_def DQ_def BS_def)

lemma scan_str_eqs:
  "scan_str (DQ # x) = Some ([], x)"
  "c \<noteq> DQ \<Longrightarrow> c \<noteq> BS \<Longrightarrow> 32 \<le> (of_char c :: nat) \<Longrightarrow>
     scan_str (c # x) = consume [c] (scan_str x)"
  "simple_escape e \<Longrightarrow> scan_str (BS # e # x) = consume [BS, e] (scan_str x)"
  "is_hex h1 \<Longrightarrow> is_hex h2 \<Longrightarrow> is_hex h3 \<Longrightarrow> is_hex h4 \<Longrightarrow>
     scan_str (BS # CHR ''u'' # h1 # h2 # h3 # h4 # x) =
     consume [BS, CHR ''u'', h1, h2, h3, h4] (scan_str x)"
  by (subst scan_str.simps(2), simp)+

lemma scan_str_raw: "raw_ok s \<Longrightarrow> scan_str (s @ DQ # x) = Some (s, x)"
  by (induction rule: raw_ok.induct) (simp_all add: scan_str_eqs consume_def)

lemma raw_ok_quote_char: "raw_ok s \<Longrightarrow> raw_ok (quote_char h c @ s)"
  by (simp add: quote_char_def is_hex_lower_hex of_char_div_16 is_hex_zero raw_escape raw_unicode
      raw_plain)

lemma raw_ok_quote_str: "raw_ok (quote_str h s)"
  by (induction s) (auto simp: quote_str_def intro: raw_nil raw_ok_quote_char)

definition num_ok :: "string \<Rightarrow> bool" where
  "num_ok s \<longleftrightarrow> scan_num s = Some (s, [])"

definition delim :: "string \<Rightarrow> bool" where
  "delim r \<longleftrightarrow> (case r of [] \<Rightarrow> True
     | c # _ \<Rightarrow> c = CHR '','' \<or> c = CHR '']'' \<or> c = CHR ''}'' \<or> is_ws c)"

lemma delim_ConsD:
  "delim (c # r) \<Longrightarrow> \<not> is_digit c \<and> c \<noteq> CHR ''.'' \<and> c \<noteq> CHR ''e'' \<and> c \<noteq> CHR ''E''"
  by (auto simp: delim_def is_ws_def is_digit_def)

lemma digits_delim:
  assumes "delim r"
  shows "takeWhile is_digit (s @ r) = takeWhile is_digit s"
    and "dropWhile is_digit (s @ r) = dropWhile is_digit s @ r"
  using assms by (induction s; cases r; auto dest: delim_ConsD)+

lemma scan_int_part_delim:
  "scan_int_part s = Some (a, b) \<Longrightarrow> delim r \<Longrightarrow> scan_int_part (s @ r) = Some (a, b @ r)"
  by (cases s) (auto simp: scan_int_part_def scan_digits_def digits_delim split: if_splits)

lemma scan_frac_delim:
  assumes "scan_frac s = Some (a, b)" "delim r"
  shows "scan_frac (s @ r) = Some (a, b @ r)"
proof (cases s)
  case Nil
  with assms show ?thesis
    by (cases r) (auto simp: scan_frac_def dest: delim_ConsD)
next
  case (Cons c cs)
  with assms show ?thesis
    by (auto simp: scan_frac_def scan_digits_def digits_delim split: if_splits)
qed

lemma scan_exp_delim:
  assumes "scan_exp s = Some (a, b)" "delim r"
  shows "scan_exp (s @ r) = Some (a, b @ r)"
proof (cases s)
  case Nil
  with assms show ?thesis
    by (cases r) (auto simp: scan_exp_def dest: delim_ConsD)
next
  case (Cons c cs)
  with assms show ?thesis
    by (cases cs) (auto simp: scan_exp_def scan_digits_def digits_delim split: if_splits)
qed

lemma scan_unsigned_delim:
  assumes "scan_unsigned s = Some (t, b)" "delim r"
  shows "scan_unsigned (s @ r) = Some (t, b @ r)"
proof -
  from assms(1) obtain i s1 f s2 e where
    "scan_int_part s = Some (i, s1)" "scan_frac s1 = Some (f, s2)" "scan_exp s2 = Some (e, b)"
    and t: "t = i @ f @ e"
    by (auto simp: scan_unsigned_def split: option.splits)
  with assms(2) have "scan_int_part (s @ r) = Some (i, s1 @ r)"
    "scan_frac (s1 @ r) = Some (f, s2 @ r)" "scan_exp (s2 @ r) = Some (e, b @ r)"
    by (auto intro: scan_int_part_delim scan_frac_delim scan_exp_delim)
  then show ?thesis by (simp add: scan_unsigned_def t)
qed

lemma scan_num_delim: "num_ok s \<Longrightarrow> delim r \<Longrightarrow> scan_num (s @ r) = Some (s, r)"
  using scan_unsigned_delim [of s s "[]" r] scan_unsigned_delim [of "tl s" "tl s" "[]" r]
  by (cases s) (auto simp: num_ok_def scan_num_def consume_def split: if_splits)

lemma scan_int_part_hd:
  "scan_int_part s = Some (t, r) \<Longrightarrow> \<exists>c cs. s = c # cs \<and> is_digit c"
  by (cases s) (auto simp: scan_int_part_def is_digit_def split: if_splits)

lemma num_ok_hd:
  assumes "num_ok s"
  obtains c cs where "s = c # cs" "is_digit c \<or> c = CHR ''-''"
  using assms
  by (cases s) (auto simp: num_ok_def scan_num_def scan_unsigned_def split: if_splits option.splits
      dest!: scan_int_part_hd)

subsection \<open>Scanning printed text\<close>

primrec wf_json :: "json \<Rightarrow> bool"
  and wf_elems :: "json list \<Rightarrow> bool"
  and wf_members :: "(string \<times> json) list \<Rightarrow> bool"
  and wf_member :: "string \<times> json \<Rightarrow> bool" where
  "wf_json JNull = True"
| "wf_json (JBool b) = True"
| "wf_json (JNum s) = num_ok s"
| "wf_json (JStr s) = raw_ok s"
| "wf_json (JArr xs) = wf_elems xs"
| "wf_json (JObj kvs) = wf_members kvs"
| "wf_elems [] = True"
| "wf_elems (x # xs) = (wf_json x \<and> wf_elems xs)"
| "wf_members [] = True"
| "wf_members (x # xs) = (wf_member x \<and> wf_members xs)"
| "wf_member (k, v) = (raw_ok k \<and> wf_json v)"

text \<open>The depth of the scanner's recursion on the text of a tree.\<close>

primrec need :: "json \<Rightarrow> nat"
  and need_elems :: "json list \<Rightarrow> nat"
  and need_members :: "(string \<times> json) list \<Rightarrow> nat"
  and need_member :: "string \<times> json \<Rightarrow> nat" where
  "need JNull = 1"
| "need (JBool b) = 1"
| "need (JNum s) = 1"
| "need (JStr s) = 1"
| "need (JArr xs) = Suc (need_elems xs)"
| "need (JObj kvs) = Suc (need_members kvs)"
| "need_elems [] = 0"
| "need_elems (x # xs) = Suc (max (need x) (need_elems xs))"
| "need_members [] = 0"
| "need_members (x # xs) = Suc (max (need_member x) (need_members xs))"
| "need_member (k, v) = need v"

definition starts_value :: "string \<Rightarrow> bool" where
  "starts_value s \<longleftrightarrow> (case s of [] \<Rightarrow> False | c # _ \<Rightarrow> \<not> is_ws c \<and> c \<noteq> CHR '']'' \<and> c \<noteq> CHR ''}'')"

lemma skip_ws_starts_value: "starts_value s \<Longrightarrow> skip_ws (s @ r) = s @ r"
  by (cases s) (auto simp: starts_value_def skip_ws_def)

lemma starts_value_json_text: "wf_json j \<Longrightarrow> starts_value (json_text j)"
proof (cases j)
  case (JNum s)
  moreover assume "wf_json j"
  ultimately obtain c cs where "s = c # cs" "is_digit c \<or> c = CHR ''-''"
    by (auto elim: num_ok_hd)
  with JNum show ?thesis
    by (auto simp: starts_value_def is_ws_def is_digit_def)
qed (auto simp: starts_value_def is_ws_def DQ_def)

lemma skip_ws_punct [simp]:
  "skip_ws (CHR '','' # r) = CHR '','' # r" "skip_ws (CHR '']'' # r) = CHR '']'' # r"
  "skip_ws (CHR ''}'' # r) = CHR ''}'' # r" "skip_ws (CHR '':'' # r) = CHR '':'' # r"
  "skip_ws (DQ # r) = DQ # r"
  by (simp_all add: skip_ws_def is_ws_def DQ_def)

lemma delim_punct [simp]:
  "delim (CHR '','' # r)" "delim (CHR '']'' # r)" "delim (CHR ''}'' # r)"
  by (simp_all add: delim_def)

abbreviation scans :: "json \<Rightarrow> bool" where
  "scans j \<equiv> \<forall>n r. wf_json j \<longrightarrow> need j \<le> n \<longrightarrow> delim r \<longrightarrow>
     scan_value n (json_text j @ r) = Some (j, r)"

lemma scan_elems_text:
  assumes "\<forall>x \<in> set xs. scans x" "xs \<noteq> []" "wf_elems xs" "need_elems xs \<le> n"
  shows "scan_elems n (elems_text xs @ CHR '']'' # r) = Some (xs, r)"
  using assms
proof (induction xs arbitrary: n)
  case (Cons x xs)
  then obtain m where n: "n = Suc m" by (cases n) auto
  from Cons.prems n show ?case
    by (cases "xs = []")
      (auto simp: scan_Suc skip_ws_starts_value starts_value_json_text Cons.IH)
qed simp

lemma scan_members_text:
  assumes "\<forall>x \<in> set kvs. scans (snd x)" "kvs \<noteq> []" "wf_members kvs" "need_members kvs \<le> n"
  shows "scan_members n (members_text kvs @ CHR ''}'' # r) = Some (kvs, r)"
  using assms
proof (induction kvs arbitrary: n)
  case (Cons x kvs)
  then obtain m where n: "n = Suc m" by (cases n) auto
  obtain k v where x: "x = (k, v)" by (cases x)
  from Cons.prems n show ?case
    by (cases "kvs = []")
      (auto simp: x scan_Suc scan_str_raw skip_ws_starts_value starts_value_json_text Cons.IH)
qed simp

lemma elems_text_start:
  assumes "wf_elems xs" "xs \<noteq> []"
  obtains d ds where "elems_text xs = d # ds" "\<not> is_ws d" "d \<noteq> CHR '']''"
  using assms starts_value_json_text [of "hd xs"]
  by (cases xs) (auto simp: starts_value_def split: list.splits)

lemma scan_value_eqs:
  "is_digit c \<or> c = CHR ''-'' \<Longrightarrow>
     scan_value (Suc n) (c # cs) = map_option (\<lambda>(t, r). (JNum t, r)) (scan_num (c # cs))"
  "scan_value (Suc n) (DQ # cs) = map_option (\<lambda>(t, r). (JStr t, r)) (scan_str cs)"
  "scan_value (Suc n) (CHR ''['' # CHR '']'' # r) = Some (JArr [], r)"
  "scan_value (Suc n) (CHR ''{'' # CHR ''}'' # r) = Some (JObj [], r)"
  "\<not> is_ws d \<Longrightarrow> d \<noteq> CHR '']'' \<Longrightarrow> scan_value (Suc n) (CHR ''['' # d # ds) =
     map_option (\<lambda>(xs, r). (JArr xs, r)) (scan_elems n (d # ds))"
  "\<not> is_ws d \<Longrightarrow> d \<noteq> CHR ''}'' \<Longrightarrow> scan_value (Suc n) (CHR ''{'' # d # ds) =
     map_option (\<lambda>(kvs, r). (JObj kvs, r)) (scan_members n (d # ds))"
proof -
  show "scan_value (Suc n) (c # cs) = map_option (\<lambda>(t, r). (JNum t, r)) (scan_num (c # cs))"
    if "is_digit c \<or> c = CHR ''-''"
  proof -
    have "c \<notin> {CHR ''{'', CHR ''['', DQ, CHR ''t'', CHR ''f'', CHR ''n''}"
      using that by (auto simp: is_digit_def DQ_def)
    then show ?thesis by (simp add: scan_value.simps(2))
  qed
qed (simp_all add: scan_value.simps(2) skip_ws_def is_ws_def DQ_def)

lemma scan_json_text: "scans j"
proof (induction j)
  case (JNum s)
  show ?case
  proof (intro allI impI)
    fix n r assume wf: "wf_json (JNum s)" "need (JNum s) \<le> n" and r: "delim r"
    from wf obtain c cs m where "s = c # cs" "is_digit c \<or> c = CHR ''-''" "n = Suc m"
      by (cases n) (auto elim: num_ok_hd)
    with wf r scan_num_delim [of s r]
    show "scan_value n (json_text (JNum s) @ r) = Some (JNum s, r)"
      by (simp add: scan_value_eqs)
  qed
next
  case (JStr s)
  show ?case
  proof (intro allI impI)
    fix n r assume "wf_json (JStr s)" "need (JStr s) \<le> n"
    then show "scan_value n (json_text (JStr s) @ r) = Some (JStr s, r)"
      by (cases n) (simp_all add: scan_value_eqs scan_str_raw)
  qed
next
  case (JArr xs)
  show ?case
  proof (intro allI impI)
    fix n r assume wf: "wf_json (JArr xs)" "need (JArr xs) \<le> n"
    then obtain m where n: "n = Suc m" by (cases n) auto
    show "scan_value n (json_text (JArr xs) @ r) = Some (JArr xs, r)"
    proof (cases "xs = []")
      case True
      then show ?thesis by (simp add: n scan_value_eqs)
    next
      case False
      with wf obtain d ds where "elems_text xs = d # ds" "\<not> is_ws d" "d \<noteq> CHR '']''"
        using elems_text_start by auto
      with scan_elems_text [of xs m r] JArr False wf n show ?thesis
        by (simp add: scan_value_eqs)
    qed
  qed
next
  case (JObj kvs)
  show ?case
  proof (intro allI impI)
    fix n r assume wf: "wf_json (JObj kvs)" "need (JObj kvs) \<le> n"
    then obtain m where n: "n = Suc m" by (cases n) auto
    show "scan_value n (json_text (JObj kvs) @ r) = Some (JObj kvs, r)"
    proof (cases kvs)
      case Nil
      then show ?thesis by (simp add: n scan_value_eqs)
    next
      case (Cons x xs)
      then obtain ds where "members_text kvs = DQ # ds" "\<not> is_ws DQ" "DQ \<noteq> CHR ''}''"
        by (cases x) (auto simp: is_ws_def DQ_def)
      moreover have "scan_members m (members_text kvs @ CHR ''}'' # r) = Some (kvs, r)"
        using JObj wf n Cons by (intro scan_members_text) (auto simp: snds.simps)
      ultimately show ?thesis by (simp add: n scan_value_eqs)
    qed
  qed
qed (auto simp: scan_Suc scan_lit_def DQ_def Suc_le_eq gr0_conv_Suc)

lemma need_elems_le:
  assumes "\<forall>x \<in> set xs. wf_json x \<longrightarrow> need x < 2 * length (json_text x)" "wf_elems xs"
  shows "need_elems xs \<le> 2 * length (elems_text xs)"
  using assms by (induction xs) fastforce+

lemma need_members_le:
  assumes "\<forall>x \<in> set xs. wf_json (snd x) \<longrightarrow> need (snd x) < 2 * length (json_text (snd x))"
    "wf_members xs"
  shows "need_members xs \<le> 2 * length (members_text xs)"
  using assms by (induction xs) fastforce+

lemma need_le: "wf_json j \<Longrightarrow> need j < 2 * length (json_text j)"
proof (induction j)
  case (JNum s)
  then show ?case by (auto elim: num_ok_hd)
next
  case (JArr xs)
  then show ?case using need_elems_le [of xs] by simp
next
  case (JObj kvs)
  then have "need_members kvs \<le> 2 * length (members_text kvs)"
    by (intro need_members_le) (auto simp: snds.simps)
  then show ?case by simp
qed auto

lemma json_decode_text [codec]:
  assumes "wf_json j" "delim r"
  shows "json_decode (json_text j @ r) = Some (j, r)"
proof -
  have "need j \<le> json_fuel (json_text j @ r)"
    using need_le [OF assms(1)] by (simp add: json_fuel_def)
  then show ?thesis
    using assms scan_json_text [of j] starts_value_json_text [OF assms(1)]
    by (simp add: json_decode_def skip_ws_starts_value)
qed

lemma delim_ws: "skip_ws ws = [] \<Longrightarrow> delim ws"
  by (cases ws) (auto simp: skip_ws_def delim_def split: if_splits)

lemma json_parse_text [codec]:
  "wf_json j \<Longrightarrow> skip_ws ws = [] \<Longrightarrow> json_parse (json_text j @ ws) = Some j"
  by (simp add: json_parse_def json_decode_text delim_ws)

subsection \<open>Values of type interface{} survive encoding and decoding\<close>

text \<open>A value is canonical when its numbers are number literals, its maps list their entries in
  key order, and nothing in it is refused by the encoder.\<close>

primrec wf_any :: "goany \<Rightarrow> bool"
  and wf_anys :: "goany list \<Rightarrow> bool"
  and wf_entries :: "(string \<times> goany) list \<Rightarrow> bool"
  and wf_entry :: "string \<times> goany \<Rightarrow> bool" where
  "wf_any ANil = True"
| "wf_any (ABool b) = True"
| "wf_any (ANum s) = num_ok s"
| "wf_any (AStr s) = True"
| "wf_any (AArr xs) = wf_anys xs"
| "wf_any (AMap m) = (wf_entries m \<and> sorted_wrt (<) (map fst m))"
| "wf_any AOpaque = False"
| "wf_anys [] = True"
| "wf_anys (x # xs) = (wf_any x \<and> wf_anys xs)"
| "wf_entries [] = True"
| "wf_entries (x # xs) = (wf_entry x \<and> wf_entries xs)"
| "wf_entry (k, v) = wf_any v"

lemma put_entry_last: "\<forall>k' \<in> set (map fst m). k' < k \<Longrightarrow> put_entry k v m = m @ [(k, v)]"
  by (induction m) (auto dest: order.strict_implies_not_eq order.asym)

abbreviation any_ok :: "bool \<Rightarrow> goany \<Rightarrow> bool" where
  "any_ok h a \<equiv> wf_any a \<longrightarrow> (\<exists>j. any_json h a = Some j \<and> wf_json j \<and> json_any j = a)"

lemma anys_json_ok:
  assumes "\<forall>x \<in> set xs. any_ok h x" "wf_anys xs"
  shows "\<exists>js. anys_json h xs = Some js \<and> wf_elems js \<and> elems_any js = xs"
  using assms by (induction xs) fastforce+

lemma entries_json_ok:
  assumes "\<forall>x \<in> set m. any_ok h (snd x)" "wf_entries m" "sorted_wrt (<) (map fst (m0 @ m))"
  shows "\<exists>js. entries_json h m = Some js \<and> wf_members js \<and> members_any js m0 = m0 @ m"
  using assms
proof (induction m arbitrary: m0)
  case (Cons x m)
  obtain k v where x: "x = (k, v)" by (cases x)
  from Cons.prems obtain j where j: "any_json h v = Some j" "wf_json j" "json_any j = v"
    by (auto simp: x)
  from Cons.prems have "\<exists>js. entries_json h m = Some js \<and> wf_members js \<and>
      members_any js (m0 @ [(k, v)]) = (m0 @ [(k, v)]) @ m"
    by (intro Cons.IH) (auto simp: x sorted_wrt_append)
  then obtain js where js: "entries_json h m = Some js" "wf_members js"
      "members_any js (m0 @ [(k, v)]) = m0 @ (k, v) # m"
    by auto
  have "put_entry k v m0 = m0 @ [(k, v)]"
    using Cons.prems(3) by (intro put_entry_last) (auto simp: x sorted_wrt_append)
  with j js show ?case by (simp add: x raw_ok_quote_str codec)
qed simp

lemma any_json_ok: "any_ok h a"
proof (induction a)
  case (AArr xs)
  then show ?case using anys_json_ok [of xs h] by auto
next
  case (AMap m)
  show ?case
  proof
    assume wf: "wf_any (AMap m)"
    have "\<forall>x \<in> set m. any_ok h (snd x)" using AMap by (auto simp: snds.simps)
    with wf entries_json_ok [of m h "[]"] show
      "\<exists>j. any_json h (AMap m) = Some j \<and> wf_json j \<and> json_any j = AMap m" by auto
  qed
qed (auto simp: raw_ok_quote_str codec)

lemma any_json_roundtrip [codec]:
  assumes "wf_any a"
  obtains j where "any_json h a = Some j" "wf_json j" "json_any j = a"
  using any_json_ok [of a h] assms by auto

subsection \<open>Integers survive encoding and decoding\<close>

lemma nat_text_digits: "nat_text n \<noteq> [] \<and> (\<forall>c \<in> set (nat_text n). is_digit c)"
proof (induction n rule: nat_text.induct)
  case (1 n)
  then show ?case
    by (subst (1 2) nat_text.simps) (auto simp: is_digit_def)
qed

lemma digits_val_nat_text: "digits_val (nat_text n) = n"
proof (induction n rule: nat_text.induct)
  case (1 n)
  then show ?case
    by (subst nat_text.simps) (auto simp: digits_val_def)
qed

lemma nat_text_hd: "0 < n \<Longrightarrow> hd (nat_text n) \<noteq> CHR ''0''"
proof (induction n rule: nat_text.induct)
  case (1 n)
  then show ?case
    using nat_text_digits [of "n div 10"]
    by (subst nat_text.simps) (auto simp: char_of_eq_iff take_bit_eq_mod)
qed

lemma nat_text_0: "nat_text 0 = ''0''"
  by (simp add: nat_text.simps char_of_eq_iff)

lemma scan_unsigned_nat_text: "scan_unsigned (nat_text n) = Some (nat_text n, [])"
proof (cases n)
  case 0
  then show ?thesis
    by (simp add: nat_text_0 scan_unsigned_def scan_int_part_def scan_frac_def scan_exp_def)
next
  case (Suc m)
  obtain c cs where t: "nat_text n = c # cs" using nat_text_digits [of n] by (cases "nat_text n") auto
  with nat_text_digits [of n] nat_text_hd [of n] Suc
  have "c \<noteq> CHR ''0''" "\<forall>x \<in> set (c # cs). is_digit x" by auto
  then have "scan_int_part (c # cs) = Some (c # cs, [])"
    by (simp add: scan_int_part_def scan_digits_def dropWhile_eq_Nil_conv takeWhile_eq_all_conv)
  then show ?thesis by (simp add: t scan_unsigned_def scan_frac_def scan_exp_def)
qed

lemma nat_text_no_minus: "nat_text n = c # cs \<Longrightarrow> c \<noteq> CHR ''-''"
  using nat_text_digits [of n] by (auto simp: is_digit_def)

lemma num_ok_int_text: "num_ok (int_text i)"
proof (cases "nat_text (nat i)")
  case Nil
  then show ?thesis using nat_text_digits [of "nat i"] by simp
next
  case (Cons c cs)
  with scan_unsigned_nat_text [of "nat i"] scan_unsigned_nat_text [of "nat (- i)"]
    nat_text_no_minus [OF Cons]
  show ?thesis by (auto simp: num_ok_def int_text_def scan_num_def consume_def)
qed

lemma ParseInt_int_text [codec]:
  assumes "in_int64 i"
  shows "ParseInt (int_text i) = Some i"
proof (cases "nat_text (nat i)")
  case Nil
  then show ?thesis using nat_text_digits [of "nat i"] by simp
next
  case (Cons c cs)
  with nat_text_digits [of "nat i"] nat_text_digits [of "nat (- i)"] digits_val_nat_text [of "nat i"]
    digits_val_nat_text [of "nat (- i)"] nat_text_no_minus [OF Cons] assms
  show ?thesis by (auto simp: ParseInt_def int_text_def Let_def)
qed

end
