(* ===== verification/Timestamp.thy ===== *)
theory Timestamp
  imports Go_Json "HOL-Library.Monad_Syntax"
begin

text \<open>
  The type \<open>Time\<close> of \<open>internal/receptor/protocol/messages.go\<close>: a \<open>time.Time\<close> written to
  JSON with the layout \<open>2006-01-02T15:04:05.999999999\<close>, which has no zone, because that is
  what the Python side of the protocol sends and accepts. \<open>Format\<close> and \<open>Parse\<close> of package
  \<open>time\<close> are modelled for this layout: the fraction is written without trailing zeros and left
  out when it is zero; the parser takes one or two digits for the hour, two for the other
  fields, an optional fraction of at most nine digits, and checks the ranges.
\<close>

record gotime =
  t_year :: nat
  t_month :: nat
  t_day :: nat
  t_hour :: nat
  t_minute :: nat
  t_second :: nat
  t_nsec :: nat

definition is_leap :: "nat \<Rightarrow> bool" where
  "is_leap y \<longleftrightarrow> y mod 4 = 0 \<and> (y mod 100 \<noteq> 0 \<or> y mod 400 = 0)"

definition daysIn :: "nat \<Rightarrow> nat \<Rightarrow> nat" where
  "daysIn m y = (if m = 2 then (if is_leap y then 29 else 28)
                 else if m \<in> {4, 6, 9, 11} then 30 else 31)"

definition valid_time :: "gotime \<Rightarrow> bool" where
  "valid_time t \<longleftrightarrow> t_year t < 10000 \<and> 1 \<le> t_month t \<and> t_month t \<le> 12 \<and>
     1 \<le> t_day t \<and> t_day t \<le> daysIn (t_month t) (t_year t) \<and>
     t_hour t < 24 \<and> t_minute t < 60 \<and> t_second t < 60 \<and> t_nsec t < 1000000000"

text \<open>The zero value of \<open>time.Time\<close>.\<close>

definition zero_time :: gotime where
  "zero_time = \<lparr>t_year = 1, t_month = 1, t_day = 1, t_hour = 0, t_minute = 0, t_second = 0, t_nsec = 0\<rparr>"

subsection \<open>Format\<close>

definition pad :: "nat \<Rightarrow> nat \<Rightarrow> string" where
  "pad w n = replicate (w - length (nat_text n)) (CHR ''0'') @ nat_text n"

definition trim_zeros :: "string \<Rightarrow> string" where
  "trim_zeros s = rev (dropWhile (\<lambda>c. c = CHR ''0'') (rev s))"

definition format_frac :: "nat \<Rightarrow> string" where
  "format_frac ns = (let ds = trim_zeros (pad 9 ns) in if ds = [] then [] else CHR ''.'' # ds)"

definition time_Format :: "gotime \<Rightarrow> string" where
  "time_Format t =
     pad 4 (t_year t) @ ''-'' @ pad 2 (t_month t) @ ''-'' @ pad 2 (t_day t) @ ''T'' @
     pad 2 (t_hour t) @ '':'' @ pad 2 (t_minute t) @ '':'' @ pad 2 (t_second t) @
     format_frac (t_nsec t)"

subsection \<open>Parse\<close>

definition expect :: "char \<Rightarrow> string \<Rightarrow> string option" where
  "expect c s = (case s of d # r \<Rightarrow> if d = c then Some r else None | [] \<Rightarrow> None)"

definition take_digits :: "nat \<Rightarrow> string \<Rightarrow> (nat \<times> string) option" where
  "take_digits k s =
     (if k \<le> length s \<and> (\<forall>c \<in> set (take k s). is_digit c)
      then Some (digits_val (take k s), drop k s) else None)"

text \<open>The hour may have one digit.\<close>

definition take_hour :: "string \<Rightarrow> (nat \<times> string) option" where
  "take_hour s = (case take_digits 2 s of None \<Rightarrow> take_digits 1 s | Some x \<Rightarrow> Some x)"

definition take_frac :: "string \<Rightarrow> nat \<times> string" where
  "take_frac s =
     (case s of
        p # r \<Rightarrow>
          (let ds = take 9 (takeWhile is_digit r) in
           if p = CHR ''.'' \<and> ds \<noteq> [] then (digits_val ds * 10 ^ (9 - length ds), drop (length ds) r)
           else (0, s))
      | [] \<Rightarrow> (0, s))"

definition time_Parse :: "string \<Rightarrow> gotime option" where
  "time_Parse s = do {
     (y, s) \<leftarrow> take_digits 4 s;
     s \<leftarrow> expect (CHR ''-'') s;
     (mo, s) \<leftarrow> take_digits 2 s;
     s \<leftarrow> expect (CHR ''-'') s;
     (d, s) \<leftarrow> take_digits 2 s;
     s \<leftarrow> expect (CHR ''T'') s;
     (h, s) \<leftarrow> take_hour s;
     s \<leftarrow> expect (CHR '':'') s;
     (mi, s) \<leftarrow> take_digits 2 s;
     s \<leftarrow> expect (CHR '':'') s;
     (sec, s) \<leftarrow> take_digits 2 s;
     (let (ns, r) = take_frac s;
          t = \<lparr>t_year = y, t_month = mo, t_day = d, t_hour = h, t_minute = mi, t_second = sec, t_nsec = ns\<rparr>
      in if r = [] \<and> valid_time t then Some t else None)
   }"

subsection \<open>The JSON methods\<close>

text \<open>\<open>MarshalJSON\<close> puts the formatted time between quotes; \<open>UnmarshalJSON\<close> is given the
  literal as written, trims quotes from both ends and parses the rest. It is also called for a
  JSON null, which is not a time.\<close>

definition Time_MarshalJSON :: "gotime \<Rightarrow> string" where
  "Time_MarshalJSON t = DQ # time_Format t @ [DQ]"

definition trim_quotes :: "string \<Rightarrow> string" where
  "trim_quotes s = dropWhile (\<lambda>c. c = DQ) (rev (dropWhile (\<lambda>c. c = DQ) (rev s)))"

definition Time_UnmarshalJSON :: "string \<Rightarrow> gotime option" where
  "Time_UnmarshalJSON b = time_Parse (trim_quotes b)"

subsection \<open>Round trip\<close>

lemma digits_val_append: "digits_val (a @ b) = digits_val a * 10 ^ length b + digits_val b"
  unfolding digits_val_def foldl_append
proof (induction b rule: rev_induct)
  case (snoc x b)
  then show ?case by (simp add: algebra_simps)
qed simp

lemma digits_val_zeros: "digits_val (replicate k (CHR ''0'')) = 0"
  by (induction k) (auto simp: digits_val_def)

lemma length_nat_text: "n < 10 ^ k \<Longrightarrow> 0 < k \<Longrightarrow> length (nat_text n) \<le> k"
proof (induction n arbitrary: k rule: nat_text.induct)
  case (1 n)
  show ?case
  proof (cases "n < 10")
    case True
    with 1 show ?thesis by (subst nat_text.simps) simp
  next
    case False
    with "1.prems" obtain j where k: "k = Suc j" "0 < j" by (cases k; cases "k - 1") auto
    with "1.prems" False "1.IH" [of j] show ?thesis
      by (subst nat_text.simps) (simp add: less_mult_imp_div_less algebra_simps)
  qed
qed

lemma pad_props:
  assumes "n < 10 ^ k" "0 < k"
  shows "length (pad k n) = k" "\<forall>c \<in> set (pad k n). is_digit c" "digits_val (pad k n) = n"
  using length_nat_text [OF assms] nat_text_digits [of n] digits_val_nat_text [of n]
  by (auto simp: pad_def digits_val_append digits_val_zeros is_digit_def)

lemma take_digits_pad:
  assumes "n < 10 ^ k" "0 < k"
  shows "take_digits k (pad k n @ r) = Some (n, r)"
  using pad_props [OF assms] by (simp add: take_digits_def)

lemma trim_zeros_split: "s = trim_zeros s @ replicate (length s - length (trim_zeros s)) (CHR ''0'')"
proof -
  define z where "z = takeWhile (\<lambda>c. c = CHR ''0'') (rev s)"
  have "rev s = z @ dropWhile (\<lambda>c. c = CHR ''0'') (rev s)" by (simp add: z_def)
  then have s: "s = trim_zeros s @ rev z" by (metis rev_append rev_rev_ident trim_zeros_def)
  have "\<forall>c \<in> set z. c = CHR ''0''" by (auto simp: z_def dest: set_takeWhileD)
  then have "z = replicate (length z) (CHR ''0'')" by (simp add: replicate_length_same)
  moreover have "length z = length s - length (trim_zeros s)"
    using arg_cong [OF s, of length] by simp
  ultimately show ?thesis using s by (metis rev_replicate)
qed

lemma take_frac_format_frac:
  assumes "ns < 1000000000"
  shows "take_frac (format_frac ns) = (ns, [])"
proof -
  let ?p = "pad 9 ns"
  let ?t = "trim_zeros ?p"
  have p: "length ?p = 9" "\<forall>c \<in> set ?p. is_digit c" "digits_val ?p = ns"
    using pad_props [of ns 9] assms by auto
  have sp: "?p = ?t @ replicate (9 - length ?t) (CHR ''0'')"
    using trim_zeros_split [of ?p] p(1) by simp
  have len: "length ?t \<le> 9" using arg_cong [OF sp, of length] p(1) by simp
  have dig: "\<forall>c \<in> set ?t. is_digit c" using p(2) arg_cong [OF sp, of set] by auto
  have val: "digits_val ?t * 10 ^ (9 - length ?t) = ns"
    using arg_cong [OF sp, of digits_val] p(3) by (simp add: digits_val_append digits_val_zeros)
  have tk: "take 9 (takeWhile is_digit ?t) = ?t"
    using dig len by (metis takeWhile_eq_all_conv take_all)
  have tw: "takeWhile is_digit ?t = ?t" using dig by (simp add: takeWhile_eq_all_conv)
  show ?thesis
  proof (cases "?t = []")
    case True
    with val show ?thesis by (simp add: format_frac_def take_frac_def digits_val_def)
  next
    case False
    with val tk tw len show ?thesis
      by (simp add: format_frac_def take_frac_def Let_def del: takeWhile_eq_all_conv)
  qed
qed

lemma expect_Cons [simp]: "expect c (c # r) = Some r"
  by (simp add: expect_def)

lemma time_Parse_Format [codec]:
  assumes "valid_time t"
  shows "time_Parse (time_Format t) = Some t"
proof -
  have d: "t_month t < 10 ^ 2" "t_day t < 10 ^ 2" "t_hour t < 10 ^ 2" "t_minute t < 10 ^ 2"
    "t_second t < 10 ^ 2" "t_year t < 10 ^ 4" "t_nsec t < 1000000000"
    using assms by (auto simp: valid_time_def daysIn_def split: if_splits)
  have t: "\<lparr>t_year = t_year t, t_month = t_month t, t_day = t_day t, t_hour = t_hour t,
      t_minute = t_minute t, t_second = t_second t, t_nsec = t_nsec t\<rparr> = t" by simp
  from assms d show ?thesis
    by (simp add: time_Parse_def time_Format_def take_hour_def take_digits_pad
        take_frac_format_frac t)
qed

text \<open>The text of a time has no character that a JSON string escapes or that ends a literal.\<close>

lemma time_Format_chars:
  "c \<in> set (time_Format t) \<Longrightarrow> is_digit c \<or> c \<in> {CHR ''-'', CHR ''T'', CHR '':'', CHR ''.''}"
proof -
  have pad: "c \<in> set (pad k n) \<Longrightarrow> is_digit c" for k n
    using nat_text_digits [of n] by (auto simp: pad_def is_digit_def split: if_splits)
  have "c \<in> set (trim_zeros (pad 9 n)) \<Longrightarrow> is_digit c" for n
    using pad [of 9 n] by (auto simp: trim_zeros_def dest!: set_dropWhileD)
  then show "c \<in> set (time_Format t) \<Longrightarrow> is_digit c \<or> c \<in> {CHR ''-'', CHR ''T'', CHR '':'', CHR ''.''}"
    by (auto simp: time_Format_def format_frac_def Let_def dest: pad split: if_splits)
qed

lemma trim_quotes_quoted: "DQ \<notin> set s \<Longrightarrow> trim_quotes (DQ # s @ [DQ]) = s"
proof -
  assume s: "DQ \<notin> set s"
  then have "dropWhile (\<lambda>c. c = DQ) s = s" by (cases s) auto
  moreover have "dropWhile (\<lambda>c. c = DQ) (rev s @ [DQ]) = (if s = [] then [] else rev s @ [DQ])"
    using s by (cases s rule: rev_cases) auto
  ultimately show ?thesis using s by (auto simp: trim_quotes_def)
qed

lemma DQ_notin_time_Format: "DQ \<notin> set (time_Format t)"
  using time_Format_chars [of DQ t] by (auto simp: DQ_def is_digit_def)

lemma Time_roundtrip [codec]:
  "valid_time t \<Longrightarrow> Time_UnmarshalJSON (Time_MarshalJSON t) = Some t"
  by (simp add: Time_UnmarshalJSON_def Time_MarshalJSON_def trim_quotes_quoted
      DQ_notin_time_Format time_Parse_Format)

lemma raw_ok_time_Format: "raw_ok (time_Format t)"
proof -
  have plain: "\<forall>c \<in> set s. is_digit c \<or> c \<in> {CHR ''-'', CHR ''T'', CHR '':'', CHR ''.''} \<Longrightarrow> raw_ok s" for s
  proof (induction s)
    case (Cons c s)
    then have "c \<noteq> DQ" "c \<noteq> BS" "32 \<le> (of_char c :: nat)"
      by (auto simp: is_digit_def DQ_def BS_def)
    with Cons show ?case by (simp add: raw_plain)
  qed (simp add: raw_nil)
  then show ?thesis using time_Format_chars by blast
qed

end
