(* ===== verification/Messages.thy ===== *)
theory Messages
  imports Frame Timestamp
begin

text \<open>
  The messages of the receptor protocol (\<open>internal/receptor/protocol/messages.go\<close> and
  \<open>parseFrameData\<close> of \<open>frame.go\<close>). A struct is a record whose field names carry a prefix; a
  nil slice or pointer is \<open>None\<close>; a value of the interface type \<open>Message\<close> is a constructor
  for each struct that implements it. A struct is encoded to the syntax tree of its JSON object
  and decoded from it by storing the members one by one, as package \<open>encoding/json\<close> does.

  \<open>ReadMessage\<close> ends in an \<open>outcome\<close>, because one of its paths is a run-time panic.
\<close>

subsection \<open>Encoding structs\<close>

text \<open>\<open>jsonMarshal\<close>: an encoder with HTML escaping switched off, which ends the text with a
  newline. \<open>None\<close> is a value the encoder refuses.\<close>

definition jsonMarshal :: "json option \<Rightarrow> protocol_error + bytes" where
  "jsonMarshal data = (case data of None \<Rightarrow> Inl ErrJson | Some j \<Rightarrow> Inr (json_text j @ [CHR 0x0A]))"

definition enc_str :: "string \<Rightarrow> json option" where
  "enc_str s = Some (JStr (quote_str False s))"

definition enc_int :: "int \<Rightarrow> json option" where
  "enc_int i = Some (JNum (int_text i))"

definition enc_slice :: "('a \<Rightarrow> json option) \<Rightarrow> 'a list option \<Rightarrow> json option" where
  "enc_slice f xs = (case xs of None \<Rightarrow> Some JNull | Some l \<Rightarrow> map_option JArr (map_opt f l))"

definition enc_struct :: "(string \<times> json option) list \<Rightarrow> json option" where
  "enc_struct fs = map_option JObj (map_opt (\<lambda>(k, v). map_option (Pair k) v) fs)"

text \<open>\<open>json.Marshal\<close>, which escapes HTML characters and adds no newline, and a string member under it.\<close>

definition json_Marshal :: "json option \<Rightarrow> bytes option" where
  "json_Marshal data = map_option json_text data"

definition html_str :: "string \<Rightarrow> json option" where
  "html_str s = Some (JStr (quote_str True s))"

text \<open>\<open>json.Unmarshal\<close> into a struct.\<close>

definition json_Unmarshal :: "(json \<Rightarrow> 's \<Rightarrow> 's option) \<Rightarrow> bytes \<Rightarrow> 's \<Rightarrow> protocol_error + 's" where
  "json_Unmarshal st b s =
     (case json_parse b of
        None \<Rightarrow> Inl ErrJson
      | Some j \<Rightarrow> (case st j s of None \<Rightarrow> Inl ErrJson | Some s' \<Rightarrow> Inr s'))"

subsection \<open>HiMessage\<close>

record HiMessage =
  hi_Command :: string
  hi_ID :: string
  hi_ExpireTimestamp :: goany
  hi_Metadata :: goany

definition new_HiMessage :: HiMessage where
  "new_HiMessage = \<lparr>hi_Command = [], hi_ID = [], hi_ExpireTimestamp = ANil, hi_Metadata = ANil\<rparr>"

definition HiMessage_fields :: "string list" where
  "HiMessage_fields = [''cmd'', ''id'', ''expire_time'', ''meta'']"

definition HiMessage_store :: "string \<Rightarrow> json \<Rightarrow> HiMessage \<Rightarrow> HiMessage option" where
  "HiMessage_store f j m =
     (if f = ''cmd'' then map_option (\<lambda>s. m\<lparr>hi_Command := s\<rparr>) (store_str j (hi_Command m))
      else if f = ''id'' then map_option (\<lambda>s. m\<lparr>hi_ID := s\<rparr>) (store_str j (hi_ID m))
      else if f = ''expire_time'' then Some (m\<lparr>hi_ExpireTimestamp := json_any j\<rparr>)
      else if f = ''meta'' then Some (m\<lparr>hi_Metadata := json_any j\<rparr>)
      else Some m)"

definition HiMessage_unmarshal :: "bytes \<Rightarrow> HiMessage \<Rightarrow> protocol_error + HiMessage" where
  "HiMessage_unmarshal b m =
     json_Unmarshal (store_struct HiMessage_fields HiMessage_store) b m"

definition HiMessage_marshal :: "HiMessage \<Rightarrow> protocol_error + bytes" where
  "HiMessage_marshal m =
     jsonMarshal (enc_struct
       [(''cmd'', enc_str (hi_Command m)), (''id'', enc_str (hi_ID m)),
        (''expire_time'', any_json False (hi_ExpireTimestamp m)),
        (''meta'', any_json False (hi_Metadata m))])"

subsection \<open>RoutingMessage\<close>

record RoutingMessage =
  rm_Sender :: string
  rm_Recipient :: string
  rm_RouteList :: "string list option"

definition new_RoutingMessage :: RoutingMessage where
  "new_RoutingMessage = \<lparr>rm_Sender = [], rm_Recipient = [], rm_RouteList = None\<rparr>"

definition RoutingMessage_fields :: "string list" where
  "RoutingMessage_fields = [''sender'', ''recipient'', ''route_list'']"

definition RoutingMessage_store :: "string \<Rightarrow> json \<Rightarrow> RoutingMessage \<Rightarrow> RoutingMessage option" where
  "RoutingMessage_store f j m =
     (if f = ''sender'' then map_option (\<lambda>s. m\<lparr>rm_Sender := s\<rparr>) (store_str j (rm_Sender m))
      else if f = ''recipient'' then map_option (\<lambda>s. m\<lparr>rm_Recipient := s\<rparr>) (store_str j (rm_Recipient m))
      else if f = ''route_list'' then
        map_option (\<lambda>l. m\<lparr>rm_RouteList := l\<rparr>) (store_slice (\<lambda>j. store_str j []) j)
      else Some m)"

definition RoutingMessage_unmarshal :: "bytes \<Rightarrow> RoutingMessage \<Rightarrow> protocol_error + RoutingMessage" where
  "RoutingMessage_unmarshal b m =
     json_Unmarshal (store_struct RoutingMessage_fields RoutingMessage_store) b m"

text \<open>The receiver may be a nil pointer, which is encoded as null.\<close>

definition RoutingMessage_marshal :: "RoutingMessage option \<Rightarrow> protocol_error + bytes" where
  "RoutingMessage_marshal r =
     jsonMarshal (case r of
        None \<Rightarrow> Some JNull
      | Some m \<Rightarrow> enc_struct
          [(''sender'', enc_str (rm_Sender m)), (''recipient'', enc_str (rm_Recipient m)),
           (''route_list'', enc_slice enc_str (rm_RouteList m))])"

subsection \<open>RouteTableMessage\<close>

record RouteTableMessage =
  rt_Command :: string
  rt_ID :: string
  rt_Capabilities :: goany
  rt_Groups :: goany
  rt_Edges :: "goany list option list option"
  rt_Seen :: "string list option"

definition new_RouteTableMessage :: RouteTableMessage where
  "new_RouteTableMessage =
     \<lparr>rt_Command = [], rt_ID = [], rt_Capabilities = ANil, rt_Groups = ANil, rt_Edges = None,
      rt_Seen = None\<rparr>"

definition RouteTableMessage_fields :: "string list" where
  "RouteTableMessage_fields = [''cmd'', ''id'', ''capabilities'', ''groups'', ''edges'', ''seen'']"

definition RouteTableMessage_store ::
  "string \<Rightarrow> json \<Rightarrow> RouteTableMessage \<Rightarrow> RouteTableMessage option" where
  "RouteTableMessage_store f j m =
     (if f = ''cmd'' then map_option (\<lambda>s. m\<lparr>rt_Command := s\<rparr>) (store_str j (rt_Command m))
      else if f = ''id'' then map_option (\<lambda>s. m\<lparr>rt_ID := s\<rparr>) (store_str j (rt_ID m))
      else if f = ''capabilities'' then Some (m\<lparr>rt_Capabilities := json_any j\<rparr>)
      else if f = ''groups'' then Some (m\<lparr>rt_Groups := json_any j\<rparr>)
      else if f = ''edges'' then
        map_option (\<lambda>l. m\<lparr>rt_Edges := l\<rparr>) (store_slice (store_slice (\<lambda>j. Some (json_any j))) j)
      else if f = ''seen'' then
        map_option (\<lambda>l. m\<lparr>rt_Seen := l\<rparr>) (store_slice (\<lambda>j. store_str j []) j)
      else Some m)"

definition RouteTableMessage_unmarshal ::
  "bytes \<Rightarrow> RouteTableMessage \<Rightarrow> protocol_error + RouteTableMessage" where
  "RouteTableMessage_unmarshal b m =
     json_Unmarshal (store_struct RouteTableMessage_fields RouteTableMessage_store) b m"

definition RouteTableMessage_marshal :: "RouteTableMessage \<Rightarrow> protocol_error + bytes" where
  "RouteTableMessage_marshal m =
     jsonMarshal (enc_struct
       [(''cmd'', enc_str (rt_Command m)), (''id'', enc_str (rt_ID m)),
        (''capabilities'', any_json False (rt_Capabilities m)),
        (''groups'', any_json False (rt_Groups m)),
        (''edges'', enc_slice (enc_slice (any_json False)) (rt_Edges m)),
        (''seen'', enc_slice enc_str (rt_Seen m))])"

subsection \<open>PayloadMessage\<close>

record InnerEnvelope =
  ie_MessageID :: string
  ie_Sender :: string
  ie_Recipient :: string
  ie_MessageType :: string
  ie_Timestamp :: gotime
  ie_RawPayload :: goany
  ie_Directive :: string
  ie_InResponseTo :: string
  ie_Code :: int
  ie_Serial :: int

definition new_InnerEnvelope :: InnerEnvelope where
  "new_InnerEnvelope =
     \<lparr>ie_MessageID = [], ie_Sender = [], ie_Recipient = [], ie_MessageType = [],
      ie_Timestamp = zero_time, ie_RawPayload = ANil, ie_Directive = [], ie_InResponseTo = [],
      ie_Code = 0, ie_Serial = 0\<rparr>"

definition InnerEnvelope_fields :: "string list" where
  "InnerEnvelope_fields =
     [''message_id'', ''sender'', ''recipient'', ''message_type'', ''timestamp'', ''raw_payload'',
      ''directive'', ''in_response_to'', ''code'', ''serial'']"

definition InnerEnvelope_store :: "string \<Rightarrow> json \<Rightarrow> InnerEnvelope \<Rightarrow> InnerEnvelope option" where
  "InnerEnvelope_store f j e =
     (if f = ''message_id'' then map_option (\<lambda>s. e\<lparr>ie_MessageID := s\<rparr>) (store_str j (ie_MessageID e))
      else if f = ''sender'' then map_option (\<lambda>s. e\<lparr>ie_Sender := s\<rparr>) (store_str j (ie_Sender e))
      else if f = ''recipient'' then map_option (\<lambda>s. e\<lparr>ie_Recipient := s\<rparr>) (store_str j (ie_Recipient e))
      else if f = ''message_type'' then
        map_option (\<lambda>s. e\<lparr>ie_MessageType := s\<rparr>) (store_str j (ie_MessageType e))
      else if f = ''timestamp'' then
        map_option (\<lambda>t. e\<lparr>ie_Timestamp := t\<rparr>) (Time_UnmarshalJSON (json_text j))
      else if f = ''raw_payload'' then Some (e\<lparr>ie_RawPayload := json_any j\<rparr>)
      else if f = ''directive'' then map_option (\<lambda>s. e\<lparr>ie_Directive := s\<rparr>) (store_str j (ie_Directive e))
      else if f = ''in_response_to'' then
        map_option (\<lambda>s. e\<lparr>ie_InResponseTo := s\<rparr>) (store_str j (ie_InResponseTo e))
      else if f = ''code'' then map_option (\<lambda>i. e\<lparr>ie_Code := i\<rparr>) (store_int j (ie_Code e))
      else if f = ''serial'' then map_option (\<lambda>i. e\<lparr>ie_Serial := i\<rparr>) (store_int j (ie_Serial e))
      else Some e)"

record PayloadMessage =
  pm_RoutingInfo :: "RoutingMessage option"
  pm_Data :: InnerEnvelope

definition new_PayloadMessage :: PayloadMessage where
  "new_PayloadMessage = \<lparr>pm_RoutingInfo = None, pm_Data = new_InnerEnvelope\<rparr>"

definition PayloadMessage_unmarshal :: "bytes \<Rightarrow> PayloadMessage \<Rightarrow> protocol_error + PayloadMessage" where
  "PayloadMessage_unmarshal buf pm =
     (case json_Unmarshal (store_struct InnerEnvelope_fields InnerEnvelope_store) buf (pm_Data pm) of
        Inl e \<Rightarrow> Inl e
      | Inr d \<Rightarrow> Inr (pm\<lparr>pm_Data := d\<rparr>))"

definition PayloadMessage_marshal :: "PayloadMessage \<Rightarrow> protocol_error + bytes" where
  "PayloadMessage_marshal pm =
     (let e = pm_Data pm in
      jsonMarshal (enc_struct
       [(''message_id'', enc_str (ie_MessageID e)), (''sender'', enc_str (ie_Sender e)),
        (''recipient'', enc_str (ie_Recipient e)), (''message_type'', enc_str (ie_MessageType e)),
        (''timestamp'', Some (JStr (time_Format (ie_Timestamp e)))),
        (''raw_payload'', any_json False (ie_RawPayload e)),
        (''directive'', enc_str (ie_Directive e)), (''in_response_to'', enc_str (ie_InResponseTo e)),
        (''code'', enc_int (ie_Code e)), (''serial'', enc_int (ie_Serial e))]))"

subsection \<open>The interface Message\<close>

datatype NetworkMessageType = HiMessageType | RouteTableMessageType | RoutingMessageType | PayloadMessageType

datatype Message =
    MHi HiMessage
  | MRouteTable RouteTableMessage
  | MRouting RoutingMessage
  | MPayload PayloadMessage

fun Message_Type :: "Message \<Rightarrow> NetworkMessageType" where
  "Message_Type (MHi m) = HiMessageType"
| "Message_Type (MRouteTable m) = RouteTableMessageType"
| "Message_Type (MRouting m) = RoutingMessageType"
| "Message_Type (MPayload m) = PayloadMessageType"

fun Message_marshal :: "Message \<Rightarrow> protocol_error + bytes" where
  "Message_marshal (MHi m) = HiMessage_marshal m"
| "Message_marshal (MRouteTable m) = RouteTableMessage_marshal m"
| "Message_marshal (MRouting m) = RoutingMessage_marshal (Some m)"
| "Message_marshal (MPayload m) = PayloadMessage_marshal m"

fun Message_unmarshal :: "bytes \<Rightarrow> Message \<Rightarrow> protocol_error + Message" where
  "Message_unmarshal b (MHi m) = map_sum id MHi (HiMessage_unmarshal b m)"
| "Message_unmarshal b (MRouteTable m) = map_sum id MRouteTable (RouteTableMessage_unmarshal b m)"
| "Message_unmarshal b (MRouting m) = map_sum id MRouting (RoutingMessage_unmarshal b m)"
| "Message_unmarshal b (MPayload m) = map_sum id MPayload (PayloadMessage_unmarshal b m)"

definition buildCommandMessage :: "bytes \<Rightarrow> protocol_error + Message" where
  "buildCommandMessage buff =
     (if contains_str buff ''HI'' then Inr (MHi new_HiMessage)
      else if contains_str buff ''ROUTE'' then Inr (MRouteTable new_RouteTableMessage)
      else Inl (ErrUnrecognizedMessage buff))"

definition parseFrameData :: "bytes \<Rightarrow> frameType \<Rightarrow> 32 word \<Rightarrow> (protocol_error + Message) \<times> bytes" where
  "parseFrameData r t dataLength =
     (case readFrameData r dataLength of
        (Inl e, r') \<Rightarrow> (Inl e, r')
      | (Inr buf, r') \<Rightarrow>
          (case (if t = HeaderFrameType then Inr (MRouting new_RoutingMessage)
                 else if t = PayloadFrameType then Inr (MPayload new_PayloadMessage)
                 else if t = CommandFrameType then buildCommandMessage buf
                 else Inl ErrInvalidFrameType) of
             Inl e \<Rightarrow> (Inl e, r')
           | Inr m \<Rightarrow> (Message_unmarshal buf m, r')))"

subsection \<open>Reading and writing messages\<close>

text \<open>After a header frame the code reads the payload frame without having looked at the error
  of the header's data, and asserts the type of a message that may be nil.\<close>

definition ReadMessage :: "bytes \<Rightarrow> (protocol_error, Message) outcome \<times> bytes" where
  "ReadMessage r =
     (case readFrame r of
        (Inl e, r1) \<Rightarrow> (Err e, r1)
      | (Inr f, r1) \<Rightarrow>
          (case parseFrameData r1 (fh_Type f) (fh_Length f) of (message, r2) \<Rightarrow>
             if fh_Type f \<noteq> HeaderFrameType then
               ((case message of Inl e \<Rightarrow> Err e | Inr m \<Rightarrow> Ok m), r2)
             else
               (case readFrame r2 of
                  (Inl e, r3) \<Rightarrow> (Err e, r3)
                | (Inr payloadFrame, r3) \<Rightarrow>
                    if fh_Type payloadFrame \<noteq> PayloadFrameType then (Err ErrInvalidMessage, r3)
                    else
                      (case parseFrameData r3 (fh_Type payloadFrame) (fh_Length payloadFrame) of
                         (Inl e, r4) \<Rightarrow> (Err e, r4)
                       | (Inr (MPayload pm), r4) \<Rightarrow>
                           (case message of
                              Inr (MRouting rm) \<Rightarrow> (Ok (MPayload (pm\<lparr>pm_RoutingInfo := Some rm\<rparr>)), r4)
                            | _ \<Rightarrow> (Panic, r4))
                       | (Inr _, r4) \<Rightarrow> (Panic, r4)))))"

definition writePayloadMessage ::
  "'w writer \<Rightarrow> 'w \<Rightarrow> PayloadMessage \<Rightarrow> protocol_error option \<times> 'w" where
  "writePayloadMessage wr w payloadMessage =
     (case RoutingMessage_marshal (pm_RoutingInfo payloadMessage) of
        Inl e \<Rightarrow> (Some e, w)
      | Inr routingMessageBuffer \<Rightarrow>
          (case writeFrame wr w HeaderFrameType routingMessageBuffer of
             (Some e, w1) \<Rightarrow> (Some e, w1)
           | (None, w1) \<Rightarrow>
               (case PayloadMessage_marshal payloadMessage of
                  Inl e \<Rightarrow> (Some e, w1)
                | Inr payloadDataBuffer \<Rightarrow>
                    (case writeFrame wr w1 PayloadFrameType payloadDataBuffer of
                       (Some e, w2) \<Rightarrow> (Some e, w2)
                     | (None, w2) \<Rightarrow> (None, w2)))))"

definition WriteMessage :: "'w writer \<Rightarrow> 'w \<Rightarrow> Message \<Rightarrow> protocol_error option \<times> 'w" where
  "WriteMessage wr w message =
     (case message of
        MPayload pm \<Rightarrow> writePayloadMessage wr w pm
      | _ \<Rightarrow>
          (case Message_marshal message of
             Inl e \<Rightarrow> (Some e, w)
           | Inr messageBuffer \<Rightarrow>
               (case writeFrame wr w CommandFrameType messageBuffer of
                  (Some e, w1) \<Rightarrow> (Some e, w1)
                | (None, w1) \<Rightarrow> (None, w1))))"

text \<open>\<open>messageId\<close> is the printed identifier, \<open>now\<close> the time of the call.\<close>

definition BuildPayloadMessage ::
  "gotime \<Rightarrow> string \<Rightarrow> string \<Rightarrow> string \<Rightarrow> string list option \<Rightarrow> string \<Rightarrow> string \<Rightarrow> goany \<Rightarrow> Message" where
  "BuildPayloadMessage now messageId sender recipient route messageType directive payload =
     MPayload
       \<lparr>pm_RoutingInfo = Some \<lparr>rm_Sender = sender, rm_Recipient = recipient, rm_RouteList = route\<rparr>,
        pm_Data = new_InnerEnvelope
          \<lparr>ie_MessageID := messageId, ie_Sender := sender, ie_Recipient := recipient,
           ie_MessageType := messageType, ie_Directive := directive, ie_RawPayload := payload,
           ie_Timestamp := now\<rparr>\<rparr>"

subsection \<open>Messages that survive the wire\<close>

text \<open>Values held in an \<open>interface{}\<close> are canonical, times are valid and Go's \<open>int\<close> has 64 bits.\<close>

definition wf_edges :: "goany list option list option \<Rightarrow> bool" where
  "wf_edges es \<longleftrightarrow> (case es of None \<Rightarrow> True
     | Some l \<Rightarrow> list_all (\<lambda>e. case e of None \<Rightarrow> True | Some as \<Rightarrow> list_all wf_any as) l)"

definition wf_HiMessage :: "HiMessage \<Rightarrow> bool" where
  "wf_HiMessage m \<longleftrightarrow> wf_any (hi_ExpireTimestamp m) \<and> wf_any (hi_Metadata m)"

definition wf_RouteTableMessage :: "RouteTableMessage \<Rightarrow> bool" where
  "wf_RouteTableMessage m \<longleftrightarrow>
     wf_any (rt_Capabilities m) \<and> wf_any (rt_Groups m) \<and> wf_edges (rt_Edges m)"

definition wf_InnerEnvelope :: "InnerEnvelope \<Rightarrow> bool" where
  "wf_InnerEnvelope e \<longleftrightarrow>
     valid_time (ie_Timestamp e) \<and> wf_any (ie_RawPayload e) \<and> in_int64 (ie_Code e) \<and> in_int64 (ie_Serial e)"

text \<open>\<open>buildCommandMessage\<close> tells the command messages apart by searching their text.\<close>

fun readable :: "Message \<Rightarrow> bool" where
  "readable (MHi m) = (wf_HiMessage m \<and> hi_Command m = ''HI'')"
| "readable (MRouteTable m) =
     (wf_RouteTableMessage m \<and> rt_Command m = ''ROUTE'' \<and>
      (case RouteTableMessage_marshal m of Inl e \<Rightarrow> True | Inr b \<Rightarrow> \<not> contains_str b ''HI''))"
| "readable (MRouting m) = False"
| "readable (MPayload m) = (wf_InnerEnvelope (pm_Data m) \<and> pm_RoutingInfo m \<noteq> None)"

text \<open>The length field of a frame has 32 bits.\<close>

definition buffer_fits :: "protocol_error + bytes \<Rightarrow> bool" where
  "buffer_fits b = (case b of Inl e \<Rightarrow> True | Inr bs \<Rightarrow> length bs < 2 ^ 32)"

fun fits :: "Message \<Rightarrow> bool" where
  "fits (MPayload m) =
     (buffer_fits (RoutingMessage_marshal (pm_RoutingInfo m)) \<and> buffer_fits (PayloadMessage_marshal m))"
| "fits m = buffer_fits (Message_marshal m)"

text \<open>The bytes of a message on the wire.\<close>

definition wire :: "frameType \<Rightarrow> protocol_error + bytes \<Rightarrow> bytes" where
  "wire ft b = (case b of Inl e \<Rightarrow> [] | Inr bs \<Rightarrow> frame_bytes ft bs)"

fun message_bytes :: "Message \<Rightarrow> bytes" where
  "message_bytes (MPayload m) =
     wire HeaderFrameType (RoutingMessage_marshal (pm_RoutingInfo m)) @
     wire PayloadFrameType (PayloadMessage_marshal m)"
| "message_bytes m = wire CommandFrameType (Message_marshal m)"

subsection \<open>Encoded structs decode to themselves\<close>

lemma unquote_plain: "BS \<notin> set s \<Longrightarrow> unquote s = s"
  by (induction s rule: length_induct) (case_tac xs, auto simp: unquote.simps)

lemma raw_ok_plain: "DQ \<notin> set s \<Longrightarrow> BS \<notin> set s \<Longrightarrow> \<forall>c \<in> set s. 32 \<le> (of_char c :: nat) \<Longrightarrow> raw_ok s"
  by (induction s) (auto simp: raw_nil raw_plain)

text \<open>A field name has only printable characters without quotes.\<close>

definition plain_name :: "string \<Rightarrow> bool" where
  "plain_name s \<longleftrightarrow> DQ \<notin> set s \<and> BS \<notin> set s \<and> (\<forall>c \<in> set s. 32 \<le> (of_char c :: nat))"

lemma plain_nameD: "plain_name s \<Longrightarrow> unquote s = s" "plain_name s \<Longrightarrow> raw_ok s"
  by (auto simp: plain_name_def unquote_plain raw_ok_plain)

lemma plain_fields [simp]:
  "list_all plain_name HiMessage_fields" "list_all plain_name RoutingMessage_fields"
  "list_all plain_name RouteTableMessage_fields" "list_all plain_name InnerEnvelope_fields"
  by (simp_all add: plain_name_def HiMessage_fields_def RoutingMessage_fields_def
      RouteTableMessage_fields_def InnerEnvelope_fields_def DQ_def BS_def)

text \<open>One encoded field and the value that storing it must give back.\<close>

lemma store_quoted [simp]: "store_str (JStr (quote_str h s)) old = Some s"
  by (simp add: store_str_def codec)

lemma store_int_text: "in_int64 i \<Longrightarrow> store_int (JNum (int_text i)) old = Some i"
  by (simp add: store_int_def codec)

lemma map_opt_roundtrip:
  assumes "\<forall>x \<in> set l. \<exists>j. e x = Some j \<and> wf_json j \<and> d j = Some x"
  shows "\<exists>js. map_opt e l = Some js \<and> wf_elems js \<and> map_opt d js = Some l"
  using assms by (induction l) fastforce+

lemma store_enc_slice:
  assumes "\<And>xs x. l = Some xs \<Longrightarrow> x \<in> set xs \<Longrightarrow> \<exists>j. e x = Some j \<and> wf_json j \<and> d j = Some x"
  shows "\<exists>j. enc_slice e l = Some j \<and> wf_json j \<and> store_slice d j = Some l"
proof (cases l)
  case None
  then show ?thesis by (simp add: enc_slice_def store_slice_def)
next
  case (Some xs)
  with assms map_opt_roundtrip [of xs e d] show ?thesis
    by (auto simp: enc_slice_def store_slice_def)
qed

lemma store_enc_strs:
  "\<exists>j. enc_slice enc_str l = Some j \<and> wf_json j \<and> store_slice (\<lambda>j. store_str j []) j = Some l"
  by (rule store_enc_slice) (simp add: enc_str_def raw_ok_quote_str)

lemma store_enc_any:
  "wf_any a \<Longrightarrow> \<exists>j. any_json h a = Some j \<and> wf_json j \<and> json_any j = a"
  using any_json_ok by blast

lemma store_enc_edges:
  assumes "wf_edges es"
  shows "\<exists>j. enc_slice (enc_slice (any_json h)) es = Some j \<and> wf_json j \<and>
     store_slice (store_slice (\<lambda>j. Some (json_any j))) j = Some es"
proof (rule store_enc_slice)
  fix l e
  assume e: "es = Some l" "e \<in> set l"
  show "\<exists>j. enc_slice (any_json h) e = Some j \<and> wf_json j \<and> store_slice (\<lambda>j. Some (json_any j)) j = Some e"
  proof (rule store_enc_slice)
    fix as a
    assume a: "e = Some as" "a \<in> set as"
    from assms e a have "wf_any a"
      by (fastforce simp: wf_edges_def list_all_iff)
    then show "\<exists>j. any_json h a = Some j \<and> wf_json j \<and> Some (json_any j) = Some a"
      using store_enc_any by simp
  qed
qed

text \<open>What \<open>json.Unmarshal\<close> makes of the text \<open>jsonMarshal\<close> wrote.\<close>

lemma json_Unmarshal_jsonMarshal:
  "wf_json j \<Longrightarrow> json_Unmarshal st (json_text j @ [CHR 0x0A]) s =
     (case st j s of None \<Rightarrow> Inl ErrJson | Some s' \<Rightarrow> Inr s')"
  by (simp add: json_Unmarshal_def json_parse_text skip_ws_def is_ws_def)

lemma plain_names:
  "plain_name ''cmd''" "plain_name ''id''" "plain_name ''expire_time''" "plain_name ''meta''"
  "plain_name ''sender''" "plain_name ''recipient''" "plain_name ''route_list''"
  "plain_name ''capabilities''" "plain_name ''groups''" "plain_name ''edges''" "plain_name ''seen''"
  "plain_name ''message_id''" "plain_name ''message_type''" "plain_name ''timestamp''"
  "plain_name ''raw_payload''" "plain_name ''directive''" "plain_name ''in_response_to''"
  "plain_name ''code''" "plain_name ''serial''"
  by (simp_all add: plain_name_def DQ_def BS_def)

lemmas struct_simps = store_struct_def field_of_def plain_nameD plain_names enc_struct_def
  enc_str_def html_str_def enc_int_def store_int_text raw_ok_quote_str num_ok_int_text

text \<open>A struct survives when its syntax tree does.\<close>

lemma struct_codec:
  assumes "enc = Some j" "wf_json j" "st j s0 = Some m"
  shows "\<exists>b. jsonMarshal enc = Inr b \<and> json_Unmarshal st b s0 = Inr m"
  using assms by (simp add: jsonMarshal_def json_Unmarshal_jsonMarshal)

lemma marshal_codec:
  assumes "enc = Some j" "wf_json j" "st j s0 = Some m"
  shows "\<exists>b. json_Marshal enc = Some b \<and> json_Unmarshal st b s0 = Inr m"
  using assms json_parse_text [of j "[]"] by (simp add: json_Marshal_def json_Unmarshal_def skip_ws_def)

lemma HiMessage_codec:
  assumes "wf_HiMessage m"
  shows "\<exists>b. HiMessage_marshal m = Inr b \<and> HiMessage_unmarshal b new_HiMessage = Inr m"
proof -
  obtain e where e: "any_json False (hi_ExpireTimestamp m) = Some e" "wf_json e" "json_any e = hi_ExpireTimestamp m"
    using assms store_enc_any unfolding wf_HiMessage_def by blast
  obtain d where d: "any_json False (hi_Metadata m) = Some d" "wf_json d" "json_any d = hi_Metadata m"
    using assms store_enc_any unfolding wf_HiMessage_def by blast
  show ?thesis
    unfolding HiMessage_marshal_def HiMessage_unmarshal_def
    by (rule struct_codec, simp add: struct_simps e d, simp add: struct_simps e d,
        simp add: struct_simps e d HiMessage_store_def HiMessage_fields_def new_HiMessage_def)
qed

lemma RoutingMessage_codec:
  "\<exists>b. RoutingMessage_marshal (Some m) = Inr b \<and> RoutingMessage_unmarshal b new_RoutingMessage = Inr m"
proof -
  obtain j where j: "enc_slice enc_str (rm_RouteList m) = Some j" "wf_json j"
      "store_slice (\<lambda>j. store_str j []) j = Some (rm_RouteList m)"
    using store_enc_strs by blast
  show ?thesis
    unfolding RoutingMessage_marshal_def RoutingMessage_unmarshal_def option.case
    by (rule struct_codec, simp add: struct_simps j, simp add: struct_simps j,
        simp add: struct_simps j RoutingMessage_store_def RoutingMessage_fields_def new_RoutingMessage_def)
qed

lemma RouteTableMessage_codec:
  assumes "wf_RouteTableMessage m"
  shows "\<exists>b. RouteTableMessage_marshal m = Inr b \<and>
     RouteTableMessage_unmarshal b new_RouteTableMessage = Inr m"
proof -
  obtain c where c: "any_json False (rt_Capabilities m) = Some c" "wf_json c" "json_any c = rt_Capabilities m"
    using assms store_enc_any unfolding wf_RouteTableMessage_def by blast
  obtain g where g: "any_json False (rt_Groups m) = Some g" "wf_json g" "json_any g = rt_Groups m"
    using assms store_enc_any unfolding wf_RouteTableMessage_def by blast
  obtain e where e: "enc_slice (enc_slice (any_json False)) (rt_Edges m) = Some e" "wf_json e"
      "store_slice (store_slice (\<lambda>j. Some (json_any j))) e = Some (rt_Edges m)"
    using assms store_enc_edges unfolding wf_RouteTableMessage_def by blast
  obtain j where j: "enc_slice enc_str (rt_Seen m) = Some j" "wf_json j"
      "store_slice (\<lambda>j. store_str j []) j = Some (rt_Seen m)"
    using store_enc_strs by blast
  show ?thesis
    unfolding RouteTableMessage_marshal_def RouteTableMessage_unmarshal_def
    by (rule struct_codec, simp add: struct_simps c g e j, simp add: struct_simps c g e j,
        simp add: struct_simps c g e j RouteTableMessage_store_def RouteTableMessage_fields_def new_RouteTableMessage_def)
qed

lemma Time_json_text: "valid_time t \<Longrightarrow> Time_UnmarshalJSON (DQ # time_Format t @ [DQ]) = Some t"
  using Time_roundtrip by (simp add: Time_MarshalJSON_def)

lemma PayloadMessage_codec:
  assumes "wf_InnerEnvelope (pm_Data m)"
  shows "\<exists>b. PayloadMessage_marshal m = Inr b \<and>
     PayloadMessage_unmarshal b new_PayloadMessage = Inr (m\<lparr>pm_RoutingInfo := None\<rparr>)"
proof -
  let ?d = "pm_Data m"
  have wf: "valid_time (ie_Timestamp ?d)" "in_int64 (ie_Code ?d)" "in_int64 (ie_Serial ?d)"
    using assms unfolding wf_InnerEnvelope_def by auto
  obtain p where p: "any_json False (ie_RawPayload ?d) = Some p" "wf_json p" "json_any p = ie_RawPayload ?d"
    using assms store_enc_any unfolding wf_InnerEnvelope_def by blast
  have "\<exists>b. PayloadMessage_marshal m = Inr b \<and>
     json_Unmarshal (store_struct InnerEnvelope_fields InnerEnvelope_store) b new_InnerEnvelope = Inr ?d"
    unfolding PayloadMessage_marshal_def Let_def
    by (rule struct_codec, simp add: struct_simps p, simp add: struct_simps p wf raw_ok_time_Format,
        simp add: struct_simps p wf Time_json_text InnerEnvelope_store_def InnerEnvelope_fields_def new_InnerEnvelope_def)
  then show ?thesis
    by (auto simp: PayloadMessage_unmarshal_def new_PayloadMessage_def)
qed

subsection \<open>The codec interface\<close>

text \<open>What reading and writing rely on of each message type: a well-formed message is encoded,
  and decoding the text into a new message gives it back.\<close>

locale message_codec =
  fixes marshal :: "'m \<Rightarrow> protocol_error + bytes"
    and unmarshal :: "bytes \<Rightarrow> protocol_error + 'm"
    and wf :: "'m \<Rightarrow> bool"
  assumes codec_law: "wf m \<Longrightarrow> \<exists>b. marshal m = Inr b \<and> unmarshal b = Inr m"
begin

lemma marshal_total: "wf m \<Longrightarrow> \<exists>b. marshal m = Inr b"
  using codec_law by blast

lemma decode: "wf m \<Longrightarrow> marshal m = Inr b \<Longrightarrow> unmarshal b = Inr m"
  using codec_law by fastforce

lemma marshal_inj: "wf m \<Longrightarrow> wf m' \<Longrightarrow> marshal m = marshal m' \<Longrightarrow> m = m'"
  using decode marshal_total by (metis sum.inject(2))

text \<open>A frame with an encoded message as its data.\<close>

lemma framed:
  assumes "wf m" "buffer_fits (marshal m)" "valid_frame_type ft"
  shows "\<exists>f b. readFrame (wire ft (marshal m) @ rest) = (Inr f, b @ rest) \<and> fh_Type f = ft \<and>
     marshal m = Inr b \<and> readFrameData (b @ rest) (fh_Length f) = (Inr b, rest) \<and> unmarshal b = Inr m"
proof -
  obtain b where b: "marshal m = Inr b" "unmarshal b = Inr m" using codec_law [OF assms(1)] by blast
  with assms(2) have "length b < 2 ^ 32" by (simp add: buffer_fits_def)
  with b show ?thesis
    by (simp add: wire_def readFrame_frame_bytes assms(3) readFrameData_data)
qed

end

interpretation hi_codec: message_codec HiMessage_marshal "\<lambda>b. HiMessage_unmarshal b new_HiMessage" wf_HiMessage
  by unfold_locales (rule HiMessage_codec)

interpretation routing_codec: message_codec "\<lambda>m. RoutingMessage_marshal (Some m)"
    "\<lambda>b. RoutingMessage_unmarshal b new_RoutingMessage" "\<lambda>m. True"
  by unfold_locales (rule RoutingMessage_codec)

interpretation route_table_codec: message_codec RouteTableMessage_marshal
    "\<lambda>b. RouteTableMessage_unmarshal b new_RouteTableMessage" wf_RouteTableMessage
  by unfold_locales (rule RouteTableMessage_codec)

interpretation payload_codec: message_codec PayloadMessage_marshal
    "\<lambda>b. PayloadMessage_unmarshal b new_PayloadMessage"
    "\<lambda>m. wf_InnerEnvelope (pm_Data m) \<and> pm_RoutingInfo m = None"
proof unfold_locales
  fix m :: PayloadMessage
  assume "wf_InnerEnvelope (pm_Data m) \<and> pm_RoutingInfo m = None"
  then show "\<exists>b. PayloadMessage_marshal m = Inr b \<and> PayloadMessage_unmarshal b new_PayloadMessage = Inr m"
    using PayloadMessage_codec [of m] by (cases m) auto
qed

subsection \<open>What is written is read back\<close>

lemma valid_frame_types [simp]:
  "valid_frame_type HeaderFrameType" "valid_frame_type PayloadFrameType" "valid_frame_type CommandFrameType"
  by (simp_all add: valid_frame_type_def)

lemma frame_types_neq [simp]:
  "HeaderFrameType \<noteq> PayloadFrameType" "PayloadFrameType \<noteq> HeaderFrameType"
  "HeaderFrameType \<noteq> CommandFrameType" "CommandFrameType \<noteq> HeaderFrameType"
  "CommandFrameType \<noteq> PayloadFrameType" "PayloadFrameType \<noteq> CommandFrameType"
  by (simp_all add: frame_type_defs)

lemma quote_str_HI: "quote_str False ''HI'' = ''HI''" "quote_str False ''ROUTE'' = ''ROUTE''"
  by (simp_all add: quote_str_def quote_char_def DQ_def BS_def)

lemma command_text:
  assumes "jsonMarshal (enc_struct ((''cmd'', enc_str c) # fs)) = Inr b" "quote_str False c = c"
  shows "contains_str b c"
proof -
  from assms obtain ms where "b = json_text (JObj ((''cmd'', JStr c) # ms)) @ [CHR 0x0A]"
    by (auto simp: jsonMarshal_def enc_struct_def enc_str_def split: option.splits)
  then have "b = (CHR ''{'' # DQ # ''cmd'' @ [DQ, CHR '':'', DQ]) @ c @
      (DQ # (if ms = [] then [] else CHR '','' # members_text ms) @ ''}'' @ [CHR 0x0A])"
    by simp
  then show ?thesis using contains_strI by metis
qed

lemma ReadMessage_Hi:
  assumes "readable (MHi m)" "fits (MHi m)"
  shows "ReadMessage (message_bytes (MHi m) @ rest) = (Ok (MHi m), rest)"
proof -
  from assms obtain f b where fb: "readFrame (message_bytes (MHi m) @ rest) = (Inr f, b @ rest)"
      "fh_Type f = CommandFrameType" "HiMessage_marshal m = Inr b"
      "readFrameData (b @ rest) (fh_Length f) = (Inr b, rest)" "HiMessage_unmarshal b new_HiMessage = Inr m"
    using hi_codec.framed [of m CommandFrameType rest] by auto
  have "contains_str b ''HI''"
    using fb(3) assms(1) command_text quote_str_HI(1) unfolding HiMessage_marshal_def by fastforce
  with fb show ?thesis
    by (simp add: ReadMessage_def parseFrameData_def buildCommandMessage_def)
qed

lemma ReadMessage_RouteTable:
  assumes "readable (MRouteTable m)" "fits (MRouteTable m)"
  shows "ReadMessage (message_bytes (MRouteTable m) @ rest) = (Ok (MRouteTable m), rest)"
proof -
  from assms obtain f b where fb: "readFrame (message_bytes (MRouteTable m) @ rest) = (Inr f, b @ rest)"
      "fh_Type f = CommandFrameType" "RouteTableMessage_marshal m = Inr b"
      "readFrameData (b @ rest) (fh_Length f) = (Inr b, rest)"
      "RouteTableMessage_unmarshal b new_RouteTableMessage = Inr m"
    using route_table_codec.framed [of m CommandFrameType rest] by auto
  have "contains_str b ''ROUTE''"
    using fb(3) assms(1) command_text quote_str_HI(2) unfolding RouteTableMessage_marshal_def by fastforce
  with fb assms(1) show ?thesis
    by (simp add: ReadMessage_def parseFrameData_def buildCommandMessage_def)
qed

lemma ReadMessage_Payload:
  assumes "readable (MPayload m)" "fits (MPayload m)"
  shows "ReadMessage (message_bytes (MPayload m) @ rest) = (Ok (MPayload m), rest)"
proof -
  from assms obtain rm where rm: "pm_RoutingInfo m = Some rm" by auto
  let ?m0 = "m\<lparr>pm_RoutingInfo := None\<rparr>"
  let ?p = "wire PayloadFrameType (PayloadMessage_marshal m)"
  have eq: "PayloadMessage_marshal ?m0 = PayloadMessage_marshal m" by (simp add: PayloadMessage_marshal_def)
  from assms obtain f b where f: "readFrame (message_bytes (MPayload m) @ rest) = (Inr f, b @ ?p @ rest)"
      "fh_Type f = HeaderFrameType" "readFrameData (b @ ?p @ rest) (fh_Length f) = (Inr b, ?p @ rest)"
      "RoutingMessage_unmarshal b new_RoutingMessage = Inr rm"
    using routing_codec.framed [of rm HeaderFrameType "?p @ rest"] by (auto simp: rm)
  from assms obtain g c where g: "readFrame (?p @ rest) = (Inr g, c @ rest)"
      "fh_Type g = PayloadFrameType" "readFrameData (c @ rest) (fh_Length g) = (Inr c, rest)"
      "PayloadMessage_unmarshal c new_PayloadMessage = Inr ?m0"
    using payload_codec.framed [of ?m0 PayloadFrameType rest] by (auto simp: eq)
  from rm have "m\<lparr>pm_RoutingInfo := Some rm\<rparr> = m" by (cases m) simp
  with f g show ?thesis
    by (simp add: ReadMessage_def parseFrameData_def)
qed

lemma ReadMessage_message_bytes:
  "readable m \<Longrightarrow> fits m \<Longrightarrow> ReadMessage (message_bytes m @ rest) = (Ok m, rest)"
  using ReadMessage_Hi ReadMessage_RouteTable ReadMessage_Payload by (cases m) auto

text \<open>What a writer holds after \<open>WriteMessage\<close>.\<close>

context io_writer
begin

lemma WriteMessage_out:
  assumes "WriteMessage wr w m = (None, w')"
  shows "out w' = out w @ message_bytes m"
  using assms
  by (cases m)
    (auto simp: WriteMessage_def writePayloadMessage_def wire_def dest!: writeFrame_out
      split: sum.splits prod.splits option.splits)

lemma writeFrame_take: "\<exists>k. out (snd (writeFrame wr w ft d)) = out w @ take k (frame_bytes ft d @ x)"
proof -
  obtain k where "out (snd (writeFrame wr w ft d)) = out w @ take k (frame_bytes ft d)"
    using writeFrame_prefix by blast
  then have "out (snd (writeFrame wr w ft d)) = out w @ take (min k (length (frame_bytes ft d))) (frame_bytes ft d @ x)"
    by (simp add: min_def)
  then show ?thesis by blast
qed

lemma writeFrame_result: "(case writeFrame wr w ft d of (Some e, w1) \<Rightarrow> (Some e, w1) | (None, w1) \<Rightarrow> (None, w1)) = writeFrame wr w ft d"
  by (auto split: prod.splits option.splits)

lemma writePayloadMessage_prefix:
  "\<exists>k. out (snd (writePayloadMessage wr w m)) = out w @ take k (message_bytes (MPayload m))"
proof (cases "RoutingMessage_marshal (pm_RoutingInfo m)")
  case (Inl e)
  then have "out (snd (writePayloadMessage wr w m)) = out w @ take 0 (message_bytes (MPayload m))"
    by (simp add: writePayloadMessage_def)
  then show ?thesis by blast
next
  case (Inr h)
  let ?h = "frame_bytes HeaderFrameType h"
  have bytes: "message_bytes (MPayload m) = ?h @ wire PayloadFrameType (PayloadMessage_marshal m)"
    by (simp add: Inr wire_def)
  obtain e1 w1 where w1: "writeFrame wr w HeaderFrameType h = (e1, w1)" by fastforce
  show ?thesis
  proof (cases e1)
    case (Some e)
    with Inr w1 show ?thesis
      using writeFrame_take [of w HeaderFrameType h] unfolding bytes by (simp add: writePayloadMessage_def)
  next
    case None
    with w1 have out1: "out w1 = out w @ ?h" using writeFrame_out by blast
    show ?thesis
    proof (cases "PayloadMessage_marshal m")
      case (Inl e)
      with Inr w1 None out1
      have "out (snd (writePayloadMessage wr w m)) = out w @ take (length ?h) (message_bytes (MPayload m))"
        unfolding bytes by (simp add: writePayloadMessage_def)
      then show ?thesis by blast
    next
      case p: (Inr d)
      obtain k where k: "out (snd (writeFrame wr w1 PayloadFrameType d)) = out w1 @ take k (frame_bytes PayloadFrameType d)"
        using writeFrame_prefix by blast
      with Inr w1 None out1 p
      have "out (snd (writePayloadMessage wr w m)) = out w @ take (length ?h + k) (message_bytes (MPayload m))"
        unfolding bytes by (simp add: writePayloadMessage_def writeFrame_result wire_def)
      then show ?thesis by blast
    qed
  qed
qed

lemma WriteMessage_prefix: "\<exists>k. out (snd (WriteMessage wr w m)) = out w @ take k (message_bytes m)"
proof (cases "\<exists>p. m = MPayload p")
  case True
  then show ?thesis using writePayloadMessage_prefix by (auto simp: WriteMessage_def)
next
  case False
  have eq: "WriteMessage wr w m = (case Message_marshal m of Inl e \<Rightarrow> (Some e, w)
      | Inr b \<Rightarrow> writeFrame wr w CommandFrameType b)"
    using False by (cases m) (simp_all add: WriteMessage_def writeFrame_result split: sum.split)
  have bytes: "message_bytes m = wire CommandFrameType (Message_marshal m)"
    using False by (cases m) simp_all
  show ?thesis
    using writeFrame_prefix by (cases "Message_marshal m") (auto simp: eq bytes wire_def)
qed

end


lemma buffer_writeFrame: "writeFrame buffer_write w ft d = (None, w @ frame_bytes ft d)"
  by (simp add: writeFrame_eq buffer_write_def frame_bytes_def)


lemma nat_text_small: "n < 10 \<Longrightarrow> nat_text n = [char_of (48 + n)]"
  by (simp add: nat_text.simps)

lemmas encode_eval = RoutingMessage_marshal_def PayloadMessage_marshal_def HiMessage_marshal_def
  RouteTableMessage_marshal_def jsonMarshal_def enc_struct_def enc_str_def enc_int_def enc_slice_def
  quote_str_def quote_char_def DQ_def BS_def time_Format_def format_frac_def pad_def trim_zeros_def
  nat_text_small int_text_def zero_time_def new_InnerEnvelope_def Let_def

definition sample_payload :: Message where
  "sample_payload = BuildPayloadMessage zero_time ''m-1'' ''node-a'' ''node-b'' (Some [''node-b''])
     ''directive'' ''demo:do'' (AStr ''run'')"

lemma sample_payload_ok: "readable sample_payload" "fits sample_payload"
  "\<exists>w'. WriteMessage buffer_write [] sample_payload = (None, w')"
proof -
  show "readable sample_payload"
    by (simp add: sample_payload_def BuildPayloadMessage_def wf_InnerEnvelope_def new_InnerEnvelope_def
       valid_time_def zero_time_def daysIn_def in_int64_def)
  show "fits sample_payload"
    by (simp add: sample_payload_def BuildPayloadMessage_def buffer_fits_def encode_eval)
  show "\<exists>w'. WriteMessage buffer_write [] sample_payload = (None, w')"
    by (simp add: sample_payload_def BuildPayloadMessage_def WriteMessage_def writePayloadMessage_def
        buffer_writeFrame encode_eval)
qed


text \<open>Property C26. A write that fails part way has sent a prefix of the message and nothing else,
  whatever the writer and wherever it failed.\<close>

theorem write_failure_prefix:
  assumes "io_writer wr out"
  shows "\<exists>k. out (snd (WriteMessage wr w m)) = out w @ take k (message_bytes m)"
  by (rule io_writer.WriteMessage_prefix [OF assms])

theorem write_failure_prefix_witness:
  "io_writer buffer_write (\<lambda>w. w) \<and>
   (\<exists>k. snd (WriteMessage buffer_write ''x'' sample_payload) = ''x'' @ take k (message_bytes sample_payload))"
  using write_failure_prefix [OF buf.io_writer_axioms] buf.io_writer_axioms by blast

lemma parseFrameData_header:
  "parseFrameData r HeaderFrameType n = (Inr m, r') \<Longrightarrow> \<exists>rm. m = MRouting rm"
  by (auto simp: parseFrameData_def map_sum_def split: sum.splits prod.splits)

lemma parseFrameData_payload:
  "parseFrameData r PayloadFrameType n = (Inr m, r') \<Longrightarrow> \<exists>pm. m = MPayload pm"
  by (auto simp: parseFrameData_def map_sum_def split: sum.splits prod.splits)

text \<open>Property C35. \<open>ReadMessage\<close> panics exactly when the data of a header frame cannot be decoded
  and a payload frame that can be decoded follows it.\<close>

theorem ReadMessage_panics:
  "fst (ReadMessage r) = Panic \<longleftrightarrow>
     (\<exists>f r1 e r2 g r3 pm r4.
        readFrame r = (Inr f, r1) \<and> fh_Type f = HeaderFrameType \<and>
        parseFrameData r1 HeaderFrameType (fh_Length f) = (Inl e, r2) \<and>
        readFrame r2 = (Inr g, r3) \<and> fh_Type g = PayloadFrameType \<and>
        parseFrameData r3 PayloadFrameType (fh_Length g) = (Inr pm, r4))"
  by (auto simp: ReadMessage_def dest!: parseFrameData_header parseFrameData_payload split: prod.splits sum.splits Message.splits if_splits)

text \<open>A payload frame without a header frame before it is accepted, and the message has no routing
  information.\<close>

lemma ReadMessage_lone_payload:
  assumes "PayloadMessage_unmarshal p new_PayloadMessage = Inr pm" "length p < 2 ^ 32"
  shows "ReadMessage (frame_bytes PayloadFrameType p @ rest) = (Ok (MPayload pm), rest) \<and>
     pm_RoutingInfo pm = None"
  using assms
  by (auto simp: ReadMessage_def readFrame_frame_bytes parseFrameData_def readFrameData_data
      PayloadMessage_unmarshal_def new_PayloadMessage_def split: sum.splits)

lemma empty_payload: "PayloadMessage_unmarshal ''{}'' new_PayloadMessage = Inr new_PayloadMessage"
  using json_parse_text [of "JObj []" "[]"]
  by (simp add: PayloadMessage_unmarshal_def json_Unmarshal_def store_struct_def new_PayloadMessage_def skip_ws_def)

lemma route_table_as_hi:
  assumes "wf_RouteTableMessage m" "RouteTableMessage_marshal m = Inr b"
  shows "\<exists>j. wf_json j \<and> b = json_text j @ [CHR 0x0A] \<and>
     store_struct HiMessage_fields HiMessage_store j new_HiMessage =
       Some (new_HiMessage\<lparr>hi_Command := rt_Command m, hi_ID := rt_ID m\<rparr>)"
proof -
  obtain c where c: "any_json False (rt_Capabilities m) = Some c" "wf_json c"
    using assms store_enc_any unfolding wf_RouteTableMessage_def by blast
  obtain g where g: "any_json False (rt_Groups m) = Some g" "wf_json g"
    using assms store_enc_any unfolding wf_RouteTableMessage_def by blast
  obtain e where e: "enc_slice (enc_slice (any_json False)) (rt_Edges m) = Some e" "wf_json e"
    using assms store_enc_edges unfolding wf_RouteTableMessage_def by blast
  obtain s where s: "enc_slice enc_str (rt_Seen m) = Some s" "wf_json s"
    using store_enc_strs by blast
  let ?j = "JObj [(''cmd'', JStr (quote_str False (rt_Command m))),
    (''id'', JStr (quote_str False (rt_ID m))), (''capabilities'', c), (''groups'', g), (''edges'', e),
    (''seen'', s)]"
  have "wf_json ?j" using c g e s by (simp add: struct_simps)
  moreover have "b = json_text ?j @ [CHR 0x0A]"
    using assms(2) c g e s by (simp add: RouteTableMessage_marshal_def jsonMarshal_def struct_simps)
  moreover have "store_struct HiMessage_fields HiMessage_store ?j new_HiMessage =
       Some (new_HiMessage\<lparr>hi_Command := rt_Command m, hi_ID := rt_ID m\<rparr>)"
    by (simp add: struct_simps HiMessage_fields_def HiMessage_store_def new_HiMessage_def
        to_lower_def to_lower_char_def Let_def)
  ultimately show ?thesis by blast
qed

text \<open>Property C40. A route table whose text contains the letters HI anywhere, for example in the
  name of a node, is read as a handshake of the node that sent it.\<close>

theorem route_table_read_as_hi:
  assumes "wf_RouteTableMessage m" "RouteTableMessage_marshal m = Inr b" "contains_str b ''HI''"
    "length b < 2 ^ 32"
  shows "ReadMessage (message_bytes (MRouteTable m) @ rest) =
     (Ok (MHi (new_HiMessage\<lparr>hi_Command := rt_Command m, hi_ID := rt_ID m\<rparr>)), rest)"
proof -
  let ?hi = "new_HiMessage\<lparr>hi_Command := rt_Command m, hi_ID := rt_ID m\<rparr>"
  obtain j where j: "wf_json j" "b = json_text j @ [CHR 0x0A]"
      "store_struct HiMessage_fields HiMessage_store j new_HiMessage = Some ?hi"
    using route_table_as_hi [OF assms(1,2)] by blast
  then have "HiMessage_unmarshal b new_HiMessage = Inr ?hi"
    by (simp add: HiMessage_unmarshal_def json_Unmarshal_jsonMarshal)
  with assms show ?thesis
    by (simp add: wire_def ReadMessage_def readFrame_frame_bytes parseFrameData_def readFrameData_data
        buildCommandMessage_def)
qed


definition sample_routes :: RouteTableMessage where
  "sample_routes = new_RouteTableMessage\<lparr>rt_Command := ''ROUTE'', rt_ID := ''CHI''\<rparr>"

theorem route_table_read_as_hi_witness:
  "\<exists>b. RouteTableMessage_marshal sample_routes = Inr b \<and> contains_str b ''HI'' \<and>
     ReadMessage (message_bytes (MRouteTable sample_routes) @ []) =
       (Ok (MHi (new_HiMessage\<lparr>hi_Command := ''ROUTE'', hi_ID := ''CHI''\<rparr>)), [])"
proof -
  have wf: "wf_RouteTableMessage sample_routes"
    by (simp add: wf_RouteTableMessage_def sample_routes_def new_RouteTableMessage_def wf_edges_def)
  obtain b where b: "RouteTableMessage_marshal sample_routes = Inr b" "contains_str b ''HI''" "length b < 2 ^ 32"
    by (simp add: encode_eval sample_routes_def new_RouteTableMessage_def)
  show ?thesis
    using route_table_read_as_hi [OF wf b, of "[]"] b by (auto simp: sample_routes_def)
qed

end
