(* ===== verification/Transport.thy ===== *)
theory Transport
  imports Messages
begin

text \<open>
  Channels, contexts and the transport (\<open>internal/controller/transport.go\<close>), through which the
  goroutines of one websocket connection and the callers of the connection exchange messages.

  A buffered channel is the queue of the messages in it and its capacity. A \<open>select\<close> statement is
  the list of the results it may have in a state, one for each communication that is ready there;
  the empty list means that the goroutine waits. A context is live or done, and then has the error
  \<open>Err\<close> returns.
\<close>

subsection \<open>Channels and contexts\<close>

record 'm chan =
  ch_cap :: nat
  ch_buf :: "'m list"

definition make_chan :: "nat \<Rightarrow> 'm chan" where
  "make_chan n = \<lparr>ch_cap = n, ch_buf = []\<rparr>"

definition can_send :: "'m chan \<Rightarrow> bool" where
  "can_send c \<longleftrightarrow> length (ch_buf c) < ch_cap c"

definition push :: "'m \<Rightarrow> 'm chan \<Rightarrow> 'm chan" where
  "push m c = c\<lparr>ch_buf := ch_buf c @ [m]\<rparr>"

definition pop :: "'m chan \<Rightarrow> ('m \<times> 'm chan) option" where
  "pop c = (case ch_buf c of [] \<Rightarrow> None | m # ms \<Rightarrow> Some (m, c\<lparr>ch_buf := ms\<rparr>))"

definition chan_ok :: "'m chan \<Rightarrow> bool" where
  "chan_ok c \<longleftrightarrow> length (ch_buf c) \<le> ch_cap c"

lemma chan_ok_simps [simp]:
  "chan_ok (make_chan n)"
  "can_send c \<Longrightarrow> chan_ok (push m c)"
  by (auto simp: chan_ok_def make_chan_def can_send_def push_def)

lemma chan_ok_pop: "chan_ok c \<Longrightarrow> pop c = Some (m, c') \<Longrightarrow> chan_ok c'"
  by (auto simp: chan_ok_def pop_def split: list.splits)

datatype ctx_err = Canceled | DeadlineExceeded

text \<open>\<open>None\<close>: the context is live. A context derived from another is done when the other is.\<close>

type_synonym ctx = "ctx_err option"

text \<open>A cancel function, and a deadline that passes: the first cause is kept.\<close>

definition ctx_done :: "ctx_err \<Rightarrow> ctx \<Rightarrow> ctx" where
  "ctx_done e c = (case c of None \<Rightarrow> Some e | Some e' \<Rightarrow> Some e')"

lemma ctx_done_keeps [simp]:
  "c \<noteq> None \<Longrightarrow> ctx_done e c = c" "ctx_done e c \<noteq> None" "ctx_done e None = Some e"
  by (auto simp: ctx_done_def split: option.splits)

subsection \<open>The transport\<close>

record ReceptorMessage =
  rmsg_AccountNumber :: string
  rmsg_Message :: Message

record ReceptorErrorMessage =
  rerr_AccountNumber :: string
  rerr_Error :: string

text \<open>\<open>ErrorChannel\<close> is made without a buffer: a send on it completes only together with a receive,
  so it holds nothing between steps.\<close>

record Transport =
  tr_Send :: "ReceptorMessage chan"
  tr_Recv :: "Message chan"
  tr_ControlChannel :: "ReceptorMessage chan"
  tr_Ctx :: ctx

definition tr_Cancel :: "Transport \<Rightarrow> Transport" where
  "tr_Cancel t = t\<lparr>tr_Ctx := ctx_done Canceled (tr_Ctx t)\<rparr>"

definition transport_ok :: "Transport \<Rightarrow> bool" where
  "transport_ok t \<longleftrightarrow> chan_ok (tr_Send t) \<and> chan_ok (tr_Recv t) \<and> chan_ok (tr_ControlChannel t)"

end
