(* ===== verification/Receptor_Service.thy ===== *)
theory Receptor_Service
  imports Transport
begin

text \<open>
  The receptor service (\<open>internal/controller/receptor.go\<close>): what the API calls on a connected node.
  \<open>SendMessage\<close> passes a message to the write side of the connection, \<open>Ping\<close> also waits for the
  answer, and \<open>DispatchResponse\<close>, called by the connection's reactor, hands an incoming payload to
  the ping that waits for it or writes it to Kafka.

  Identifiers have the type \<open>'u\<close>. The package \<open>github.com/google/uuid\<close> enters as the functions
  \<open>uuid_String\<close> and \<open>uuid_Parse\<close> and as the result of \<open>NewRandom\<close>, which may fail.

  The interleaving of any number of pings with the reactor and the outside world is in theory \<open>Ping\<close>.
\<close>

subsection \<open>The service\<close>

datatype service_error =
    connectionToReceptorNetworkLost
  | requestCancelledBySender
  | requestTimedOut
  | accountMismatch
  | uuidError

record ResponseMessage =
  rsp_AccountNumber :: string
  rsp_Sender :: string
  rsp_MessageType :: string
  rsp_MessageID :: string
  rsp_Payload :: goany
  rsp_Code :: int
  rsp_InResponseTo :: string
  rsp_Serial :: int

text \<open>A response channel is named by a number.\<close>

type_synonym 'u DispatcherTable = "('u, nat) gomap"

definition dt_Register :: "'u DispatcherTable \<Rightarrow> 'u \<Rightarrow> nat \<Rightarrow> 'u DispatcherTable" where
  "dt_Register dt msgID responseChannel = AList.update msgID responseChannel dt"

definition dt_Unregister :: "'u DispatcherTable \<Rightarrow> 'u \<Rightarrow> 'u DispatcherTable" where
  "dt_Unregister dt msgID = AList.delete msgID dt"

definition GetDispatchChannel :: "'u DispatcherTable \<Rightarrow> 'u \<Rightarrow> nat option" where
  "GetDispatchChannel dt msgID = map_of dt msgID"

record 'u ReceptorService =
  rs_AccountNumber :: string
  rs_NodeID :: string
  rs_PeerNodeID :: string
  rs_Metadata :: goany
  rs_Transport :: "Transport option"
  rs_dispatchTable :: "'u DispatcherTable"

definition NewReceptorService :: "string \<Rightarrow> string \<Rightarrow> 'u ReceptorService" where
  "NewReceptorService account nodeID =
     \<lparr>rs_AccountNumber = account, rs_NodeID = nodeID, rs_PeerNodeID = [], rs_Metadata = ANil,
      rs_Transport = None, rs_dispatchTable = []\<rparr>"

definition RegisterConnection :: "'u ReceptorService \<Rightarrow> string \<Rightarrow> goany \<Rightarrow> Transport \<Rightarrow> 'u ReceptorService" where
  "RegisterConnection r peerNodeID metadata transport =
     r\<lparr>rs_PeerNodeID := peerNodeID, rs_Metadata := metadata, rs_Transport := Some transport\<rparr>"

text \<open>\<open>UpdateRoutingTable\<close> only logs.\<close>

definition UpdateRoutingTable :: "'u ReceptorService \<Rightarrow> string \<Rightarrow> string \<Rightarrow> 'u ReceptorService" where
  "UpdateRoutingTable r edges seen = r"

subsection \<open>Passing a message to the connection\<close>

text \<open>\<open>switch msgSenderCtx.Err()\<close>.\<close>

definition sender_error :: "ctx_err \<Rightarrow> service_error" where
  "sender_error e = (case e of DeadlineExceeded \<Rightarrow> requestTimedOut | Canceled \<Rightarrow> requestCancelledBySender)"

definition sendMessage ::
  "ctx \<Rightarrow> ReceptorMessage chan \<Rightarrow> ctx \<Rightarrow> ReceptorMessage \<Rightarrow> (service_error option \<times> ReceptorMessage chan) list" where
  "sendMessage transportCtx sendChannel msgSenderCtx msgToSend =
     (if can_send sendChannel then [(None, push msgToSend sendChannel)] else []) @
     (if transportCtx \<noteq> None then [(Some connectionToReceptorNetworkLost, sendChannel)] else []) @
     (case msgSenderCtx of None \<Rightarrow> [] | Some e \<Rightarrow> [(Some (sender_error e), sendChannel)])"

text \<open>The two methods that call it. A service without a transport panics.\<close>

definition service_sendControlMessage ::
  "'u ReceptorService \<Rightarrow> ctx \<Rightarrow> Message \<Rightarrow> ((service_error, unit) outcome \<times> 'u ReceptorService) list" where
  "service_sendControlMessage r msgSenderCtx msgToSend =
     (case rs_Transport r of
        None \<Rightarrow> [(Panic, r)]
      | Some t \<Rightarrow>
          map (\<lambda>(err, c). (case err of None \<Rightarrow> Ok () | Some e \<Rightarrow> Err e,
                 r\<lparr>rs_Transport := Some (t\<lparr>tr_ControlChannel := c\<rparr>)\<rparr>))
            (sendMessage (tr_Ctx t) (tr_ControlChannel t) msgSenderCtx
              \<lparr>rmsg_AccountNumber = rs_AccountNumber r, rmsg_Message = msgToSend\<rparr>))"

definition service_sendMessage ::
  "'u ReceptorService \<Rightarrow> ctx \<Rightarrow> Message \<Rightarrow> ((service_error, unit) outcome \<times> 'u ReceptorService) list" where
  "service_sendMessage r msgSenderCtx msgToSend =
     (case rs_Transport r of
        None \<Rightarrow> [(Panic, r)]
      | Some t \<Rightarrow>
          map (\<lambda>(err, c). (case err of None \<Rightarrow> Ok () | Some e \<Rightarrow> Err e,
                 r\<lparr>rs_Transport := Some (t\<lparr>tr_Send := c\<rparr>)\<rparr>))
            (sendMessage (tr_Ctx t) (tr_Send t) msgSenderCtx
              \<lparr>rmsg_AccountNumber = rs_AccountNumber r, rmsg_Message = msgToSend\<rparr>))"

text \<open>\<open>SendMessage\<close>: the possible results. \<open>newID\<close> is what \<open>uuid.NewRandom\<close> returned, \<open>now\<close> the time
  and \<open>msgSenderCtx\<close> the state of the caller's context with the timeout while the message waits.\<close>

definition SendMessage ::
  "('u \<Rightarrow> string) \<Rightarrow> 'u option \<Rightarrow> gotime \<Rightarrow> 'u ReceptorService \<Rightarrow> ctx \<Rightarrow> string \<Rightarrow> string \<Rightarrow>
   string list option \<Rightarrow> goany \<Rightarrow> string \<Rightarrow> ((service_error, 'u) outcome \<times> 'u ReceptorService) list" where
  "SendMessage uuid_String newID now r msgSenderCtx account recipient route payload directive =
     (if account \<noteq> rs_AccountNumber r then [(Err accountMismatch, r)]
      else (case newID of
          None \<Rightarrow> [(Err uuidError, r)]
        | Some messageID \<Rightarrow>
            (let payloadMessage = BuildPayloadMessage now (uuid_String messageID) (rs_NodeID r) recipient route
                   ''directive'' directive payload
             in map (\<lambda>(res, r'). (case res of Ok _ \<Rightarrow> Ok messageID | Err e \<Rightarrow> Err e | Panic \<Rightarrow> Panic, r'))
                  (service_sendMessage r msgSenderCtx payloadMessage))))"

subsection \<open>Ping\<close>

text \<open>The first part of \<open>Ping\<close>, up to the registration of the channel \<open>ch\<close> it made: the identifier and
  the message, and the service with the channel registered.\<close>

definition Ping_start ::
  "('u \<Rightarrow> string) \<Rightarrow> 'u option \<Rightarrow> gotime \<Rightarrow> goany \<Rightarrow> 'u ReceptorService \<Rightarrow> string \<Rightarrow> string \<Rightarrow>
   string list option \<Rightarrow> nat \<Rightarrow> (service_error + 'u \<times> Message) \<times> 'u ReceptorService" where
  "Ping_start uuid_String newID now nowValue r account recipient route ch =
     (if account \<noteq> rs_AccountNumber r then (Inl accountMismatch, r)
      else (case newID of
          None \<Rightarrow> (Inl uuidError, r)
        | Some messageID \<Rightarrow>
            (let payloadMessage = BuildPayloadMessage now (uuid_String messageID) (rs_NodeID r) recipient route
                   ''directive'' ''receptor:ping'' nowValue
             in (Inr (messageID, payloadMessage),
                 r\<lparr>rs_dispatchTable := dt_Register (rs_dispatchTable r) messageID ch\<rparr>))))"

text \<open>The results \<open>waitForResponse\<close> may have; \<open>offered\<close> is the response that the reactor is sending on
  the channel, if it is.\<close>

definition waitForResponse ::
  "'u ReceptorService \<Rightarrow> ctx \<Rightarrow> ResponseMessage option \<Rightarrow> (service_error, ResponseMessage) outcome list" where
  "waitForResponse r msgSenderCtx offered =
     (case rs_Transport r of
        None \<Rightarrow> [Panic]
      | Some t \<Rightarrow>
          (case offered of None \<Rightarrow> [] | Some responseMsg \<Rightarrow> [Ok responseMsg]) @
          (if tr_Ctx t \<noteq> None then [Err connectionToReceptorNetworkLost] else []) @
          (case msgSenderCtx of None \<Rightarrow> [] | Some e \<Rightarrow> [Err (sender_error e)]))"

text \<open>The deferred call.\<close>

definition Ping_finish :: "'u ReceptorService \<Rightarrow> 'u \<Rightarrow> 'u ReceptorService" where
  "Ping_finish r messageID = r\<lparr>rs_dispatchTable := dt_Unregister (rs_dispatchTable r) messageID\<rparr>"

subsection \<open>Responses\<close>

definition ResponseMessage_marshal :: "ResponseMessage \<Rightarrow> bytes option" where
  "ResponseMessage_marshal m =
     json_Marshal (enc_struct
       [(''account'', html_str (rsp_AccountNumber m)),
        (''sender'', html_str (rsp_Sender m)),
        (''message_type'', html_str (rsp_MessageType m)),
        (''message_id'', html_str (rsp_MessageID m)),
        (''payload'', any_json True (rsp_Payload m)),
        (''code'', enc_int (rsp_Code m)),
        (''in_response_to'', html_str (rsp_InResponseTo m)),
        (''serial'', enc_int (rsp_Serial m))])"

text \<open>The same struct decoded, as a reader of the Kafka topic does it.\<close>

definition ResponseMessage_fields :: "string list" where
  "ResponseMessage_fields =
     [''account'', ''sender'', ''message_type'', ''message_id'', ''payload'', ''code'', ''in_response_to'', ''serial'']"

definition ResponseMessage_store :: "string \<Rightarrow> json \<Rightarrow> ResponseMessage \<Rightarrow> ResponseMessage option" where
  "ResponseMessage_store f j m =
     (if f = ''account'' then map_option (\<lambda>s. m\<lparr>rsp_AccountNumber := s\<rparr>) (store_str j (rsp_AccountNumber m))
      else if f = ''sender'' then map_option (\<lambda>s. m\<lparr>rsp_Sender := s\<rparr>) (store_str j (rsp_Sender m))
      else if f = ''message_type'' then map_option (\<lambda>s. m\<lparr>rsp_MessageType := s\<rparr>) (store_str j (rsp_MessageType m))
      else if f = ''message_id'' then map_option (\<lambda>s. m\<lparr>rsp_MessageID := s\<rparr>) (store_str j (rsp_MessageID m))
      else if f = ''payload'' then Some (m\<lparr>rsp_Payload := json_any j\<rparr>)
      else if f = ''code'' then map_option (\<lambda>i. m\<lparr>rsp_Code := i\<rparr>) (store_int j (rsp_Code m))
      else if f = ''in_response_to'' then map_option (\<lambda>s. m\<lparr>rsp_InResponseTo := s\<rparr>) (store_str j (rsp_InResponseTo m))
      else map_option (\<lambda>i. m\<lparr>rsp_Serial := i\<rparr>) (store_int j (rsp_Serial m)))"

definition new_ResponseMessage :: ResponseMessage where
  "new_ResponseMessage = \<lparr>rsp_AccountNumber = [], rsp_Sender = [], rsp_MessageType = [], rsp_MessageID = [],
     rsp_Payload = ANil, rsp_Code = 0, rsp_InResponseTo = [], rsp_Serial = 0\<rparr>"

definition ResponseMessage_unmarshal :: "bytes \<Rightarrow> protocol_error + ResponseMessage" where
  "ResponseMessage_unmarshal b =
     json_Unmarshal (store_struct ResponseMessage_fields ResponseMessage_store) b new_ResponseMessage"

text \<open>What \<open>DispatchResponse\<close> does with a message: the read of the table is its only access to shared
  state. A message without routing information panics. \<open>ToChannel\<close> then waits until the ping takes
  the response; \<open>ToKafka\<close> starts a goroutine that writes a key and a value.\<close>

datatype dispatched =
    DispatchPanic
  | NotForThisNode
  | NotAnIdentifier
  | ToChannel nat ResponseMessage
  | MarshalFailed
  | ToKafka string bytes

definition response_of :: "'u ReceptorService \<Rightarrow> RoutingMessage \<Rightarrow> InnerEnvelope \<Rightarrow> ResponseMessage" where
  "response_of r routing d =
     \<lparr>rsp_AccountNumber = rs_AccountNumber r, rsp_Sender = rm_Sender routing,
      rsp_MessageType = ie_MessageType d, rsp_MessageID = ie_MessageID d, rsp_Payload = ie_RawPayload d,
      rsp_Code = ie_Code d, rsp_InResponseTo = ie_InResponseTo d, rsp_Serial = ie_Serial d\<rparr>"

definition DispatchResponse ::
  "(string \<Rightarrow> 'u option) \<Rightarrow> 'u ReceptorService \<Rightarrow> PayloadMessage \<Rightarrow> dispatched" where
  "DispatchResponse uuid_Parse r payloadMessage =
     (case pm_RoutingInfo payloadMessage of
        None \<Rightarrow> DispatchPanic
      | Some routing \<Rightarrow>
          if rm_Recipient routing \<noteq> rs_NodeID r then NotForThisNode
          else (let responseMessage = response_of r routing (pm_Data payloadMessage) in
            (case uuid_Parse (ie_InResponseTo (pm_Data payloadMessage)) of
               None \<Rightarrow> NotAnIdentifier
             | Some inResponseTo \<Rightarrow>
                 (case GetDispatchChannel (rs_dispatchTable r) inResponseTo of
                    Some responseChannel \<Rightarrow> ToChannel responseChannel responseMessage
                  | None \<Rightarrow>
                      (case ResponseMessage_marshal responseMessage of
                         None \<Rightarrow> MarshalFailed
                       | Some json \<Rightarrow> ToKafka (ie_InResponseTo (pm_Data payloadMessage)) json)))))"

text \<open>The goroutine that writes to Kafka: the counters it changes, given the error of the write
  (\<open>Some True\<close>: the context was cancelled).\<close>

record kafka_metrics =
  km_success :: nat
  km_failure :: nat
  km_gauge :: int

definition kafka_goroutine :: "bool option \<Rightarrow> kafka_metrics \<Rightarrow> kafka_metrics" where
  "kafka_goroutine err m =
     (let m1 = m\<lparr>km_gauge := km_gauge m + 1\<rparr>;
          m2 = (case err of
                  Some canceled \<Rightarrow> if canceled \<noteq> True then m1\<lparr>km_failure := km_failure m1 + 1\<rparr> else m1
                | None \<Rightarrow> m1\<lparr>km_success := km_success m1 + 1\<rparr>)
      in m2\<lparr>km_gauge := km_gauge m2 - 1\<rparr>)"

subsection \<open>Close and capabilities\<close>

definition Close :: "'u ReceptorService \<Rightarrow> (service_error, unit) outcome \<times> 'u ReceptorService" where
  "Close r = (case rs_Transport r of
     None \<Rightarrow> (Panic, r)
   | Some t \<Rightarrow> (Ok (), r\<lparr>rs_Transport := Some (tr_Cancel t)\<rparr>))"

definition GetCapabilities :: "'u ReceptorService \<Rightarrow> goany" where
  "GetCapabilities r =
     (case rs_Metadata r of
        AMap metadata \<Rightarrow> (case map_of metadata ''capabilities'' of None \<Rightarrow> AMap [] | Some capabilities \<Rightarrow> capabilities)
      | _ \<Rightarrow> AMap [])"

subsection \<open>Properties\<close>

lemma response_names: "plain_name ''account''" "plain_name ''payload''"
  by (simp_all add: plain_name_def DQ_def BS_def)

lemma ResponseMessage_codec:
  assumes "wf_any (rsp_Payload m)" "in_int64 (rsp_Code m)" "in_int64 (rsp_Serial m)"
  shows "\<exists>b. ResponseMessage_marshal m = Some b \<and> ResponseMessage_unmarshal b = Inr m"
proof -
  obtain p where p: "any_json True (rsp_Payload m) = Some p" "wf_json p" "json_any p = rsp_Payload m"
    using assms(1) store_enc_any by blast
  show ?thesis unfolding ResponseMessage_marshal_def ResponseMessage_unmarshal_def
    by (rule marshal_codec, simp add: struct_simps p, simp add: struct_simps response_names p,
        simp add: struct_simps response_names p assms ResponseMessage_fields_def ResponseMessage_store_def new_ResponseMessage_def)
qed

text \<open>Property C23. A payload addressed to this node that answers an identifier no ping waits for is written to
  Kafka under the identifier as key, and a reader that decodes the value gets the response with every
  field of the payload.\<close>

theorem dispatch_to_kafka:
  assumes "pm_RoutingInfo pm = Some routing" "rm_Recipient routing = rs_NodeID r"
    and "uuid_Parse (ie_InResponseTo (pm_Data pm)) = Some u" "GetDispatchChannel (rs_dispatchTable r) u = None"
    and "wf_InnerEnvelope (pm_Data pm)"
  shows "\<exists>value. DispatchResponse uuid_Parse r pm = ToKafka (ie_InResponseTo (pm_Data pm)) value \<and>
     ResponseMessage_unmarshal value = Inr (response_of r routing (pm_Data pm))"
proof -
  obtain b where "ResponseMessage_marshal (response_of r routing (pm_Data pm)) = Some b"
    "ResponseMessage_unmarshal b = Inr (response_of r routing (pm_Data pm))"
    using ResponseMessage_codec [of "response_of r routing (pm_Data pm)"] assms(5)
    by (auto simp: wf_InnerEnvelope_def response_of_def)
  with assms(1-4) show ?thesis by (simp add: DispatchResponse_def)
qed

theorem dispatch_to_kafka_witness:
  "let r = NewReceptorService ''0001'' ''gateway'' :: string ReceptorService;
       routing = \<lparr>rm_Sender = ''node-a'', rm_Recipient = ''gateway'', rm_RouteList = None\<rparr>;
       d = new_InnerEnvelope\<lparr>ie_InResponseTo := ''u-1''\<rparr>
   in \<exists>value. DispatchResponse Some r \<lparr>pm_RoutingInfo = Some routing, pm_Data = d\<rparr> = ToKafka ''u-1'' value \<and>
      ResponseMessage_unmarshal value = Inr (response_of r routing d)"
proof -
  define r where "r = (NewReceptorService ''0001'' ''gateway'' :: string ReceptorService)"
  define routing where "routing = \<lparr>rm_Sender = ''node-a'', rm_Recipient = ''gateway'', rm_RouteList = None :: string list option\<rparr>"
  define d where "d = new_InnerEnvelope\<lparr>ie_InResponseTo := ''u-1''\<rparr>"
  have wf: "wf_InnerEnvelope d"
    by (simp add: d_def new_InnerEnvelope_def wf_InnerEnvelope_def valid_time_def zero_time_def daysIn_def in_int64_def)
  show ?thesis unfolding Let_def
    using dispatch_to_kafka [of "\<lparr>pm_RoutingInfo = Some routing, pm_Data = d\<rparr>" routing r Some "''u-1''"] wf
    by (simp add: r_def routing_def d_def NewReceptorService_def GetDispatchChannel_def new_InnerEnvelope_def)
qed

lemma SendMessage_set:
  assumes "rs_Transport r = Some t" "account = rs_AccountNumber r" "newID = Some u"
  shows "set (SendMessage uuid_String newID now r c account recipient route payload directive) =
    (if can_send (tr_Send t)
     then {(Ok u, r\<lparr>rs_Transport := Some (t\<lparr>tr_Send := push \<lparr>rmsg_AccountNumber = account,
             rmsg_Message = BuildPayloadMessage now (uuid_String u) (rs_NodeID r) recipient route
               ''directive'' directive payload\<rparr> (tr_Send t)\<rparr>)\<rparr>)} else {}) \<union>
    (if tr_Ctx t \<noteq> None then {(Err connectionToReceptorNetworkLost, r)} else {}) \<union>
    (case c of None \<Rightarrow> {} | Some e \<Rightarrow> {(Err (sender_error e), r)})"
proof -
  have "r\<lparr>rs_Transport := Some t\<rparr> = r" using assms(1) [symmetric] by simp
  then show ?thesis
    using assms by (auto simp: SendMessage_def service_sendMessage_def sendMessage_def split: option.splits)
qed

text \<open>Property C27. The possible results of \<open>SendMessage\<close>. A caller of another account gets an error and nothing is
  sent. Otherwise the message is queued, with the account and the identifier that is returned, if
  the queue has room, or the call reports that the connection is lost, that it timed out or that it
  was cancelled, only if that is the case, and nothing is queued.\<close>

theorem send_message_outcomes:
  assumes "rs_Transport r = Some t"
  shows "(res, r') \<in> set (SendMessage uuid_String newID now r c account recipient route payload directive) \<longleftrightarrow>
     (if account \<noteq> rs_AccountNumber r then res = Err accountMismatch \<and> r' = r
      else if newID = None then res = Err uuidError \<and> r' = r
      else (res = Ok (the newID) \<and> length (ch_buf (tr_Send t)) < ch_cap (tr_Send t) \<and>
              r' = r\<lparr>rs_Transport := Some (t\<lparr>tr_Send := push \<lparr>rmsg_AccountNumber = account,
                rmsg_Message = BuildPayloadMessage now (uuid_String (the newID)) (rs_NodeID r) recipient route
                  ''directive'' directive payload\<rparr> (tr_Send t)\<rparr>)\<rparr>) \<or>
           (res = Err connectionToReceptorNetworkLost \<and> tr_Ctx t \<noteq> None \<and> r' = r) \<or>
           (res = Err requestTimedOut \<and> c = Some DeadlineExceeded \<and> r' = r) \<or>
           (res = Err requestCancelledBySender \<and> c = Some Canceled \<and> r' = r))"
proof (cases "account \<noteq> rs_AccountNumber r \<or> newID = None")
  case True
  then show ?thesis by (auto simp: SendMessage_def)
next
  case False
  then obtain u where u: "account = rs_AccountNumber r" "newID = Some u" by blast
  from SendMessage_set [OF assms u] show ?thesis
    by (auto simp: u can_send_def sender_error_def split: option.splits ctx_err.splits)
qed

theorem send_message_outcomes_witness:
  "let t = \<lparr>tr_Send = make_chan 1, tr_Recv = make_chan 1, tr_ControlChannel = make_chan 1, tr_Ctx = None\<rparr>;
       r = RegisterConnection (NewReceptorService ''0001'' ''gateway'') ''node-a'' ANil t
   in rs_Transport r = Some t \<and>
      (Err requestTimedOut, r) \<in> set (SendMessage (\<lambda>u. u) (Some ''u-1'') zero_time r (Some DeadlineExceeded) ''0001''
        ''node-a'' None ANil ''demo:do'') \<and>
      (Err connectionToReceptorNetworkLost, r) \<notin> set (SendMessage (\<lambda>u. u) (Some ''u-1'') zero_time r None ''0001''
        ''node-a'' None ANil ''demo:do'')"
proof -
  define t where "t = \<lparr>tr_Send = make_chan 1, tr_Recv = make_chan 1, tr_ControlChannel = make_chan 1, tr_Ctx = None\<rparr>"
  define r where "r = (RegisterConnection (NewReceptorService ''0001'' ''gateway'') ''node-a'' ANil t :: string ReceptorService)"
  have t: "rs_Transport r = Some t" "rs_AccountNumber r = ''0001''" "tr_Ctx t = None"
    by (simp_all add: r_def t_def RegisterConnection_def NewReceptorService_def)
  show ?thesis unfolding Let_def t_def [symmetric] r_def [symmetric]
    by (simp add: send_message_outcomes [OF t(1)] t)
qed

end
