(* ===== verification/Ping.thy ===== *)
theory Ping
  imports Receptor_Service "HOL-Library.Multiset"
begin

text \<open>
  The goroutines of one connection: any number of pings, the reactor that dispatches incoming
  payloads, and whatever else changes the transport (the write loop, other senders, a close). A step
  is one communication or one section under the mutex of the dispatch table.
\<close>

subsection \<open>States and steps\<close>

type_synonym ping_result = "(service_error, ResponseMessage) outcome"

text \<open>Where a ping stands: before its message is passed on, waiting for the response, before the
  deferred call that removes its channel from the table, returned.\<close>

datatype ping_pc = PSending Message | PWaiting | PReturning ping_result | PDone ping_result

record 'u ping =
  p_id :: 'u
  p_ctx :: ctx
  p_pc :: ping_pc

text \<open>Where the reactor stands: ready for a message, in the statement
  \<open>responseChannel <- responseMessage\<close>, or ended by a panic.\<close>

datatype reactor_pc = RIdle | RSending nat ResponseMessage | RCrashed

text \<open>\<open>c_received\<close> is the history of the payloads the reactor has taken, \<open>c_kafka\<close> the writes it has
  started. The channel of a ping is the ping's number.\<close>

record 'u conn =
  c_srv :: "'u ReceptorService"
  c_pings :: "'u ping list"
  c_reactor :: reactor_pc
  c_received :: "PayloadMessage list"
  c_kafka :: "(string \<times> bytes) list"

definition new_conn :: "'u ReceptorService \<Rightarrow> 'u conn" where
  "new_conn r = \<lparr>c_srv = r, c_pings = [], c_reactor = RIdle, c_received = [], c_kafka = []\<rparr>"

definition set_pc :: "'u conn \<Rightarrow> nat \<Rightarrow> ping_pc \<Rightarrow> 'u conn" where
  "set_pc s i pc = s\<lparr>c_pings := (c_pings s)[i := (c_pings s ! i)\<lparr>p_pc := pc\<rparr>]\<rparr>"

definition offered :: "'u conn \<Rightarrow> nat \<Rightarrow> ResponseMessage option" where
  "offered s i = (case c_reactor s of RSending ch m \<Rightarrow> if ch = i then Some m else None | _ \<Rightarrow> None)"

definition after_send :: "(service_error, unit) outcome \<Rightarrow> ping_pc" where
  "after_send res = (case res of Ok _ \<Rightarrow> PWaiting | Err e \<Rightarrow> PReturning (Err e) | Panic \<Rightarrow> PReturning Panic)"

definition react :: "dispatched \<Rightarrow> 'u conn \<Rightarrow> 'u conn" where
  "react d s = (case d of
     DispatchPanic \<Rightarrow> s\<lparr>c_reactor := RCrashed\<rparr>
   | ToChannel ch m \<Rightarrow> s\<lparr>c_reactor := RSending ch m\<rparr>
   | ToKafka k v \<Rightarrow> s\<lparr>c_kafka := c_kafka s @ [(k, v)]\<rparr>
   | _ \<Rightarrow> s)"

inductive conn_step :: "('u \<Rightarrow> string) \<Rightarrow> (string \<Rightarrow> 'u option) \<Rightarrow> 'u conn \<Rightarrow> 'u conn \<Rightarrow> bool"
  for uuid_String :: "'u \<Rightarrow> string" and uuid_Parse :: "string \<Rightarrow> 'u option" where
  ping_start:
    "Ping_start uuid_String newID now nowValue (c_srv s) account recipient route (length (c_pings s)) = (Inr (u, m), r')
     \<Longrightarrow> conn_step uuid_String uuid_Parse s
       (s\<lparr>c_srv := r', c_pings := c_pings s @ [\<lparr>p_id = u, p_ctx = c, p_pc = PSending m\<rparr>]\<rparr>)"
| ping_send:
    "\<lbrakk>i < length (c_pings s); p_pc (c_pings s ! i) = PSending m;
      (res, r') \<in> set (service_sendControlMessage (c_srv s) (p_ctx (c_pings s ! i)) m)\<rbrakk>
     \<Longrightarrow> conn_step uuid_String uuid_Parse s (set_pc (s\<lparr>c_srv := r'\<rparr>) i (after_send res))"
| ping_wait:
    "\<lbrakk>i < length (c_pings s); p_pc (c_pings s ! i) = PWaiting;
      res \<in> set (waitForResponse (c_srv s) (p_ctx (c_pings s ! i)) (offered s i))\<rbrakk>
     \<Longrightarrow> conn_step uuid_String uuid_Parse s
       (set_pc (case res of Ok _ \<Rightarrow> s\<lparr>c_reactor := RIdle\<rparr> | _ \<Rightarrow> s) i (PReturning res))"
| ping_finish:
    "\<lbrakk>i < length (c_pings s); p_pc (c_pings s ! i) = PReturning res\<rbrakk>
     \<Longrightarrow> conn_step uuid_String uuid_Parse s
       (set_pc (s\<lparr>c_srv := Ping_finish (c_srv s) (p_id (c_pings s ! i))\<rparr>) i (PDone res))"
| ping_ctx:
    "i < length (c_pings s)
     \<Longrightarrow> conn_step uuid_String uuid_Parse s
       (s\<lparr>c_pings := (c_pings s)[i := (c_pings s ! i)\<lparr>p_ctx := ctx_done e (p_ctx (c_pings s ! i))\<rparr>]\<rparr>)"
| reactor_receive:
    "c_reactor s = RIdle
     \<Longrightarrow> conn_step uuid_String uuid_Parse s
       (react (DispatchResponse uuid_Parse (c_srv s) pm) (s\<lparr>c_received := c_received s @ [pm]\<rparr>))"
| transport:
    "\<lbrakk>rs_Transport (c_srv s) = Some t; tr_Ctx t \<noteq> None \<longrightarrow> tr_Ctx t' \<noteq> None\<rbrakk>
     \<Longrightarrow> conn_step uuid_String uuid_Parse s (s\<lparr>c_srv := (c_srv s)\<lparr>rs_Transport := Some t'\<rparr>\<rparr>)"

inductive_cases conn_stepE: "conn_step uuid_String uuid_Parse s s'"

subsection \<open>Responses that count\<close>

text \<open>The response of a payload that is addressed to this node and answers some identifier.\<close>

definition accepted :: "(string \<Rightarrow> 'u option) \<Rightarrow> 'u ReceptorService \<Rightarrow> PayloadMessage \<Rightarrow> ResponseMessage list" where
  "accepted uuid_Parse r pm = (case pm_RoutingInfo pm of
     None \<Rightarrow> []
   | Some routing \<Rightarrow>
       if rm_Recipient routing = rs_NodeID r \<and> uuid_Parse (ie_InResponseTo (pm_Data pm)) \<noteq> None
       then [response_of r routing (pm_Data pm)] else [])"

definition ping_response :: "'u ping \<Rightarrow> ResponseMessage list" where
  "ping_response p = (case p_pc p of PReturning (Ok m) \<Rightarrow> [m] | PDone (Ok m) \<Rightarrow> [m] | _ \<Rightarrow> [])"

definition in_flight :: "reactor_pc \<Rightarrow> ResponseMessage list" where
  "in_flight pc = (case pc of RSending ch m \<Rightarrow> [m] | _ \<Rightarrow> [])"

definition records :: "ResponseMessage list \<Rightarrow> (string \<times> bytes option) multiset" where
  "records ms = mset (map (\<lambda>m. (rsp_InResponseTo m, ResponseMessage_marshal m)) ms)"

definition accepted_all :: "(string \<Rightarrow> 'u option) \<Rightarrow> 'u conn \<Rightarrow> ResponseMessage list" where
  "accepted_all uuid_Parse s = concat (map (accepted uuid_Parse (c_srv s)) (c_received s))"

definition answers :: "(string \<Rightarrow> 'u option) \<Rightarrow> 'u conn \<Rightarrow> nat \<Rightarrow> ResponseMessage \<Rightarrow> bool" where
  "answers uuid_Parse s i m \<longleftrightarrow> i < length (c_pings s) \<and> m \<in> set (accepted_all uuid_Parse s) \<and>
     uuid_Parse (rsp_InResponseTo m) = Some (p_id (c_pings s ! i))"

subsection \<open>The invariant\<close>

definition finished :: "'u ping \<Rightarrow> bool" where
  "finished p = (case p_pc p of PDone _ \<Rightarrow> True | _ \<Rightarrow> False)"

definition table_ok :: "'u conn \<Rightarrow> bool" where
  "table_ok s \<longleftrightarrow> (\<forall>u i. map_of (rs_dispatchTable (c_srv s)) u = Some i \<longrightarrow>
     i < length (c_pings s) \<and> p_id (c_pings s ! i) = u \<and> \<not> finished (c_pings s ! i))"

definition live_ok :: "'u conn \<Rightarrow> bool" where
  "live_ok s \<longleftrightarrow> (distinct (map p_id (c_pings s)) \<longrightarrow>
     (\<forall>i < length (c_pings s). \<not> finished (c_pings s ! i) \<longrightarrow>
        map_of (rs_dispatchTable (c_srv s)) (p_id (c_pings s ! i)) = Some i))"

definition answers_ok :: "(string \<Rightarrow> 'u option) \<Rightarrow> 'u conn \<Rightarrow> bool" where
  "answers_ok uuid_Parse s \<longleftrightarrow>
     (\<forall>i < length (c_pings s). \<forall>m \<in> set (ping_response (c_pings s ! i)). answers uuid_Parse s i m) \<and>
     (\<forall>ch m. c_reactor s = RSending ch m \<longrightarrow> answers uuid_Parse s ch m)"

definition conserved :: "(string \<Rightarrow> 'u option) \<Rightarrow> 'u conn \<Rightarrow> bool" where
  "conserved uuid_Parse s \<longleftrightarrow> ((\<forall>pm \<in> set (c_received s). wf_any (ie_RawPayload (pm_Data pm))) \<longrightarrow>
     records (accepted_all uuid_Parse s) =
       records (concat (map ping_response (c_pings s))) + records (in_flight (c_reactor s)) +
       mset (map (\<lambda>(k, v). (k, Some v)) (c_kafka s)))"

definition conn_inv :: "(string \<Rightarrow> 'u option) \<Rightarrow> 'u conn \<Rightarrow> bool" where
  "conn_inv uuid_Parse s \<longleftrightarrow> table_ok s \<and> live_ok s \<and> answers_ok uuid_Parse s \<and> conserved uuid_Parse s"

text \<open>How many steps of its own a ping may still take.\<close>

definition ping_rank :: "'u ping \<Rightarrow> nat" where
  "ping_rank p = (case p_pc p of PSending _ \<Rightarrow> 3 | PWaiting \<Rightarrow> 2 | PReturning _ \<Rightarrow> 1 | PDone _ \<Rightarrow> 0)"

text \<open>The account and the node id of the service never change.\<close>

definition same_node :: "'u conn \<Rightarrow> 'u conn \<Rightarrow> bool" where
  "same_node s s' \<longleftrightarrow> rs_NodeID (c_srv s') = rs_NodeID (c_srv s) \<and> rs_AccountNumber (c_srv s') = rs_AccountNumber (c_srv s)"

subsection \<open>Every step keeps the invariant\<close>

lemma sendControl_keeps:
  "(res, r') \<in> set (service_sendControlMessage r c m) \<Longrightarrow>
   rs_NodeID r' = rs_NodeID r \<and> rs_AccountNumber r' = rs_AccountNumber r \<and> rs_dispatchTable r' = rs_dispatchTable r"
  by (auto simp: service_sendControlMessage_def split: option.splits)

lemma Ping_startE:
  assumes "Ping_start uuid_String newID now nv r account recipient route ch = (Inr (u, m), r')"
  shows "r' = r\<lparr>rs_dispatchTable := AList.update u ch (rs_dispatchTable r)\<rparr>"
  using assms by (auto simp: Ping_start_def dt_Register_def Let_def split: if_splits option.splits)

lemma waitForResponse_Ok:
  "Ok m \<in> set (waitForResponse r c off) \<Longrightarrow> off = Some m"
  by (auto simp: waitForResponse_def split: option.splits if_splits)

lemma response_marshals: "wf_any (rsp_Payload m) \<Longrightarrow> ResponseMessage_marshal m \<noteq> None"
  using any_json_ok [of "rsp_Payload m" True]
  by (auto simp: ResponseMessage_marshal_def enc_struct_def enc_int_def html_str_def json_Marshal_def)

lemma accepted_cong:
  "rs_NodeID r' = rs_NodeID r \<Longrightarrow> rs_AccountNumber r' = rs_AccountNumber r \<Longrightarrow>
   accepted uuid_Parse r' = accepted uuid_Parse r"
  by (auto simp: accepted_def response_of_def fun_eq_iff split: option.splits)

lemma react_simps [simp]:
  "c_srv (react d s) = c_srv s" "c_pings (react d s) = c_pings s" "c_received (react d s) = c_received s"
  by (auto simp: react_def split: dispatched.splits)

lemma set_pc_simps [simp]:
  "c_srv (set_pc s i pc) = c_srv s" "c_reactor (set_pc s i pc) = c_reactor s"
  "c_received (set_pc s i pc) = c_received s" "c_kafka (set_pc s i pc) = c_kafka s"
  "length (c_pings (set_pc s i pc)) = length (c_pings s)"
  by (simp_all add: set_pc_def)

lemma set_pc_ids [simp]: "map p_id (c_pings (set_pc s i pc)) = map p_id (c_pings s)"
proof (cases "i < length (c_pings s)")
  case True
  then show ?thesis by (intro nth_equalityI) (auto simp: set_pc_def nth_list_update)
qed (simp add: set_pc_def list_update_beyond not_less)

lemma set_pc_nth: "i < length (c_pings s) \<Longrightarrow>
   c_pings (set_pc s i pc) ! j = (if j = i then (c_pings s ! i)\<lparr>p_pc := pc\<rparr> else c_pings s ! j)"
  by (simp add: set_pc_def nth_list_update)

lemma finished_simps [simp]:
  "finished (p\<lparr>p_pc := PReturning res\<rparr>) = False" "finished (p\<lparr>p_pc := PDone res\<rparr>)"
  "finished (p\<lparr>p_pc := after_send r\<rparr>) = False" "finished (p\<lparr>p_ctx := c\<rparr>) = finished p"
  "finished \<lparr>p_id = u, p_ctx = c, p_pc = PSending m\<rparr> = False"
  by (auto simp: finished_def after_send_def split: outcome.splits)

lemma pc_unfinished: "p_pc p = PSending m \<Longrightarrow> \<not> finished p" "p_pc p = PWaiting \<Longrightarrow> \<not> finished p"
  "p_pc p = PReturning res \<Longrightarrow> \<not> finished p"
  by (auto simp: finished_def)

lemma ping_response_simps [simp]:
  "ping_response (p\<lparr>p_pc := after_send r\<rparr>) = []" "ping_response (p\<lparr>p_ctx := c\<rparr>) = ping_response p"
  "ping_response (p\<lparr>p_pc := PReturning res\<rparr>) = (case res of Ok m \<Rightarrow> [m] | _ \<Rightarrow> [])"
  "ping_response (p\<lparr>p_pc := PDone res\<rparr>) = (case res of Ok m \<Rightarrow> [m] | _ \<Rightarrow> [])"
  "ping_response \<lparr>p_id = u, p_ctx = c, p_pc = PSending m\<rparr> = []"
  by (auto simp: ping_response_def after_send_def split: outcome.splits)

lemma ping_response_pc: "p_pc p = PSending m \<Longrightarrow> ping_response p = []" "p_pc p = PWaiting \<Longrightarrow> ping_response p = []"
  "p_pc p = PReturning res \<Longrightarrow> ping_response p = (case res of Ok m \<Rightarrow> [m] | _ \<Rightarrow> [])"
  by (auto simp: ping_response_def)

lemma conn_step_same_node: "conn_step uuid_String uuid_Parse s s' \<Longrightarrow> same_node s s'"
  by (erule conn_step.cases)
    (auto simp: same_node_def Ping_finish_def dest: sendControl_keeps Ping_startE split: outcome.splits)

lemma table_ok_step:
  assumes "conn_step uuid_String uuid_Parse s s'" "table_ok s"
  shows "table_ok s'"
  using assms(1)
proof cases
  case (ping_start newID now nowValue account recipient route u m r' c)
  show ?thesis using assms(2) Ping_startE [OF ping_start(2)]
    by (fastforce simp: ping_start(1) table_ok_def update_conv' nth_append split: if_splits)
next
  case (ping_send i m res r')
  then show ?thesis using assms(2) sendControl_keeps [OF ping_send(4)]
    by (auto simp: table_ok_def set_pc_nth)
next
  case (ping_wait i res)
  then show ?thesis using assms(2)
    by (auto simp: table_ok_def set_pc_nth split: outcome.splits)
next
  case (ping_finish i res)
  then show ?thesis using assms(2)
    by (auto simp: table_ok_def set_pc_nth Ping_finish_def dt_Unregister_def delete_conv' split: if_splits)
qed (use assms(2) in \<open>auto simp: table_ok_def nth_list_update\<close>)

lemma live_ok_step:
  assumes "conn_step uuid_String uuid_Parse s s'" "live_ok s"
  shows "live_ok s'"
  using assms(1)
proof cases
  case (ping_start newID now nowValue account recipient route u m r' c)
  show ?thesis using assms(2) Ping_startE [OF ping_start(2)]
    by (fastforce simp: ping_start(1) live_ok_def update_conv' nth_append less_Suc_eq split: if_splits)
next
  case (ping_send i m res r')
  then show ?thesis using assms(2) sendControl_keeps [OF ping_send(4)]
    by (auto simp: live_ok_def set_pc_nth pc_unfinished)
next
  case (ping_wait i res)
  then show ?thesis using assms(2)
    by (auto simp: live_ok_def set_pc_nth pc_unfinished split: outcome.splits)
next
  case (ping_finish i res)
  then show ?thesis using assms(2)
    by (auto simp: live_ok_def set_pc_nth Ping_finish_def dt_Unregister_def delete_conv' distinct_conv_nth)
next
  case (ping_ctx i e)
  have "map p_id (c_pings s') = map p_id (c_pings s)"
    using ping_ctx by (auto simp: nth_list_update intro!: nth_equalityI)
  then show ?thesis using assms(2) ping_ctx by (auto simp: live_ok_def nth_list_update)
qed (use assms(2) in \<open>auto simp: live_ok_def\<close>)


lemma dispatch_accepted:
  "(case DispatchResponse uuid_Parse r pm of
      ToChannel ch m \<Rightarrow> accepted uuid_Parse r pm = [m] \<and>
        (\<exists>u. uuid_Parse (rsp_InResponseTo m) = Some u \<and> map_of (rs_dispatchTable r) u = Some ch)
    | ToKafka k v \<Rightarrow> \<exists>m. accepted uuid_Parse r pm = [m] \<and> k = rsp_InResponseTo m \<and> ResponseMessage_marshal m = Some v
    | MarshalFailed \<Rightarrow> \<exists>m. accepted uuid_Parse r pm = [m] \<and> ResponseMessage_marshal m = None \<and>
        rsp_Payload m = ie_RawPayload (pm_Data pm)
    | _ \<Rightarrow> accepted uuid_Parse r pm = [])"
  by (auto simp: DispatchResponse_def accepted_def GetDispatchChannel_def response_of_def Let_def split: option.splits)

lemma accepted_all_step:
  assumes "same_node s s'" "c_received s' = c_received s @ pms"
  shows "accepted_all uuid_Parse s' = accepted_all uuid_Parse s @ concat (map (accepted uuid_Parse (c_srv s)) pms)"
  using accepted_cong [of "c_srv s'" "c_srv s"] assms by (simp add: accepted_all_def same_node_def)

lemma conn_step_grows:
  assumes "conn_step uuid_String uuid_Parse s s'"
  shows "length (c_pings s) \<le> length (c_pings s') \<and> (\<forall>i < length (c_pings s). p_id (c_pings s' ! i) = p_id (c_pings s ! i)) \<and>
    (\<exists>pms. c_received s' = c_received s @ pms)"
  using assms by cases (auto simp: set_pc_nth nth_append nth_list_update split: outcome.splits)

lemma answers_step:
  assumes "conn_step uuid_String uuid_Parse s s'" "answers uuid_Parse s i m"
  shows "answers uuid_Parse s' i m"
proof -
  from conn_step_grows [OF assms(1)] obtain pms where "c_received s' = c_received s @ pms" by blast
  from accepted_all_step [OF conn_step_same_node [OF assms(1)] this] conn_step_grows [OF assms(1)] assms(2)
  show ?thesis by (auto simp: answers_def)
qed

lemma offered_eq: "offered s i = Some m \<longleftrightarrow> c_reactor s = RSending i m"
  by (auto simp: offered_def split: reactor_pc.splits)

lemma reactor_step:
  assumes "conn_step uuid_String uuid_Parse s s'" "c_reactor s' = RSending ch m"
  shows "c_reactor s = RSending ch m \<or>
    (\<exists>pm. c_received s' = c_received s @ [pm] \<and> c_srv s' = c_srv s \<and> c_pings s' = c_pings s \<and>
       DispatchResponse uuid_Parse (c_srv s) pm = ToChannel ch m)"
  using assms
  by cases (auto simp: react_def split: outcome.splits dispatched.splits)

lemma response_step:
  assumes "conn_step uuid_String uuid_Parse s s'" "i < length (c_pings s')" "m \<in> set (ping_response (c_pings s' ! i))"
  shows "i < length (c_pings s) \<and> (m \<in> set (ping_response (c_pings s ! i)) \<or> c_reactor s = RSending i m)"
  using assms
proof cases
  case (ping_wait j res)
  then show ?thesis using assms(2,3)
    by (auto simp: set_pc_nth offered_eq ping_response_pc dest!: waitForResponse_Ok split: if_splits outcome.splits)
qed (auto simp: set_pc_nth nth_append nth_list_update ping_response_pc less_Suc_eq split: if_splits outcome.splits)

lemma answers_ok_step:
  assumes st: "conn_step uuid_String uuid_Parse s s'" and ok: "answers_ok uuid_Parse s" and tab: "table_ok s"
  shows "answers_ok uuid_Parse s'"
proof -
  have "answers uuid_Parse s' i m" if "i < length (c_pings s')" "m \<in> set (ping_response (c_pings s' ! i))" for i m
    using response_step [OF st that] ok answers_step [OF st] unfolding answers_ok_def by blast
  moreover have "answers uuid_Parse s' ch m" if r: "c_reactor s' = RSending ch m" for ch m
    using reactor_step [OF st r]
  proof
    assume "c_reactor s = RSending ch m"
    with ok answers_step [OF st] show ?thesis unfolding answers_ok_def by blast
  next
    assume "\<exists>pm. c_received s' = c_received s @ [pm] \<and> c_srv s' = c_srv s \<and> c_pings s' = c_pings s \<and>
       DispatchResponse uuid_Parse (c_srv s) pm = ToChannel ch m"
    then obtain pm where pm: "c_received s' = c_received s @ [pm]" "c_pings s' = c_pings s"
       "DispatchResponse uuid_Parse (c_srv s) pm = ToChannel ch m" by blast
    from dispatch_accepted [of uuid_Parse "c_srv s" pm] obtain u where
      u: "accepted uuid_Parse (c_srv s) pm = [m]" "uuid_Parse (rsp_InResponseTo m) = Some u"
         "map_of (rs_dispatchTable (c_srv s)) u = Some ch" by (auto simp: pm(3))
    from tab u(3) have "ch < length (c_pings s)" "p_id (c_pings s ! ch) = u" unfolding table_ok_def by blast+
    with u accepted_all_step [OF conn_step_same_node [OF st] pm(1)] show ?thesis by (simp add: answers_def pm(2))
  qed
  ultimately show ?thesis unfolding answers_ok_def by blast
qed

lemma records_append [simp]: "records (xs @ ys) = records xs + records ys" "records [] = {#}"
  "records [m] = {#(rsp_InResponseTo m, ResponseMessage_marshal m)#}"
  by (simp_all add: records_def)

lemma concat_update:
  assumes "i < length xs"
  shows "records (concat (map f (xs[i := y]))) + records (f (xs ! i)) = records (concat (map f xs)) + records (f y)"
  using assms
proof (induction xs arbitrary: i)
  case (Cons x xs)
  then show ?case by (cases i) (auto simp: ac_simps)
qed simp


lemma records_set_pc:
  assumes "i < length (c_pings s)"
  shows "records (concat (map ping_response (c_pings (set_pc s i pc)))) + records (ping_response (c_pings s ! i)) =
     records (concat (map ping_response (c_pings s))) + records (ping_response ((c_pings s ! i)\<lparr>p_pc := pc\<rparr>))"
  unfolding set_pc_def using concat_update [OF assms] by simp

lemma conserved_step:
  assumes st: "conn_step uuid_String uuid_Parse s s'" and ok: "conserved uuid_Parse s"
  shows "conserved uuid_Parse s'"
proof -
  note same = accepted_all_step [OF conn_step_same_node [OF st], of "[]" uuid_Parse, simplified]
  show ?thesis
    using st
  proof cases
    case (ping_start newID now nowValue account recipient route u m r' c)
    with ok same show ?thesis by (simp add: conserved_def)
  next
    case (ping_send i m res r')
    with ok same records_set_pc [of i "s\<lparr>c_srv := r'\<rparr>" "after_send res"] show ?thesis
      by (simp add: conserved_def ping_response_pc)
  next
    case (ping_wait i res)
    have "offered s i = Some m" if "res = Ok m" for m using ping_wait(4) that waitForResponse_Ok by blast
    then have "in_flight (c_reactor s) = [m]" if "res = Ok m" for m
      using that by (simp add: offered_eq in_flight_def)
    with ping_wait ok same records_set_pc [of i "s\<lparr>c_reactor := RIdle\<rparr>" "PReturning res"] records_set_pc [of i s "PReturning res"]
    show ?thesis by (auto simp: conserved_def ping_response_pc in_flight_def split: outcome.splits)
  next
    case (ping_finish i res)
    with ok same records_set_pc [of i "s\<lparr>c_srv := Ping_finish (c_srv s) (p_id (c_pings s ! i))\<rparr>" "PDone res"]
    show ?thesis by (simp add: conserved_def ping_response_pc)
  next
    case (ping_ctx i e)
    with ok same concat_update [of i "c_pings s" ping_response "(c_pings s ! i)\<lparr>p_ctx := ctx_done e (p_ctx (c_pings s ! i))\<rparr>"]
    show ?thesis by (simp add: conserved_def)
  next
    case (reactor_receive pm)
    have acc: "accepted_all uuid_Parse s' = accepted_all uuid_Parse s @ accepted uuid_Parse (c_srv s) pm"
      using accepted_all_step [OF conn_step_same_node [OF st], of "[pm]" uuid_Parse] reactor_receive by simp
    have fail: "ResponseMessage_marshal m = None \<Longrightarrow> \<not> wf_any (rsp_Payload m)" for m using response_marshals by blast
    show ?thesis
      using dispatch_accepted [of uuid_Parse "c_srv s" pm] ok acc reactor_receive
      by (auto simp: conserved_def react_def in_flight_def dest: fail split: dispatched.splits)
  next
    case (transport t t')
    with ok same show ?thesis by (simp add: conserved_def)
  qed
qed

lemma conn_inv_new: "rs_dispatchTable r = [] \<Longrightarrow> conn_inv uuid_Parse (new_conn r)"
  by (simp add: conn_inv_def new_conn_def table_ok_def live_ok_def answers_ok_def conserved_def in_flight_def accepted_all_def)

lemma conn_inv_reachable:
  assumes "(conn_step uuid_String uuid_Parse)\<^sup>*\<^sup>* (new_conn r) s" "rs_dispatchTable r = []"
  shows "conn_inv uuid_Parse s"
  using assms
proof (induction rule: rtranclp_induct)
  case base
  then show ?case by (simp add: conn_inv_new)
next
  case (step s s')
  then show ?case
    unfolding conn_inv_def using table_ok_step live_ok_step answers_ok_step conserved_step by blast
qed


subsection \<open>Properties\<close>

text \<open>A sample run: one ping, whose response the reactor is about to hand over.\<close>

definition sample_service :: "string ReceptorService" where
  "sample_service = RegisterConnection (NewReceptorService ''0001'' ''gateway'') ''node-a'' ANil
     \<lparr>tr_Send = make_chan 1, tr_Recv = make_chan 1, tr_ControlChannel = make_chan 1, tr_Ctx = None\<rparr>"

definition sample_answer :: PayloadMessage where
  "sample_answer = \<lparr>pm_RoutingInfo = Some \<lparr>rm_Sender = ''node-a'', rm_Recipient = ''gateway'', rm_RouteList = None\<rparr>,
     pm_Data = new_InnerEnvelope\<lparr>ie_InResponseTo := ''u-1''\<rparr>\<rparr>"

definition sample_response :: ResponseMessage where
  "sample_response = \<lparr>rsp_AccountNumber = ''0001'', rsp_Sender = ''node-a'', rsp_MessageType = [], rsp_MessageID = [],
     rsp_Payload = ANil, rsp_Code = 0, rsp_InResponseTo = ''u-1'', rsp_Serial = 0\<rparr>"

definition sample_conn :: "ctx \<Rightarrow> ping_pc \<Rightarrow> reactor_pc \<Rightarrow> string conn \<Rightarrow> bool" where
  "sample_conn c pc rpc s \<longleftrightarrow> (conn_step (\<lambda>u. u) Some)\<^sup>*\<^sup>* (new_conn sample_service) s \<and>
     c_pings s = [\<lparr>p_id = ''u-1'', p_ctx = c, p_pc = pc\<rparr>] \<and> c_reactor s = rpc \<and> c_received s = [sample_answer] \<and>
     c_kafka s = [] \<and> rs_Transport (c_srv s) \<noteq> None"

lemma sample_next:
  "sample_conn c pc rpc s \<Longrightarrow> conn_step (\<lambda>u. u) Some s s' \<Longrightarrow>
   c_pings s' = [\<lparr>p_id = ''u-1'', p_ctx = c', p_pc = pc'\<rparr>] \<Longrightarrow> c_reactor s' = rpc' \<Longrightarrow> c_received s' = [sample_answer] \<Longrightarrow>
   c_kafka s' = [] \<Longrightarrow> rs_Transport (c_srv s') \<noteq> None \<Longrightarrow> sample_conn c' pc' rpc' s'"
  by (auto simp: sample_conn_def)

lemma sample_offered: "\<exists>s. sample_conn None PWaiting (RSending 0 sample_response) s"
proof -
  let ?st = "conn_step (\<lambda>u. u) Some"
  obtain m r1 where start: "Ping_start (\<lambda>u. u) (Some ''u-1'') zero_time ANil sample_service ''0001'' ''node-a'' None 0 =
      (Inr (''u-1'', m), r1)" "r1 = sample_service\<lparr>rs_dispatchTable := [(''u-1'', 0)]\<rparr>"
    by (simp add: Ping_start_def sample_service_def RegisterConnection_def NewReceptorService_def dt_Register_def)
  let ?p = "\<lambda>pc. \<lparr>p_id = ''u-1'', p_ctx = None, p_pc = pc\<rparr>"
  define s1 where "s1 = (new_conn sample_service)\<lparr>c_srv := r1, c_pings := [?p (PSending m)]\<rparr>"
  have 1: "?st (new_conn sample_service) s1"
    using conn_step.ping_start [of "\<lambda>u. u" "Some ''u-1''" zero_time ANil "new_conn sample_service" "''0001''" "''node-a''" None "''u-1''" m r1 Some None] start
    by (simp add: s1_def new_conn_def)
  obtain r2 where snd: "(Ok (), r2) \<in> set (service_sendControlMessage r1 None m)"
      "rs_dispatchTable r2 = [(''u-1'', 0)]" "rs_NodeID r2 = ''gateway''" "rs_AccountNumber r2 = ''0001''" "rs_Transport r2 \<noteq> None"
    by (simp add: start(2) service_sendControlMessage_def sample_service_def RegisterConnection_def NewReceptorService_def
        sendMessage_def make_chan_def can_send_def)
  define s2 where "s2 = s1\<lparr>c_srv := r2, c_pings := [?p PWaiting]\<rparr>"
  have 2: "?st s1 s2"
    using conn_step.ping_send [of 0 s1 m "Ok ()" r2] snd by (simp add: s1_def s2_def set_pc_def after_send_def)
  define s3 where "s3 = s2\<lparr>c_received := [sample_answer], c_reactor := RSending 0 sample_response\<rparr>"
  have 3: "?st s2 s3"
    using conn_step.reactor_receive [of s2 "\<lambda>u. u" Some sample_answer] snd
    by (simp add: s2_def s1_def s3_def new_conn_def react_def DispatchResponse_def sample_answer_def GetDispatchChannel_def
        response_of_def sample_response_def new_InnerEnvelope_def)
  have "?st\<^sup>*\<^sup>* (new_conn sample_service) s3" using 1 2 3 by (meson r_into_rtranclp rtranclp_trans)
  then have "sample_conn None PWaiting (RSending 0 sample_response) s3"
    using snd by (simp add: sample_conn_def s3_def s2_def s1_def new_conn_def)
  then show ?thesis by blast
qed

lemma sample_delivered: "\<exists>s. sample_conn None (PDone (Ok sample_response)) RIdle s"
proof -
  obtain s where s: "sample_conn None PWaiting (RSending 0 sample_response) s" using sample_offered by blast
  have "sample_conn None (PReturning (Ok sample_response)) RIdle (set_pc (s\<lparr>c_reactor := RIdle\<rparr>) 0 (PReturning (Ok sample_response)))"
    by (rule sample_next [OF s])
      (use s conn_step.ping_wait [of 0 s "Ok sample_response"] in \<open>auto simp: sample_conn_def set_pc_def waitForResponse_def offered_def\<close>)
  then obtain s where s: "sample_conn None (PReturning (Ok sample_response)) RIdle s" by blast
  have "sample_conn None (PDone (Ok sample_response)) RIdle
      (set_pc (s\<lparr>c_srv := Ping_finish (c_srv s) (p_id (c_pings s ! 0))\<rparr>) 0 (PDone (Ok sample_response)))"
    by (rule sample_next [OF s])
      (use s conn_step.ping_finish [of 0 s "Ok sample_response"] in \<open>auto simp: sample_conn_def set_pc_def Ping_finish_def\<close>)
  then show ?thesis by blast
qed

lemma sample_timed_out:
  "\<exists>s. sample_conn (Some DeadlineExceeded) (PReturning (Err requestTimedOut)) (RSending 0 sample_response) s"
proof -
  obtain s where s: "sample_conn None PWaiting (RSending 0 sample_response) s" using sample_offered by blast
  have "sample_conn (Some DeadlineExceeded) PWaiting (RSending 0 sample_response)
      (s\<lparr>c_pings := (c_pings s)[0 := (c_pings s ! 0)\<lparr>p_ctx := ctx_done DeadlineExceeded (p_ctx (c_pings s ! 0))\<rparr>]\<rparr>)"
    by (rule sample_next [OF s])
      (use s conn_step.ping_ctx [of 0 s "\<lambda>u. u" Some DeadlineExceeded] in \<open>auto simp: sample_conn_def\<close>)
  then obtain s where s: "sample_conn (Some DeadlineExceeded) PWaiting (RSending 0 sample_response) s" by blast
  have "sample_conn (Some DeadlineExceeded) (PReturning (Err requestTimedOut)) (RSending 0 sample_response)
      (set_pc s 0 (PReturning (Err requestTimedOut)))"
    by (rule sample_next [OF s])
      (use s conn_step.ping_wait [of 0 s "Err requestTimedOut"] in \<open>auto simp: sample_conn_def set_pc_def waitForResponse_def sender_error_def\<close>)
  then show ?thesis by blast
qed


lemma sample_new: "rs_dispatchTable sample_service = []"
  by (simp add: sample_service_def RegisterConnection_def NewReceptorService_def)

text \<open>Property C6. In every interleaving of pings, reactor and transport, a ping that returns a response returns
  one that a payload carried which the reactor received, which was addressed to this controller's
  node and answers the identifier of this ping and no other.\<close>

theorem ping_correlated:
  assumes "(conn_step uuid_String uuid_Parse)\<^sup>*\<^sup>* (new_conn r) s" "rs_dispatchTable r = []"
    and "i < length (c_pings s)" "p_pc (c_pings s ! i) = PDone (Ok m)"
  shows "\<exists>pm \<in> set (c_received s). \<exists>routing. pm_RoutingInfo pm = Some routing \<and>
     rm_Recipient routing = rs_NodeID (c_srv s) \<and> m = response_of (c_srv s) routing (pm_Data pm) \<and>
     uuid_Parse (ie_InResponseTo (pm_Data pm)) = Some (p_id (c_pings s ! i))"
proof -
  have "answers uuid_Parse s i m"
    using conn_inv_reachable [OF assms(1,2)] assms(3,4)
    by (auto simp: conn_inv_def answers_ok_def ping_response_def)
  then obtain pm where pm: "pm \<in> set (c_received s)" "m \<in> set (accepted uuid_Parse (c_srv s) pm)"
    "uuid_Parse (rsp_InResponseTo m) = Some (p_id (c_pings s ! i))"
    by (auto simp: answers_def accepted_all_def)
  then show ?thesis
    by (intro bexI [OF _ pm(1)], cases "pm_RoutingInfo pm") (auto simp: accepted_def response_of_def split: if_splits)
qed

theorem ping_correlated_witness:
  "\<exists>s :: string conn. p_pc (c_pings s ! 0) = PDone (Ok sample_response) \<and>
     (\<exists>pm \<in> set (c_received s). \<exists>routing. pm_RoutingInfo pm = Some routing \<and>
       rm_Recipient routing = rs_NodeID (c_srv s) \<and> sample_response = response_of (c_srv s) routing (pm_Data pm) \<and>
       Some (ie_InResponseTo (pm_Data pm)) = Some (p_id (c_pings s ! 0)))"
proof -
  obtain s where s: "sample_conn None (PDone (Ok sample_response)) RIdle s" using sample_delivered by blast
  then have "(conn_step (\<lambda>u. u) Some)\<^sup>*\<^sup>* (new_conn sample_service) s" "0 < length (c_pings s)"
    "p_pc (c_pings s ! 0) = PDone (Ok sample_response)" by (auto simp: sample_conn_def)
  from ping_correlated [OF this(1) sample_new this(2,3)] this(3) show ?thesis by blast
qed

text \<open>Property C22. As long as identifiers are not repeated, the dispatch table holds exactly the channels of
  the pings that have not returned: no entry is lost while a ping waits and none is left behind,
  however the ping ends.\<close>

theorem ping_table_exact:
  assumes "(conn_step uuid_String uuid_Parse)\<^sup>*\<^sup>* (new_conn r) s" "rs_dispatchTable r = []"
    and "distinct (map p_id (c_pings s))"
  shows "GetDispatchChannel (rs_dispatchTable (c_srv s)) u = Some i \<longleftrightarrow>
     i < length (c_pings s) \<and> p_id (c_pings s ! i) = u \<and> \<not> finished (c_pings s ! i)"
  using conn_inv_reachable [OF assms(1,2)] assms(3)
  unfolding conn_inv_def table_ok_def live_ok_def GetDispatchChannel_def by blast

theorem ping_table_exact_witness:
  "\<exists>s :: string conn. c_pings s \<noteq> [] \<and> GetDispatchChannel (rs_dispatchTable (c_srv s)) ''u-1'' = Some 0"
proof -
  obtain s where s: "sample_conn None PWaiting (RSending 0 sample_response) s" using sample_offered by blast
  then have "(conn_step (\<lambda>u. u) Some)\<^sup>*\<^sup>* (new_conn sample_service) s" "distinct (map p_id (c_pings s))"
    by (auto simp: sample_conn_def)
  from ping_table_exact [OF this(1) sample_new this(2), of "''u-1''" 0] s
  have "c_pings s \<noteq> [] \<and> GetDispatchChannel (rs_dispatchTable (c_srv s)) ''u-1'' = Some 0"
    by (simp add: sample_conn_def finished_def)
  then show ?thesis by blast
qed

text \<open>Property C7. No response is lost or duplicated between the reactor, the pings and Kafka: when the payloads are
  values that JSON can represent, the responses addressed to this node are, as a multiset of keys
  and encodings, those that pings returned, the one the reactor is handing over and those whose
  write to Kafka was started.\<close>

theorem responses_conserved:
  assumes "(conn_step uuid_String uuid_Parse)\<^sup>*\<^sup>* (new_conn r) s" "rs_dispatchTable r = []"
    and "\<forall>pm \<in> set (c_received s). wf_any (ie_RawPayload (pm_Data pm))"
  shows "records (accepted_all uuid_Parse s) =
     records (concat (map ping_response (c_pings s))) + records (in_flight (c_reactor s)) +
     mset (map (\<lambda>(k, v). (k, Some v)) (c_kafka s))"
  using conn_inv_reachable [OF assms(1,2)] assms(3) by (simp add: conn_inv_def conserved_def)

theorem responses_conserved_witness:
  "\<exists>s :: string conn. c_received s = [sample_answer] \<and> records (accepted_all Some s) = records [sample_response]"
proof -
  obtain s where s: "sample_conn None (PDone (Ok sample_response)) RIdle s" using sample_delivered by blast
  then have "(conn_step (\<lambda>u. u) Some)\<^sup>*\<^sup>* (new_conn sample_service) s"
    "\<forall>pm \<in> set (c_received s). wf_any (ie_RawPayload (pm_Data pm))"
    by (auto simp: sample_conn_def sample_answer_def new_InnerEnvelope_def)
  from responses_conserved [OF this(1) sample_new this(2)] s
  have "c_received s = [sample_answer] \<and> records (accepted_all Some s) = records [sample_response]"
    by (simp add: sample_conn_def ping_response_def in_flight_def)
  then show ?thesis by blast
qed

lemma ping_rank_step:
  assumes "conn_step uuid_String uuid_Parse s s'" "i < length (c_pings s)"
  shows "ping_rank (c_pings s' ! i) \<le> ping_rank (c_pings s ! i) \<and>
    (p_ctx (c_pings s ! i) \<noteq> None \<longrightarrow> p_ctx (c_pings s' ! i) = p_ctx (c_pings s ! i))"
  using assms
  by cases (auto simp: set_pc_nth nth_append nth_list_update ping_rank_def after_send_def split: outcome.splits if_splits)

text \<open>Property C21. A ping whose context is done returns: whatever the others do, its context stays done and it
  never moves back; until it has returned a step of its own is possible, and at most three such
  steps remain. In particular a call of \<open>Ping\<close> does not outlive its timeout by waiting.\<close>

theorem ping_returns:
  assumes "i < length (c_pings s)" "p_ctx (c_pings s ! i) \<noteq> None"
  shows "ping_rank (c_pings s ! i) \<le> 3 \<and>
     (\<forall>s'. conn_step uuid_String uuid_Parse s s' \<longrightarrow>
        ping_rank (c_pings s' ! i) \<le> ping_rank (c_pings s ! i) \<and> p_ctx (c_pings s' ! i) \<noteq> None) \<and>
     (\<not> finished (c_pings s ! i) \<longrightarrow>
        (\<exists>s'. conn_step uuid_String uuid_Parse s s' \<and> ping_rank (c_pings s' ! i) < ping_rank (c_pings s ! i)))"
proof (intro conjI impI)
  show "ping_rank (c_pings s ! i) \<le> 3" by (simp add: ping_rank_def split: ping_pc.splits)
  show "\<forall>s'. conn_step uuid_String uuid_Parse s s' \<longrightarrow>
        ping_rank (c_pings s' ! i) \<le> ping_rank (c_pings s ! i) \<and> p_ctx (c_pings s' ! i) \<noteq> None"
    using ping_rank_step [OF _ assms(1)] assms(2) by metis
  assume live: "\<not> finished (c_pings s ! i)"
  show "\<exists>s'. conn_step uuid_String uuid_Parse s s' \<and> ping_rank (c_pings s' ! i) < ping_rank (c_pings s ! i)"
  proof (cases "p_pc (c_pings s ! i)")
    case (PSending m)
    have "service_sendControlMessage (c_srv s) (p_ctx (c_pings s ! i)) m \<noteq> []"
      using assms(2) by (auto simp: service_sendControlMessage_def sendMessage_def split: option.splits)
    then obtain res r' where "(res, r') \<in> set (service_sendControlMessage (c_srv s) (p_ctx (c_pings s ! i)) m)"
      by (metis list.set_intros(1) neq_Nil_conv surj_pair)
    from conn_step.ping_send [OF assms(1) PSending this] assms(1) show ?thesis
      by (intro exI conjI) (auto simp: set_pc_nth ping_rank_def after_send_def PSending split: outcome.splits)
  next
    case PWaiting
    have "waitForResponse (c_srv s) (p_ctx (c_pings s ! i)) (offered s i) \<noteq> []"
      using assms(2) by (auto simp: waitForResponse_def split: option.splits)
    then obtain res where "res \<in> set (waitForResponse (c_srv s) (p_ctx (c_pings s ! i)) (offered s i))"
      by (metis list.set_intros(1) neq_Nil_conv)
    from conn_step.ping_wait [OF assms(1) PWaiting this] assms(1) show ?thesis
      by (intro exI conjI) (auto simp: set_pc_nth ping_rank_def PWaiting split: outcome.splits)
  next
    case (PReturning res)
    from conn_step.ping_finish [OF assms(1) PReturning] assms(1) show ?thesis
      by (intro exI conjI) (auto simp: set_pc_nth ping_rank_def PReturning)
  qed (use live in \<open>simp add: finished_def\<close>)
qed

theorem ping_returns_witness:
  "\<exists>s s'. c_reactor s = RSending 0 sample_response \<and> conn_step (\<lambda>u. u) Some s s' \<and>
     ping_rank (c_pings s' ! 0) < ping_rank (c_pings s ! 0)"
proof -
  obtain s where s: "sample_conn (Some DeadlineExceeded) (PReturning (Err requestTimedOut)) (RSending 0 sample_response) s"
    using sample_timed_out by blast
  then have "0 < length (c_pings s)" "p_ctx (c_pings s ! 0) \<noteq> None" "\<not> finished (c_pings s ! 0)"
    "c_reactor s = RSending 0 sample_response"
    by (auto simp: sample_conn_def finished_def)
  with ping_returns [OF this(1,2), of "\<lambda>u. u" Some] show ?thesis by blast
qed

text \<open>Property C37. Once the reactor has looked up the channel of a ping that then stops waiting, on its timeout, on
  a cancelled request or on the end of the connection, the reactor stays in the send on that channel
  forever and takes no further message of the connection, even after the connection is closed.\<close>

theorem reactor_blocked_forever:
  assumes "c_reactor s = RSending i m" "i < length (c_pings s)" "ping_rank (c_pings s ! i) \<le> 1"
    and "(conn_step uuid_String uuid_Parse)\<^sup>*\<^sup>* s s'"
  shows "c_reactor s' = RSending i m \<and> c_received s' = c_received s"
proof -
  have "c_reactor s' = RSending i m \<and> c_received s' = c_received s \<and> i < length (c_pings s') \<and> ping_rank (c_pings s' ! i) \<le> 1"
    using assms(4)
  proof (induction rule: rtranclp_induct)
    case base
    then show ?case using assms by simp
  next
    case (step t t')
    have grow: "i < length (c_pings t')" "ping_rank (c_pings t' ! i) \<le> 1"
      using conn_step_grows [OF step(2)] ping_rank_step [OF step(2), of i] step.IH by auto
    from step(2) step.IH have "c_reactor t' = RSending i m \<and> c_received t' = c_received t"
    proof cases
      case (ping_wait j res)
      have "j \<noteq> i" using ping_wait step.IH by (auto simp: ping_rank_def)
      then have "offered t j = None" using step.IH by (simp add: offered_def)
      with ping_wait(4) have "res \<noteq> Ok x" for x using waitForResponse_Ok by fastforce
      then show ?thesis using ping_wait(1) step.IH by (cases res) auto
    qed auto
    with grow step.IH show ?case by simp
  qed
  then show ?thesis by blast
qed

theorem reactor_blocked_forever_witness:
  "\<exists>s. (conn_step (\<lambda>u. u) Some)\<^sup>*\<^sup>* (new_conn sample_service) s \<and>
     (\<forall>s'. (conn_step (\<lambda>u. u) Some)\<^sup>*\<^sup>* s s' \<longrightarrow>
        c_reactor s' = RSending 0 sample_response \<and> c_received s' = c_received s)"
proof -
  obtain s where s: "sample_conn (Some DeadlineExceeded) (PReturning (Err requestTimedOut)) (RSending 0 sample_response) s"
    using sample_timed_out by blast
  then have "c_reactor s = RSending 0 sample_response" "0 < length (c_pings s)" "ping_rank (c_pings s ! 0) \<le> 1"
    "(conn_step (\<lambda>u. u) Some)\<^sup>*\<^sup>* (new_conn sample_service) s"
    by (auto simp: sample_conn_def ping_rank_def)
  with reactor_blocked_forever [OF this(1,2,3), of "\<lambda>u. u" Some] show ?thesis by blast
qed

end
