(* ===== verification/Redis_Client.thy ===== *)
theory Redis_Client
  imports Prelude
begin

text \<open>
  The Redis client the controller calls (package \<open>github.com/go-redis/redis\<close>) and the server
  behind it are not part of the repository. They enter the model as a parameter \<open>exec\<close>, which
  takes the state of the outside world and a command and returns the reply and the new state.

  Code that talks to Redis is a program: a tree that returns a value, issues a command and goes on
  with the reply, or makes one atomic step on the state of its own process (a section of code under
  a mutex). \<open>run\<close> executes a program without interference; \<open>sys_step\<close> interleaves the programs
  of several goroutines in several processes, command by command.

  What the controller relies on is the locale \<open>redis_server\<close>, the documented effect and reply of
  the seven commands it uses. A command may also fail, and then it may have been applied or not.
\<close>

subsection \<open>Commands, replies and programs\<close>

text \<open>\<open>TxExec\<close> is the execution of the transaction that \<open>TxPipelined\<close> builds. The closures the
  controller passes to it use the client and not the pipeline, so the transaction is always empty.\<close>

datatype redis_cmd =
    SetNX string string
  | Del string
  | Get string
  | Exists string
  | SAdd string string
  | SRem string string
  | SMembers string
  | TxExec

datatype redis_err = RedisNil | RedisErr string

datatype redis_reply =
    BoolReply bool
  | IntReply nat
  | StringReply string
  | ListReply "string list"
  | ErrReply redis_err

text \<open>The methods \<open>Result\<close>, \<open>Val\<close> and \<open>Err\<close> of the typed commands of the client.\<close>

definition bool_Result :: "redis_reply \<Rightarrow> bool \<times> redis_err option" where
  "bool_Result r = (case r of BoolReply b \<Rightarrow> (b, None) | ErrReply e \<Rightarrow> (False, Some e)
     | _ \<Rightarrow> (False, Some (RedisErr ''unexpected reply'')))"

definition int_Val :: "redis_reply \<Rightarrow> nat" where
  "int_Val r = (case r of IntReply n \<Rightarrow> n | _ \<Rightarrow> 0)"

definition string_Result :: "redis_reply \<Rightarrow> string \<times> redis_err option" where
  "string_Result r = (case r of StringReply s \<Rightarrow> (s, None) | ErrReply e \<Rightarrow> ([], Some e)
     | _ \<Rightarrow> ([], Some (RedisErr ''unexpected reply'')))"

definition list_Result :: "redis_reply \<Rightarrow> string list \<times> redis_err option" where
  "list_Result r = (case r of ListReply l \<Rightarrow> (l, None) | ErrReply e \<Rightarrow> ([], Some e)
     | _ \<Rightarrow> ([], Some (RedisErr ''unexpected reply'')))"

definition reply_err :: "redis_reply \<Rightarrow> redis_err option" where
  "reply_err r = (case r of ErrReply e \<Rightarrow> Some e | _ \<Rightarrow> None)"

text \<open>A local step \<open>Local f k\<close> replaces the process state \<open>s\<close> by \<open>f s\<close> and goes on with \<open>k s\<close>.\<close>

datatype ('s, 'a) prog =
    Ret 'a
  | Redis redis_cmd "redis_reply \<Rightarrow> ('s, 'a) prog"
  | Local "'s \<Rightarrow> 's" "'s \<Rightarrow> ('s, 'a) prog"

primrec pbind :: "('s, 'a) prog \<Rightarrow> ('a \<Rightarrow> ('s, 'b) prog) \<Rightarrow> ('s, 'b) prog" where
  "pbind (Ret a) f = f a"
| "pbind (Redis c k) f = Redis c (\<lambda>r. pbind (k r) f)"
| "pbind (Local u k) f = Local u (\<lambda>s. pbind (k s) f)"

definition redis :: "redis_cmd \<Rightarrow> ('s, redis_reply) prog" where
  "redis c = Redis c Ret"

type_synonym 'w redis_exec = "'w \<Rightarrow> redis_cmd \<Rightarrow> redis_reply \<times> 'w"

primrec run :: "'w redis_exec \<Rightarrow> ('s, 'a) prog \<Rightarrow> 's \<Rightarrow> 'w \<Rightarrow> 'a \<times> 's \<times> 'w" where
  "run ex (Ret a) = (\<lambda>s w. (a, s, w))"
| "run ex (Redis c k) = (\<lambda>s w. case ex w c of (r, w') \<Rightarrow> run ex (k r) s w')"
| "run ex (Local u k) = (\<lambda>s w. run ex (k s) (u s) w)"

lemma prog_induct [case_names Ret Redis Local]:
  assumes "\<And>a. P (Ret a)" "\<And>c k. (\<And>r. P (k r)) \<Longrightarrow> P (Redis c k)" "\<And>u k. (\<And>s. P (k s)) \<Longrightarrow> P (Local u k)"
  shows "P p"
  using assms by (induction p) auto

lemma run_pbind [simp]:
  "run ex (pbind p f) s w = (case run ex p s w of (a, s', w') \<Rightarrow> run ex (f a) s' w')"
  by (induction p arbitrary: s w) (auto split: prod.splits)

lemma run_redis [simp]: "run ex (redis c) s w = (case ex w c of (r, w') \<Rightarrow> (r, s, w'))"
  by (simp add: redis_def)

text \<open>\<open>TxPipelined(fn)\<close>: an error of the closure is returned at once; otherwise the transaction is
  executed and its error returned. The closure's other results reach the caller in variables it
  captured.\<close>

definition TxPipelined :: "('s, 'a \<times> redis_err option) prog \<Rightarrow> ('s, 'a \<times> redis_err option) prog" where
  "TxPipelined fn =
     pbind fn (\<lambda>(x, err). case err of
        Some e \<Rightarrow> Ret (x, Some e)
      | None \<Rightarrow> pbind (redis TxExec) (\<lambda>r. Ret (x, reply_err r)))"

subsection \<open>Interleaving\<close>

text \<open>The processes' states, the goroutines (the process each belongs to and what it has still to
  do) and the outside world.\<close>

type_synonym ('s, 'a, 'w) sys = "'s list \<times> (nat \<times> ('s, 'a) prog) list \<times> 'w"

inductive sys_step :: "'w redis_exec \<Rightarrow> ('s, 'a, 'w) sys \<Rightarrow> ('s, 'a, 'w) sys \<Rightarrow> bool"
  for ex :: "'w redis_exec" where
  step_redis: "\<lbrakk>i < length ts; ts ! i = (p, Redis c k); ex w c = (r, w')\<rbrakk>
     \<Longrightarrow> sys_step ex (ss, ts, w) (ss, ts[i := (p, k r)], w')"
| step_local: "\<lbrakk>i < length ts; ts ! i = (p, Local u k); p < length ss\<rbrakk>
     \<Longrightarrow> sys_step ex (ss, ts, w) (ss[p := u (ss ! p)], ts[i := (p, k (ss ! p))], w)"

inductive_cases sys_stepE: "sys_step ex (ss, ts, w) cfg"

text \<open>A program that runs without interference is one of the interleavings.\<close>

lemma solo_steps:
  assumes "i < length ts" "ts ! i = (p, prg)" "p < length ss" "run ex prg (ss ! p) w = (a, s', w')"
  shows "(sys_step ex)\<^sup>*\<^sup>* (ss, ts, w) (ss[p := s'], ts[i := (p, Ret a)], w')"
  using assms
proof (induction prg arbitrary: ts ss w rule: prog_induct)
  case (Ret x)
  then have "ts[i := (p, Ret a)] = ts" "ss[p := s'] = ss" "w' = w" by (auto simp: list_update_same_conv)
  then show ?case by simp
next
  case (Redis c k)
  obtain r w1 where e: "ex w c = (r, w1)" by fastforce
  have "sys_step ex (ss, ts, w) (ss, ts[i := (p, k r)], w1)"
    using Redis.prems e by (auto intro: step_redis)
  moreover have "(sys_step ex)\<^sup>*\<^sup>* (ss, ts[i := (p, k r)], w1) (ss[p := s'], ts[i := (p, Ret a)], w')"
    using Redis.IH [of "ts[i := (p, k r)]" r ss w1] Redis.prems e by simp
  ultimately show ?case by (rule converse_rtranclp_into_rtranclp)
next
  case (Local u k)
  have "sys_step ex (ss, ts, w) (ss[p := u (ss ! p)], ts[i := (p, k (ss ! p))], w)"
    using Local.prems by (auto intro: step_local)
  moreover have "(sys_step ex)\<^sup>*\<^sup>* (ss[p := u (ss ! p)], ts[i := (p, k (ss ! p))], w)
      (ss[p := s'], ts[i := (p, Ret a)], w')"
    using Local.IH [of "ts[i := (p, k (ss ! p))]" "ss ! p" "ss[p := u (ss ! p)]" w] Local.prems by simp
  ultimately show ?case by (rule converse_rtranclp_into_rtranclp)
qed

text \<open>Every command a program can issue, and every value it can return.\<close>

primrec cmds_all :: "(redis_cmd \<Rightarrow> bool) \<Rightarrow> ('s, 'a) prog \<Rightarrow> bool" where
  "cmds_all P (Ret a) = True"
| "cmds_all P (Redis c k) = (P c \<and> (\<forall>r. cmds_all P (k r)))"
| "cmds_all P (Local u k) = (\<forall>s. cmds_all P (k s))"

primrec returns_all :: "('a \<Rightarrow> bool) \<Rightarrow> ('s, 'a) prog \<Rightarrow> bool" where
  "returns_all P (Ret a) = P a"
| "returns_all P (Redis c k) = (\<forall>r. returns_all P (k r))"
| "returns_all P (Local u k) = (\<forall>s. returns_all P (k s))"

lemma cmds_all_pbind [simp]: "cmds_all P p \<Longrightarrow> (\<And>a. cmds_all P (f a)) \<Longrightarrow> cmds_all P (pbind p f)"
  by (induction p) auto

lemma cmds_all_redis [simp]: "cmds_all P (redis c) = P c"
  by (simp add: redis_def)

lemma returns_all_pbind: "(\<And>a. returns_all P (f a)) \<Longrightarrow> returns_all P (pbind p f)"
  by (induction p) auto

lemma run_returns: "run ex p s w = (a, s', w') \<Longrightarrow> returns_all P p \<Longrightarrow> P a"
  by (induction p arbitrary: s w rule: prog_induct) (fastforce split: prod.splits)+

lemma pbind_assoc: "pbind (pbind p f) g = pbind p (\<lambda>x. pbind (f x) g)"
  by (induction p) auto

subsection \<open>The contract of the server\<close>

datatype redis_value = VStr string | VSet "string set"

type_synonym redis_view = "string \<Rightarrow> redis_value option"

text \<open>The set at a key; a key that does not exist is an empty set. \<open>None\<close>: the key holds a
  string.\<close>

definition set_at :: "redis_view \<Rightarrow> string \<Rightarrow> string set option" where
  "set_at v k = (case v k of None \<Rightarrow> Some {} | Some (VSet S) \<Rightarrow> Some S | Some (VStr s) \<Rightarrow> None)"

text \<open>Redis removes a set that becomes empty.\<close>

definition put_set :: "redis_view \<Rightarrow> string \<Rightarrow> string set \<Rightarrow> redis_view" where
  "put_set v k S = v(k := if S = {} then None else Some (VSet S))"

text \<open>The state after a command, and the replies the server may give.\<close>

fun redis_effect :: "redis_view \<Rightarrow> redis_cmd \<Rightarrow> redis_view" where
  "redis_effect v (SetNX k x) = (if v k = None then v(k \<mapsto> VStr x) else v)"
| "redis_effect v (Del k) = v(k := None)"
| "redis_effect v (SAdd k x) = (case set_at v k of None \<Rightarrow> v | Some S \<Rightarrow> put_set v k (insert x S))"
| "redis_effect v (SRem k x) = (case set_at v k of None \<Rightarrow> v | Some S \<Rightarrow> put_set v k (S - {x}))"
| "redis_effect v c = v"

abbreviation wrong_type :: "redis_reply \<Rightarrow> bool" where
  "wrong_type r \<equiv> \<exists>m. r = ErrReply (RedisErr m)"

fun redis_answers :: "redis_view \<Rightarrow> redis_cmd \<Rightarrow> redis_reply \<Rightarrow> bool" where
  "redis_answers v (SetNX k x) r = (r = BoolReply (v k = None))"
| "redis_answers v (Del k) r = (r = IntReply (if v k = None then 0 else 1))"
| "redis_answers v (Get k) r =
     (case v k of None \<Rightarrow> r = ErrReply RedisNil | Some (VStr s) \<Rightarrow> r = StringReply s
        | Some (VSet S) \<Rightarrow> wrong_type r)"
| "redis_answers v (Exists k) r = (r = IntReply (if v k = None then 0 else 1))"
| "redis_answers v (SAdd k x) r =
     (case set_at v k of None \<Rightarrow> wrong_type r | Some S \<Rightarrow> r = IntReply (if x \<in> S then 0 else 1))"
| "redis_answers v (SRem k x) r =
     (case set_at v k of None \<Rightarrow> wrong_type r | Some S \<Rightarrow> r = IntReply (if x \<in> S then 1 else 0))"
| "redis_answers v (SMembers k) r =
     (case set_at v k of None \<Rightarrow> wrong_type r | Some S \<Rightarrow> \<exists>l. r = ListReply l \<and> set l = S \<and> distinct l)"
| "redis_answers v TxExec r = (r = IntReply 0)"

text \<open>A command is answered and applied, or fails with an error that does not say whether it was
  applied.\<close>

locale redis_server =
  fixes exec :: "'w redis_exec"
    and view :: "'w \<Rightarrow> redis_view"
  assumes exec_law: "exec w c = (r, w') \<Longrightarrow>
    (redis_answers (view w) c r \<and> view w' = redis_effect (view w) c) \<or>
    ((\<exists>m. r = ErrReply (RedisErr m)) \<and> (view w' = view w \<or> view w' = redis_effect (view w) c))"
begin

lemma exec_view:
  "exec w c = (r, w') \<Longrightarrow> view w' = view w \<or> view w' = redis_effect (view w) c"
  using exec_law by blast

text \<open>A key a program's commands do not change keeps its value, whatever fails.\<close>

lemma run_frame:
  assumes "run exec p s w = (a, s', w')"
    and "cmds_all (\<lambda>c. \<forall>v. redis_effect v c k = v k) p"
  shows "view w' k = view w k"
  using assms
proof (induction p arbitrary: s w rule: prog_induct)
  case (Redis c f)
  obtain r w1 where e: "exec w c = (r, w1)" by fastforce
  have "view w1 k = view w k" using exec_view [OF e] Redis.prems(2) by auto
  moreover have "view w' k = view w1 k"
    using Redis.IH [of r s w1] Redis.prems e by auto
  ultimately show ?case by simp
next
  case (Local u f)
  then show ?case using Local.IH [of s "u s" w] by auto
qed auto

end

text \<open>A server that is reached and answers every command.\<close>

locale reliable_redis = redis_server +
  assumes reliable: "exec w c = (r, w') \<Longrightarrow> redis_answers (view w) c r \<and> view w' = redis_effect (view w) c"

subsection \<open>A server that keeps the contract\<close>

text \<open>The reference instance: sets are lists without duplicates.\<close>

datatype mem_value = MStr string | MSet "string list"

type_synonym mem_redis = "(string, mem_value) gomap"

definition mem_view :: "mem_redis \<Rightarrow> redis_view" where
  "mem_view w k = (case map_of w k of None \<Rightarrow> None | Some (MStr s) \<Rightarrow> Some (VStr s)
     | Some (MSet l) \<Rightarrow> if l = [] then None else Some (VSet (set l)))"

definition mem_set :: "mem_redis \<Rightarrow> string \<Rightarrow> string list option" where
  "mem_set w k = (case map_of w k of None \<Rightarrow> Some [] | Some (MSet l) \<Rightarrow> Some (remdups l) | Some (MStr s) \<Rightarrow> None)"

definition mem_present :: "mem_redis \<Rightarrow> string \<Rightarrow> bool" where
  "mem_present w k = (case map_of w k of None \<Rightarrow> False | Some (MStr s) \<Rightarrow> True | Some (MSet l) \<Rightarrow> l \<noteq> [])"

definition wrong_type_reply :: redis_reply where
  "wrong_type_reply = ErrReply (RedisErr ''WRONGTYPE'')"

fun mem_exec :: "mem_redis redis_exec" where
  "mem_exec w (SetNX k x) =
     (if mem_present w k then (BoolReply False, w) else (BoolReply True, AList.update k (MStr x) w))"
| "mem_exec w (Del k) = (IntReply (if mem_present w k then 1 else 0), AList.delete k w)"
| "mem_exec w (Get k) =
     (case map_of w k of
        Some (MStr s) \<Rightarrow> (StringReply s, w)
      | Some (MSet l) \<Rightarrow> (if l = [] then ErrReply RedisNil else wrong_type_reply, w)
      | None \<Rightarrow> (ErrReply RedisNil, w))"
| "mem_exec w (Exists k) = (IntReply (if mem_present w k then 1 else 0), w)"
| "mem_exec w (SAdd k x) =
     (case mem_set w k of None \<Rightarrow> (wrong_type_reply, w)
      | Some l \<Rightarrow> (IntReply (if x \<in> set l then 0 else 1), AList.update k (MSet (List.insert x l)) w))"
| "mem_exec w (SRem k x) =
     (case mem_set w k of None \<Rightarrow> (wrong_type_reply, w)
      | Some l \<Rightarrow> (IntReply (if x \<in> set l then 1 else 0), AList.update k (MSet (removeAll x l)) w))"
| "mem_exec w (SMembers k) =
     (case mem_set w k of None \<Rightarrow> (wrong_type_reply, w) | Some l \<Rightarrow> (ListReply l, w))"
| "mem_exec w TxExec = (IntReply 0, w)"

lemma mem_present_view: "mem_present w k \<longleftrightarrow> mem_view w k \<noteq> None"
  by (auto simp: mem_present_def mem_view_def split: option.splits mem_value.splits)

lemma mem_view_update:
  "mem_view (AList.update k (MStr x) w) = (mem_view w)(k \<mapsto> VStr x)"
  "mem_view (AList.update k (MSet l) w) = put_set (mem_view w) k (set l)"
  "mem_view (AList.delete k w) = (mem_view w)(k := None)"
  by (auto simp: mem_view_def put_set_def fun_eq_iff update_conv' delete_conv')

lemma mem_set_view: "set_at (mem_view w) k = map_option set (mem_set w k)"
  by (auto simp: set_at_def mem_set_def mem_view_def split: option.splits mem_value.splits)

lemma mem_set_distinct: "mem_set w k = Some l \<Longrightarrow> distinct l"
  by (auto simp: mem_set_def split: option.splits mem_value.splits)

lemma mem_exec_law:
  "mem_exec w c = (r, w') \<Longrightarrow> redis_answers (mem_view w) c r \<and> mem_view w' = redis_effect (mem_view w) c"
proof (cases c)
  case (Get k)
  assume "mem_exec w c = (r, w')"
  with Get show ?thesis
    by (auto simp: mem_view_def wrong_type_reply_def split: option.splits mem_value.splits)
qed (auto simp: mem_present_view mem_view_update mem_set_view wrong_type_reply_def mem_set_distinct
    insert_absorb split: if_splits option.splits)

interpretation mem: reliable_redis mem_exec mem_view
  by unfold_locales (use mem_exec_law in blast)+

end
