(* ===== verification/Redis_Connector.thy ===== *)
theory Redis_Connector
  imports Redis_Client
begin

text \<open>
  The global connection registry in Redis (\<open>internal/controller/redis_connector.go\<close>). A
  connection of node \<open>nodeID\<close> of \<open>account\<close> to the gateway pod \<open>hostname\<close> is the key
  \<open>account:nodeID\<close> with the host as its value, and a member of three index sets: all connections,
  the account's and the pod's.

  The specification is a partial function \<open>R\<close> from account and node to host; \<open>registry v R\<close> says
  that the state \<open>v\<close> of Redis represents it.
\<close>

subsection \<open>The operations\<close>

datatype conn_error = DuplicateConnectionError | RedisError redis_err

definition allConnectionsKey :: string where
  "allConnectionsKey = ''connections''"

definition getConnectionKey :: "string \<Rightarrow> string \<Rightarrow> string" where
  "getConnectionKey account nodeID = account @ '':'' @ nodeID"

definition getAllConnectionsIndexVal :: "string \<Rightarrow> string \<Rightarrow> string \<Rightarrow> string" where
  "getAllConnectionsIndexVal account nodeID hostname = account @ '':'' @ nodeID @ '':'' @ hostname"

definition getAccountIndexVal :: "string \<Rightarrow> string \<Rightarrow> string" where
  "getAccountIndexVal nodeID hostname = nodeID @ '':'' @ hostname"

definition getPodIndexVal :: "string \<Rightarrow> string \<Rightarrow> string" where
  "getPodIndexVal account nodeID = account @ '':'' @ nodeID"

text \<open>The errors of these commands are not looked at.\<close>

definition addIndexes :: "string \<Rightarrow> string \<Rightarrow> string \<Rightarrow> ('s, unit) prog" where
  "addIndexes account nodeID hostname =
     pbind (redis (SAdd allConnectionsKey (getAllConnectionsIndexVal account nodeID hostname))) (\<lambda>_.
     pbind (redis (SAdd account (getAccountIndexVal nodeID hostname))) (\<lambda>_.
     pbind (redis (SAdd hostname (getPodIndexVal account nodeID))) (\<lambda>_. Ret ())))"

definition removeIndexes :: "string \<Rightarrow> string \<Rightarrow> string \<Rightarrow> ('s, unit) prog" where
  "removeIndexes account nodeID hostname =
     pbind (redis (SRem allConnectionsKey (getAllConnectionsIndexVal account nodeID hostname))) (\<lambda>_.
     pbind (redis (SRem account (getAccountIndexVal nodeID hostname))) (\<lambda>_.
     pbind (redis (SRem hostname (getPodIndexVal account nodeID))) (\<lambda>_. Ret ())))"

definition ExistsInRedis :: "string \<Rightarrow> string \<Rightarrow> ('s, bool) prog" where
  "ExistsInRedis account nodeID =
     pbind (redis (Exists (getPodIndexVal account nodeID))) (\<lambda>r. Ret (int_Val r \<noteq> 0))"

definition RegisterWithRedis :: "string \<Rightarrow> string \<Rightarrow> string \<Rightarrow> ('s, conn_error option) prog" where
  "RegisterWithRedis account nodeID hostname =
     pbind
       (TxPipelined
         (pbind (redis (SetNX (getConnectionKey account nodeID) hostname)) (\<lambda>r.
            case bool_Result r of (res, regErr) \<Rightarrow>
              pbind (if res then addIndexes account nodeID hostname else Ret ()) (\<lambda>_.
                Ret (res, regErr)))))
       (\<lambda>(res, err). case err of
          Some e \<Rightarrow> Ret (Some (RedisError e))
        | None \<Rightarrow> Ret (if \<not> res then Some DuplicateConnectionError else None))"

definition UnregisterWithRedis :: "string \<Rightarrow> string \<Rightarrow> string \<Rightarrow> ('s, unit) prog" where
  "UnregisterWithRedis account nodeID hostname =
     pbind
       (TxPipelined
         (pbind (redis (Del (getConnectionKey account nodeID))) (\<lambda>_.
          pbind (removeIndexes account nodeID hostname) (\<lambda>_. Ret ((), None)))))
       (\<lambda>_. Ret ())"

definition GetRedisConnection :: "string \<Rightarrow> string \<Rightarrow> ('s, string \<times> redis_err option) prog" where
  "GetRedisConnection account nodeID =
     pbind (redis (Get (getConnectionKey account nodeID))) (\<lambda>r. Ret (string_Result r))"

text \<open>The listings split the index members at the colons. An index expression out of range is a
  run-time panic.\<close>

fun accountConnectionsMap :: "string list \<Rightarrow> (string, string) gomap \<Rightarrow> (redis_err, (string, string) gomap) outcome" where
  "accountConnectionsMap [] m = Ok m"
| "accountConnectionsMap (conn # conns) m =
     (case split_on (CHR '':'') conn of
        s0 # s1 # _ \<Rightarrow> accountConnectionsMap conns (AList.update s0 s1 m)
      | _ \<Rightarrow> Panic)"

definition GetRedisConnectionsByAccount ::
  "string \<Rightarrow> ('s, (redis_err, (string, string) gomap) outcome) prog" where
  "GetRedisConnectionsByAccount account =
     pbind (redis (SMembers account)) (\<lambda>r.
       case list_Result r of (accountConnections, err) \<Rightarrow>
         (case err of Some e \<Rightarrow> Ret (Err e) | None \<Rightarrow> Ret (accountConnectionsMap accountConnections [])))"

fun hostConnectionsMap ::
  "string list \<Rightarrow> (string, string list) gomap \<Rightarrow> (redis_err, (string, string list) gomap) outcome" where
  "hostConnectionsMap [] m = Ok m"
| "hostConnectionsMap (conn # conns) m =
     (case split_on (CHR '':'') conn of
        account # nodeID # _ \<Rightarrow>
          hostConnectionsMap conns
            (case map_of m account of
               None \<Rightarrow> AList.update account [nodeID] m
             | Some ns \<Rightarrow> AList.update account (ns @ [nodeID]) m)
      | _ \<Rightarrow> Panic)"

definition GetRedisConnectionsByHost ::
  "string \<Rightarrow> ('s, (redis_err, (string, string list) gomap) outcome) prog" where
  "GetRedisConnectionsByHost hostname =
     pbind (redis (SMembers hostname)) (\<lambda>r.
       case list_Result r of (podConnections, err) \<Rightarrow>
         (case err of Some e \<Rightarrow> Ret (Err e) | None \<Rightarrow> Ret (hostConnectionsMap podConnections [])))"

fun allConnectionsMap ::
  "string list \<Rightarrow> (string, (string, string) gomap) gomap \<Rightarrow>
   (redis_err, (string, (string, string) gomap) gomap) outcome" where
  "allConnectionsMap [] m = Ok m"
| "allConnectionsMap (conn # conns) m =
     (case split_on (CHR '':'') conn of
        account # nodeID # hostname # _ \<Rightarrow>
          allConnectionsMap conns
            (case map_of m account of
               None \<Rightarrow> AList.update account [(nodeID, hostname)] m
             | Some nodes \<Rightarrow> AList.update account (AList.update nodeID hostname nodes) m)
      | _ \<Rightarrow> Panic)"

definition GetAllRedisConnections ::
  "('s, (redis_err, (string, (string, string) gomap) gomap) outcome) prog" where
  "GetAllRedisConnections =
     pbind (redis (SMembers allConnectionsKey)) (\<lambda>r.
       case list_Result r of (allConnections, err) \<Rightarrow>
         (case err of Some e \<Rightarrow> Ret (Err e) | None \<Rightarrow> Ret (allConnectionsMap allConnections [])))"

subsection \<open>The specification\<close>

text \<open>Accounts are numbers, pods are named by dotted addresses, node ids have no colon. Under these
  conventions no key is used for two purposes and every index member splits back.\<close>

definition valid_account :: "string \<Rightarrow> bool" where
  "valid_account a \<longleftrightarrow> a \<noteq> [] \<and> (\<forall>c \<in> set a. 48 \<le> (of_char c :: nat) \<and> (of_char c :: nat) \<le> 57)"

definition valid_node :: "string \<Rightarrow> bool" where
  "valid_node n \<longleftrightarrow> CHR '':'' \<notin> set n"

definition valid_host :: "string \<Rightarrow> bool" where
  "valid_host h \<longleftrightarrow> CHR '':'' \<notin> set h \<and> CHR ''.'' \<in> set h"

type_synonym registry_spec = "string \<times> string \<Rightarrow> string option"

definition valid_registry :: "registry_spec \<Rightarrow> bool" where
  "valid_registry R \<longleftrightarrow>
     (\<forall>a n h. R (a, n) = Some h \<longrightarrow> valid_account a \<and> valid_node n \<and> valid_host h)"

definition all_index :: "registry_spec \<Rightarrow> string set" where
  "all_index R = {getAllConnectionsIndexVal a n h | a n h. R (a, n) = Some h}"

definition account_index :: "registry_spec \<Rightarrow> string \<Rightarrow> string set" where
  "account_index R a = {getAccountIndexVal n h | n h. R (a, n) = Some h}"

definition pod_index :: "registry_spec \<Rightarrow> string \<Rightarrow> string set" where
  "pod_index R h = {getPodIndexVal a n | a n. R (a, n) = Some h}"

definition registry :: "redis_view \<Rightarrow> registry_spec \<Rightarrow> bool" where
  "registry v R \<longleftrightarrow> valid_registry R \<and>
     (\<forall>a n. valid_account a \<and> valid_node n \<longrightarrow> v (getConnectionKey a n) = map_option VStr (R (a, n))) \<and>
     set_at v allConnectionsKey = Some (all_index R) \<and>
     (\<forall>a. valid_account a \<longrightarrow> set_at v a = Some (account_index R a)) \<and>
     (\<forall>h. valid_host h \<longrightarrow> set_at v h = Some (pod_index R h))"

subsection \<open>Keys\<close>

lemmas key_defs = allConnectionsKey_def getConnectionKey_def getAllConnectionsIndexVal_def
  getAccountIndexVal_def getPodIndexVal_def

lemma valid_account_chars: "valid_account a \<Longrightarrow> CHR '':'' \<notin> set a \<and> CHR ''.'' \<notin> set a"
  by (auto simp: valid_account_def)

lemma valid_account_hd: "valid_account a \<Longrightarrow> hd a \<noteq> CHR ''c''"
  by (cases a) (auto simp: valid_account_def)

lemma keys_differ:
  "valid_account a \<Longrightarrow> a \<noteq> allConnectionsKey"
  "valid_host h \<Longrightarrow> h \<noteq> allConnectionsKey"
  "valid_account a \<Longrightarrow> valid_host h \<Longrightarrow> a \<noteq> h"
  "getConnectionKey a n \<noteq> allConnectionsKey"
  "valid_account a' \<Longrightarrow> getConnectionKey a n \<noteq> a'"
  "valid_host h \<Longrightarrow> getConnectionKey a n \<noteq> h"
proof -
  show "valid_account a \<Longrightarrow> a \<noteq> allConnectionsKey" using valid_account_hd [of a] by (auto simp: key_defs)
  show "valid_host h \<Longrightarrow> h \<noteq> allConnectionsKey" by (auto simp: valid_host_def key_defs)
  show "valid_account a \<Longrightarrow> valid_host h \<Longrightarrow> a \<noteq> h"
    using valid_account_chars by (auto simp: valid_host_def)
  have "CHR '':'' \<in> set (getConnectionKey a n)" by (simp add: key_defs)
  then show "getConnectionKey a n \<noteq> allConnectionsKey" "valid_account a' \<Longrightarrow> getConnectionKey a n \<noteq> a'"
    "valid_host h \<Longrightarrow> getConnectionKey a n \<noteq> h"
    using valid_account_chars by (auto simp: valid_host_def allConnectionsKey_def)
qed

lemmas keys_differ' = keys_differ keys_differ [symmetric]

lemma key_inj:
  "valid_account a \<Longrightarrow> valid_account a' \<Longrightarrow> getConnectionKey a n = getConnectionKey a' n' \<longleftrightarrow> a = a' \<and> n = n'"
  by (simp add: key_defs valid_account_chars)

lemma index_inj:
  "valid_account a \<Longrightarrow> valid_account a' \<Longrightarrow> valid_node n \<Longrightarrow> valid_node n' \<Longrightarrow>
     getAllConnectionsIndexVal a n h = getAllConnectionsIndexVal a' n' h' \<longleftrightarrow> a = a' \<and> n = n' \<and> h = h'"
  "valid_node n \<Longrightarrow> valid_node n' \<Longrightarrow> getAccountIndexVal n h = getAccountIndexVal n' h' \<longleftrightarrow> n = n' \<and> h = h'"
  "valid_account a \<Longrightarrow> valid_account a' \<Longrightarrow> getPodIndexVal a n = getPodIndexVal a' n' \<longleftrightarrow> a = a' \<and> n = n'"
  by (simp_all add: key_defs valid_account_chars valid_node_def)

subsection \<open>The indexes of an updated registry\<close>

lemma set_at_simps [simp]:
  "set_at (put_set v k S) k' = (if k' = k then Some S else set_at v k')"
  "k' \<noteq> k \<Longrightarrow> set_at (v(k := x)) k' = set_at v k'"
  "k' \<noteq> k \<Longrightarrow> put_set v k S k' = v k'"
  by (auto simp: set_at_def put_set_def)

lemma index_insert:
  assumes "R (a, n) = None"
  shows "all_index (R((a, n) \<mapsto> h)) = insert (getAllConnectionsIndexVal a n h) (all_index R)"
    "account_index (R((a, n) \<mapsto> h)) a' =
      (if a' = a then insert (getAccountIndexVal n h) (account_index R a) else account_index R a')"
    "pod_index (R((a, n) \<mapsto> h)) h' =
      (if h' = h then insert (getPodIndexVal a n) (pod_index R h) else pod_index R h')"
  using assms by (auto simp: all_index_def account_index_def pod_index_def) (metis option.distinct(1))+

lemma index_mem:
  "x \<in> all_index R \<longleftrightarrow> (\<exists>a n h. R (a, n) = Some h \<and> x = getAllConnectionsIndexVal a n h)"
  "x \<in> account_index R a \<longleftrightarrow> (\<exists>n h. R (a, n) = Some h \<and> x = getAccountIndexVal n h)"
  "x \<in> pod_index R h \<longleftrightarrow> (\<exists>a n. R (a, n) = Some h \<and> x = getPodIndexVal a n)"
  by (auto simp: all_index_def account_index_def pod_index_def)

lemma upd_None: "(R((a, n) := None)) (a', n') = Some h \<longleftrightarrow> R (a', n') = Some h \<and> \<not> (a' = a \<and> n' = n)"
  by auto

lemma index_delete:
  assumes R: "valid_registry R" "R (a, n) = Some h"
  shows "all_index (R((a, n) := None)) = all_index R - {getAllConnectionsIndexVal a n h}"
    "account_index (R((a, n) := None)) a' =
      (if a' = a then account_index R a - {getAccountIndexVal n h} else account_index R a')"
    "pod_index (R((a, n) := None)) h' =
      (if h' = h then pod_index R h - {getPodIndexVal a n} else pod_index R h')"
proof -
  have wf: "valid_account a'" "valid_node n'" if "R (a', n') = Some h'" for a' n' h'
    using R(1) that unfolding valid_registry_def by blast+
  show "all_index (R((a, n) := None)) = all_index R - {getAllConnectionsIndexVal a n h}"
  proof (rule set_eqI)
    fix x
    show "x \<in> all_index (R((a, n) := None)) \<longleftrightarrow> x \<in> all_index R - {getAllConnectionsIndexVal a n h}"
      unfolding index_mem upd_None Diff_iff singleton_iff using wf R(2) index_inj(1) by (metis option.inject)
  qed
  show "account_index (R((a, n) := None)) a' =
      (if a' = a then account_index R a - {getAccountIndexVal n h} else account_index R a')"
  proof (rule set_eqI)
    fix x
    show "x \<in> account_index (R((a, n) := None)) a' \<longleftrightarrow>
        x \<in> (if a' = a then account_index R a - {getAccountIndexVal n h} else account_index R a')"
      using wf R(2) index_inj(2) by (simp add: index_mem upd_None del: fun_upd_apply) (metis option.inject)
  qed
  show "pod_index (R((a, n) := None)) h' =
      (if h' = h then pod_index R h - {getPodIndexVal a n} else pod_index R h')"
  proof (rule set_eqI)
    fix x
    show "x \<in> pod_index (R((a, n) := None)) h' \<longleftrightarrow>
        x \<in> (if h' = h then pod_index R h - {getPodIndexVal a n} else pod_index R h')"
      using wf R(2) index_inj(3) by (simp add: index_mem upd_None del: fun_upd_apply) (metis option.inject)
  qed
qed


subsection \<open>The registry under the operations\<close>

text \<open>The state after the commands of a registration and of an unregistration.\<close>

definition registered :: "redis_view \<Rightarrow> string \<Rightarrow> string \<Rightarrow> string \<Rightarrow> redis_view" where
  "registered v a n h = foldl redis_effect v
     [SetNX (getConnectionKey a n) h, SAdd allConnectionsKey (getAllConnectionsIndexVal a n h),
      SAdd a (getAccountIndexVal n h), SAdd h (getPodIndexVal a n)]"

definition unregistered :: "redis_view \<Rightarrow> string \<Rightarrow> string \<Rightarrow> string \<Rightarrow> redis_view" where
  "unregistered v a n h = foldl redis_effect v
     [Del (getConnectionKey a n), SRem allConnectionsKey (getAllConnectionsIndexVal a n h),
      SRem a (getAccountIndexVal n h), SRem h (getPodIndexVal a n)]"

lemma registry_registered:
  assumes "registry v R" "R (a, n) = None" "valid_account a" "valid_node n" "valid_host h"
  shows "registry (registered v a n h) (R((a, n) \<mapsto> h))"
  using assms
  by (simp add: registry_def registered_def keys_differ' index_insert key_inj valid_registry_def)

lemma registry_unregistered:
  assumes "registry v R" "R (a, n) = Some h"
  shows "registry (unregistered v a n h) (R((a, n) := None))"
  using assms
  by (simp add: registry_def unregistered_def keys_differ' index_delete key_inj valid_registry_def)


lemma index_absent:
  assumes "valid_registry R" "R (a, n) = None" "valid_account a" "valid_node n"
  shows "getAllConnectionsIndexVal a n h \<notin> all_index R"
    "getAccountIndexVal n h \<notin> account_index R a" "getPodIndexVal a n \<notin> pod_index R h"
  using assms index_inj unfolding index_mem valid_registry_def by (metis option.distinct(1))+

lemma registry_unregistered_absent:
  assumes "registry v R" "R (a, n) = None" "valid_account a" "valid_node n" "valid_host h"
  shows "registry (unregistered v a n h) R"
proof -
  have "valid_registry R" using assms(1) by (simp add: registry_def)
  note absent = index_absent [OF this assms(2-4)]
  from assms show ?thesis
    by (simp add: registry_def unregistered_def keys_differ' absent key_inj)
qed

context reliable_redis
begin

lemma run_RegisterWithRedis:
  "run exec (RegisterWithRedis a n h) s w = (res, s', w') \<Longrightarrow>
   s' = s \<and> (if view w (getConnectionKey a n) = None
     then res = None \<and> view w' = registered (view w) a n h
     else res = Some DuplicateConnectionError \<and> view w' = view w)"
  by (auto simp: RegisterWithRedis_def TxPipelined_def addIndexes_def registered_def bool_Result_def
      reply_err_def split: prod.splits if_splits dest!: reliable)

lemma run_UnregisterWithRedis:
  "run exec (UnregisterWithRedis a n h) s w = (u, s', w') \<Longrightarrow>
   s' = s \<and> view w' = unregistered (view w) a n h"
  by (auto simp: UnregisterWithRedis_def TxPipelined_def removeIndexes_def unregistered_def
      reply_err_def split: prod.splits dest!: reliable)

lemma run_ExistsInRedis:
  "run exec (ExistsInRedis a n) s w = (b, s', w') \<Longrightarrow>
   s' = s \<and> view w' = view w \<and> (b \<longleftrightarrow> view w (getPodIndexVal a n) \<noteq> None)"
  by (auto simp: ExistsInRedis_def int_Val_def split: prod.splits if_splits dest!: reliable)

lemma run_GetRedisConnection:
  assumes "run exec (GetRedisConnection a n) s w = (res, s', w')"
    "view w (getConnectionKey a n) = map_option VStr x"
  shows "s' = s \<and> view w' = view w \<and>
   res = (case x of None \<Rightarrow> ([], Some RedisNil) | Some h \<Rightarrow> (h, None))"
  using assms
  by (auto simp: GetRedisConnection_def string_Result_def split: prod.splits option.splits dest!: reliable)

lemma run_SMembers:
  assumes "exec w (SMembers k) = (r, w')" "set_at (view w) k = Some S"
  shows "view w' = view w \<and> (\<exists>l. list_Result r = (l, None) \<and> set l = S \<and> distinct l)"
  using reliable [OF assms(1)] assms(2) by (auto simp: list_Result_def)

end

subsection \<open>Listings\<close>

lemma split_index:
  assumes "valid_account a" "valid_node n" "valid_host h"
  shows "split_on (CHR '':'') (getAllConnectionsIndexVal a n h) = [a, n, h]"
    "split_on (CHR '':'') (getAccountIndexVal n h) = [n, h]"
    "split_on (CHR '':'') (getPodIndexVal a n) = [a, n]"
  using assms valid_account_chars [of a]
  by (simp_all add: key_defs valid_node_def valid_host_def)

lemma nested_update:
  "nested_lookup
     (case map_of m a of
        None \<Rightarrow> AList.update a [(n, h)] m
      | Some i \<Rightarrow> AList.update a (AList.update n h i) m) = (nested_lookup m)((a, n) \<mapsto> h)"
  by (auto simp: nested_lookup_def fun_eq_iff update_conv' split: option.splits)

lemma allConnectionsMap_spec:
  assumes "valid_registry R" "set l \<subseteq> all_index R"
  shows "\<exists>m. allConnectionsMap l m0 = Ok m \<and>
    (\<forall>a n. nested_lookup m (a, n) =
      (if \<exists>h. R (a, n) = Some h \<and> getAllConnectionsIndexVal a n h \<in> set l then R (a, n)
       else nested_lookup m0 (a, n)))"
  using assms(2)
proof (induction l arbitrary: m0)
  case (Cons x l)
  from Cons.prems obtain a n h where x: "R (a, n) = Some h" "x = getAllConnectionsIndexVal a n h"
    by (auto simp: index_mem)
  with assms(1) have v: "valid_account a" "valid_node n" "valid_host h"
    by (auto simp: valid_registry_def)
  define m1 where "m1 = (case map_of m0 a of
        None \<Rightarrow> AList.update a [(n, h)] m0
      | Some i \<Rightarrow> AList.update a (AList.update n h i) m0)"
  have "allConnectionsMap (x # l) m0 = allConnectionsMap l m1"
    unfolding x(2) m1_def by (simp add: split_index v)
  moreover obtain m where m: "allConnectionsMap l m1 = Ok m" and
    look: "\<And>a n. nested_lookup m (a, n) =
      (if \<exists>h. R (a, n) = Some h \<and> getAllConnectionsIndexVal a n h \<in> set l then R (a, n)
       else nested_lookup m1 (a, n))"
    using Cons.IH [of m1] Cons.prems by auto
  moreover have "nested_lookup m (a', n') =
      (if \<exists>h. R (a', n') = Some h \<and> getAllConnectionsIndexVal a' n' h \<in> set (x # l) then R (a', n')
       else nested_lookup m0 (a', n'))" for a' n'
    using look [of a' n'] x(1) v index_inj(1) assms(1) unfolding m1_def nested_update valid_registry_def
    by (auto simp: x(2))
  ultimately show ?case by auto
qed simp


lemma accountConnectionsMap_spec:
  assumes "valid_registry R" "set l \<subseteq> account_index R a"
  shows "\<exists>m. accountConnectionsMap l m0 = Ok m \<and>
    (\<forall>n. map_of m n = (if \<exists>h. R (a, n) = Some h \<and> getAccountIndexVal n h \<in> set l then R (a, n)
       else map_of m0 n))"
  using assms(2)
proof (induction l arbitrary: m0)
  case (Cons x l)
  from Cons.prems obtain n h where x: "R (a, n) = Some h" "x = getAccountIndexVal n h"
    by (auto simp: index_mem)
  with assms(1) have v: "valid_account a" "valid_node n" "valid_host h"
    by (auto simp: valid_registry_def)
  define m1 where "m1 = AList.update n h m0"
  have "accountConnectionsMap (x # l) m0 = accountConnectionsMap l m1"
    unfolding x(2) m1_def by (simp add: split_index(2) [OF v])
  moreover obtain m where m: "accountConnectionsMap l m1 = Ok m" and
    look: "\<And>n. map_of m n = (if \<exists>h. R (a, n) = Some h \<and> getAccountIndexVal n h \<in> set l then R (a, n)
       else map_of m1 n)"
    using Cons.IH [of m1] Cons.prems by auto
  moreover have "map_of m n' =
      (if \<exists>h. R (a, n') = Some h \<and> getAccountIndexVal n' h \<in> set (x # l) then R (a, n')
       else map_of m0 n')" for n'
    using look [of n'] x(1) v index_inj(2) assms(1) unfolding m1_def update_conv' valid_registry_def
    by (auto simp: x(2))
  ultimately show ?case by auto
qed simp

definition nodes_of :: "(string, string list) gomap \<Rightarrow> string \<Rightarrow> string list" where
  "nodes_of m a = (case map_of m a of None \<Rightarrow> [] | Some ns \<Rightarrow> ns)"

lemma nodes_update:
  "nodes_of (case map_of m a of None \<Rightarrow> AList.update a [n] m | Some ns \<Rightarrow> AList.update a (ns @ [n]) m) a' =
     (if a' = a then nodes_of m a @ [n] else nodes_of m a')"
  by (auto simp: nodes_of_def update_conv' split: option.splits)

lemma hostConnectionsMap_spec:
  assumes "valid_registry R" "set l \<subseteq> pod_index R h" "distinct l" "valid_host h"
  shows "\<exists>m. hostConnectionsMap l m0 = Ok m \<and>
    (\<forall>a. valid_account a \<longrightarrow> (\<exists>ns. nodes_of m a = nodes_of m0 a @ ns \<and> distinct ns \<and>
        set ns = {n. getPodIndexVal a n \<in> set l}))"
  using assms(2,3)
proof (induction l arbitrary: m0)
  case (Cons x l)
  from Cons.prems obtain a n where x: "R (a, n) = Some h" "x = getPodIndexVal a n"
    by (auto simp: index_mem)
  with assms(1) have v: "valid_account a" "valid_node n"
    by (auto simp: valid_registry_def)
  define m1 where "m1 = (case map_of m0 a of None \<Rightarrow> AList.update a [n] m0
      | Some ns \<Rightarrow> AList.update a (ns @ [n]) m0)"
  have "hostConnectionsMap (x # l) m0 = hostConnectionsMap l m1"
    unfolding x(2) m1_def by (simp add: split_index(3) [OF v assms(4)])
  moreover obtain m where m: "hostConnectionsMap l m1 = Ok m" and
    look: "\<And>a. valid_account a \<Longrightarrow> \<exists>ns. nodes_of m a = nodes_of m1 a @ ns \<and> distinct ns \<and>
        set ns = {n. getPodIndexVal a n \<in> set l}"
    using Cons.IH [of m1] Cons.prems by auto
  moreover have "\<exists>ns. nodes_of m a' = nodes_of m0 a' @ ns \<and> distinct ns \<and>
        set ns = {n. getPodIndexVal a' n \<in> set (x # l)}" if a': "valid_account a'" for a'
  proof -
    from look [OF a'] obtain ns where ns: "nodes_of m a' = nodes_of m1 a' @ ns" "distinct ns"
      "set ns = {n. getPodIndexVal a' n \<in> set l}" by blast
    show ?thesis
    proof (cases "a' = a")
      case True
      have "n \<notin> set ns" using ns(3) Cons.prems(2) by (auto simp: x(2) True)
      then have "nodes_of m a' = nodes_of m0 a' @ (n # ns)" "distinct (n # ns)"
        "set (n # ns) = {n. getPodIndexVal a' n \<in> set (x # l)}"
        using ns True index_inj(3) [OF v(1) v(1)] unfolding m1_def nodes_update by (auto simp: x(2))
      then show ?thesis by blast
    next
      case False
      then have "set ns = {n. getPodIndexVal a' n \<in> set (x # l)}" "nodes_of m1 a' = nodes_of m0 a'"
        using ns(3) index_inj(3) [OF a' v(1)] by (auto simp: x(2) m1_def nodes_update)
      with ns show ?thesis by auto
    qed
  qed
  ultimately show ?case by auto
qed auto

lemma mem_index:
  assumes "valid_registry R" "R (a, n) = Some h"
  shows "getAllConnectionsIndexVal a n h \<in> all_index R" "getAccountIndexVal n h \<in> account_index R a"
  using assms by (auto simp: index_mem)

context reliable_redis
begin

lemma run_GetAllRedisConnections:
  assumes v: "valid_registry R" "set_at (view w) allConnectionsKey = Some (all_index R)"
    and run: "run exec GetAllRedisConnections s w = (res, s', w')"
  shows "s' = s \<and> view w' = view w \<and> (\<exists>m. res = Ok m \<and> nested_lookup m = R)"
proof -
  obtain r w1 where e: "exec w (SMembers allConnectionsKey) = (r, w1)" by fastforce
  obtain l where l: "view w1 = view w" "list_Result r = (l, None)" "set l = all_index R"
    using run_SMembers [OF e v(2)] by blast
  obtain m where m: "allConnectionsMap l [] = Ok m" and
    look: "\<And>a n. nested_lookup m (a, n) =
      (if \<exists>h. R (a, n) = Some h \<and> getAllConnectionsIndexVal a n h \<in> set l then R (a, n)
       else nested_lookup [] (a, n))"
    using allConnectionsMap_spec [OF v(1), of l "[]"] l(3) by auto
  have "nested_lookup m (a, n) = R (a, n)" for a n
    using look [of a n] mem_index [OF v(1)] l(3) by (cases "R (a, n)") (auto simp: nested_lookup_def)
  then have "nested_lookup m = R" by auto
  moreover have "res = Ok m" "s' = s" "w' = w1"
    using run e l(2) m by (simp_all add: GetAllRedisConnections_def)
  ultimately show ?thesis using l(1) by blast
qed

lemma run_GetRedisConnectionsByAccount:
  assumes "registry (view w) R" "valid_account a" "run exec (GetRedisConnectionsByAccount a) s w = (res, s', w')"
  shows "s' = s \<and> view w' = view w \<and> (\<exists>m. res = Ok m \<and> (\<forall>n. map_of m n = R (a, n)))"
proof -
  obtain r w1 where e: "exec w (SMembers a) = (r, w1)" by fastforce
  from assms(1,2) have v: "valid_registry R" "set_at (view w) a = Some (account_index R a)"
    by (auto simp: registry_def)
  obtain l where l: "view w1 = view w" "list_Result r = (l, None)" "set l = account_index R a"
    using run_SMembers [OF e v(2)] by blast
  obtain m where m: "accountConnectionsMap l [] = Ok m" and
    look: "\<And>n. map_of m n = (if \<exists>h. R (a, n) = Some h \<and> getAccountIndexVal n h \<in> set l then R (a, n)
       else map_of [] n)"
    using accountConnectionsMap_spec [OF v(1), of l a "[]"] l(3) by auto
  have "map_of m n = R (a, n)" for n
    using look [of n] mem_index [OF v(1)] l(3) by (cases "R (a, n)") auto
  moreover have "res = Ok m" "s' = s" "w' = w1"
    using assms(3) e l(2) m by (simp_all add: GetRedisConnectionsByAccount_def)
  ultimately show ?thesis using l(1) by blast
qed

lemma run_GetRedisConnectionsByHost:
  assumes "registry (view w) R" "valid_host h" "run exec (GetRedisConnectionsByHost h) s w = (res, s', w')"
  shows "s' = s \<and> view w' = view w \<and> (\<exists>m. res = Ok m \<and>
    (\<forall>a. valid_account a \<longrightarrow> distinct (nodes_of m a) \<and> set (nodes_of m a) = {n. R (a, n) = Some h}))"
proof -
  obtain r w1 where e: "exec w (SMembers h) = (r, w1)" by fastforce
  from assms(1,2) have v: "valid_registry R" "set_at (view w) h = Some (pod_index R h)"
    by (auto simp: registry_def)
  obtain l where l: "view w1 = view w" "list_Result r = (l, None)" "set l = pod_index R h" "distinct l"
    using run_SMembers [OF e v(2)] by blast
  obtain m where m: "hostConnectionsMap l [] = Ok m" and
    look: "\<And>a. valid_account a \<Longrightarrow> \<exists>ns. nodes_of m a = nodes_of [] a @ ns \<and> distinct ns \<and>
        set ns = {n. getPodIndexVal a n \<in> set l}"
    using hostConnectionsMap_spec [OF v(1) _ l(4) assms(2), of "[]"] l(3) by auto
  have "distinct (nodes_of m a) \<and> set (nodes_of m a) = {n. R (a, n) = Some h}" if a: "valid_account a" for a
  proof -
    have "getPodIndexVal a n \<in> pod_index R h \<longleftrightarrow> R (a, n) = Some h" for n
      using v(1) a index_inj(3) unfolding index_mem valid_registry_def by metis
    with look [OF a] l(3) show ?thesis by (auto simp: nodes_of_def)
  qed
  moreover have "res = Ok m" "s' = s" "w' = w1"
    using assms(3) e l(2) m by (simp_all add: GetRedisConnectionsByHost_def)
  ultimately show ?thesis using l(1) by blast
qed

end

subsection \<open>Registration under failures and interleaving\<close>

text \<open>A registration is one \<open>SetNX\<close> and, after it, commands on other keys.\<close>

definition register_tail :: "string \<Rightarrow> string \<Rightarrow> string \<Rightarrow> redis_reply \<Rightarrow> ('s, conn_error option) prog" where
  "register_tail a n h r =
     (case bool_Result r of (res, regErr) \<Rightarrow>
        pbind (if res then addIndexes a n h else Ret ()) (\<lambda>_.
          case regErr of
            Some e \<Rightarrow> Ret (Some (RedisError e))
          | None \<Rightarrow> pbind (redis TxExec) (\<lambda>t.
              case reply_err t of
                Some e \<Rightarrow> Ret (Some (RedisError e))
              | None \<Rightarrow> Ret (if \<not> res then Some DuplicateConnectionError else None))))"

lemma RegisterWithRedis_eq:
  "RegisterWithRedis a n h = Redis (SetNX (getConnectionKey a n) h) (register_tail a n h)"
  by (auto simp: RegisterWithRedis_def TxPipelined_def register_tail_def redis_def pbind_assoc fun_eq_iff
      split: prod.splits option.splits intro!: arg_cong2 [where f = pbind])

definition leaves :: "string \<Rightarrow> redis_cmd \<Rightarrow> bool" where
  "leaves k c \<longleftrightarrow> (\<forall>v. redis_effect v c k = v k)"

lemma addIndexes_leaves:
  assumes "valid_account a" "valid_host h"
  shows "cmds_all (leaves (getConnectionKey a' n')) (addIndexes a n h)"
  using assms by (simp add: addIndexes_def leaves_def keys_differ' put_set_def split: option.split)

lemma register_tail_leaves:
  assumes "valid_account a" "valid_host h"
  shows "cmds_all (leaves (getConnectionKey a' n')) (register_tail a n h r)"
  using addIndexes_leaves [OF assms]
  by (auto simp: register_tail_def leaves_def split: prod.splits option.splits intro!: cmds_all_pbind)

lemma SetNX_not_leaves: "\<not> leaves k (SetNX k x)"
  by (auto simp: leaves_def intro!: exI [of _ Map.empty])

lemma register_tail_loses:
  "r \<noteq> BoolReply True \<Longrightarrow> returns_all (\<lambda>e. e \<noteq> None) (register_tail a n h r)"
  by (cases r) (auto simp: register_tail_def bool_Result_def redis_def reply_err_def split: option.splits)


text \<open>The registrations of one node by several goroutines (\<open>regs\<close>), among others that leave its key
  alone. At any time there is at most one winner; every other registration has still to start or
  can only fail.\<close>

definition thread_ok ::
  "string \<Rightarrow> string \<Rightarrow> (nat \<Rightarrow> string) \<Rightarrow> nat set \<Rightarrow> nat option \<Rightarrow> nat \<Rightarrow> ('s, conn_error option) prog \<Rightarrow> bool" where
  "thread_ok a n h regs win i p \<longleftrightarrow>
     (i \<in> regs \<and> win \<noteq> Some i \<and> p = RegisterWithRedis a n (h i)) \<or>
     (cmds_all (leaves (getConnectionKey a n)) p \<and>
      (i \<in> regs \<longrightarrow> win \<noteq> Some i \<longrightarrow> returns_all (\<lambda>e. e \<noteq> None) p))"

lemma all_threads_update:
  assumes "\<And>j. j < length ts \<Longrightarrow> j \<noteq> i \<Longrightarrow> Q j (snd (ts ! j))" "Q i (snd x)"
  shows "\<forall>j < length (ts[i := x]). Q j (snd (ts[i := x] ! j))"
proof (intro allI impI)
  fix j
  assume "j < length (ts[i := x])"
  then show "Q j (snd (ts[i := x] ! j))" using assms by (cases "j = i") auto
qed

context redis_server
begin

lemma SetNX_view:
  assumes "exec w (SetNX k x) = (r, w')"
  shows "view w k \<noteq> None \<Longrightarrow> view w' k = view w k"
    "r = BoolReply True \<Longrightarrow> view w k = None \<and> view w' k = Some (VStr x)"
  using exec_law [OF assms] by (auto split: if_splits)

lemma leaves_view: "exec w c = (r, w') \<Longrightarrow> leaves k c \<Longrightarrow> view w' k = view w k"
  using exec_view unfolding leaves_def by metis

lemma register_safe:
  assumes "run exec (RegisterWithRedis a n h) s w = (res, s', w')" "valid_account a" "valid_host h"
  shows "view w (getConnectionKey a n) = Some x \<Longrightarrow> view w' (getConnectionKey a n) = Some x \<and> res \<noteq> None"
    "res = None \<Longrightarrow> view w (getConnectionKey a n) = None \<and> view w' (getConnectionKey a n) = Some (VStr h)"
proof -
  let ?k = "getConnectionKey a n"
  obtain r w1 where e: "exec w (SetNX ?k h) = (r, w1)" by fastforce
  with assms(1) have tail: "run exec (register_tail a n h r) s w1 = (res, s', w')"
    by (simp add: RegisterWithRedis_eq)
  have key: "view w' ?k = view w1 ?k"
    using run_frame [OF tail] register_tail_leaves [OF assms(2,3)] unfolding leaves_def by blast
  have won: "r = BoolReply True" if "res = None"
  proof (rule ccontr)
    assume "r \<noteq> BoolReply True"
    then show False using run_returns [OF tail register_tail_loses] that by blast
  qed
  show "view w ?k = Some x \<Longrightarrow> view w' ?k = Some x \<and> res \<noteq> None"
    using key SetNX_view [OF e] won by (metis option.distinct(1))
  show "res = None \<Longrightarrow> view w ?k = None \<and> view w' ?k = Some (VStr h)"
    using key SetNX_view [OF e] won by metis
qed

text \<open>The key of the winner, if there is one, and the goroutines.\<close>

definition key_ok :: "string \<Rightarrow> string \<Rightarrow> (nat \<Rightarrow> string) \<Rightarrow> nat option \<Rightarrow> 'w \<Rightarrow> bool" where
  "key_ok a n h win w \<longleftrightarrow> (\<forall>i. win = Some i \<longrightarrow> view w (getConnectionKey a n) = Some (VStr (h i)))"

abbreviation reg_inv ::
  "string \<Rightarrow> string \<Rightarrow> (nat \<Rightarrow> string) \<Rightarrow> nat set \<Rightarrow> nat option \<Rightarrow> ('s, conn_error option, 'w) sys \<Rightarrow> bool" where
  "reg_inv a n h regs win cfg \<equiv>
     (\<forall>i < length (fst (snd cfg)). thread_ok a n h regs win i (snd (fst (snd cfg) ! i))) \<and>
     key_ok a n h win (snd (snd cfg))"

lemma reg_inv_redis:
  assumes inv: "reg_inv a n h regs win (ss, ts, w)" and valid: "valid_account a" "\<forall>i. valid_host (h i)"
    and i: "i < length ts" "ts ! i = (p, Redis c k)" "exec w c = (r, w')"
  shows "\<exists>win'. reg_inv a n h regs win' (ss, ts[i := (p, k r)], w')"
proof -
  let ?key = "getConnectionKey a n"
  have ok: "thread_ok a n h regs win i (Redis c k)" using inv i by force
  show ?thesis
  proof (cases "cmds_all (leaves ?key) (Redis c k)")
    case True
    then have c: "leaves ?key c" "cmds_all (leaves ?key) (k r)" by simp_all
    with ok have "i \<in> regs \<longrightarrow> win \<noteq> Some i \<longrightarrow> returns_all (\<lambda>e. e \<noteq> None) (k r)"
      using SetNX_not_leaves by (auto simp: thread_ok_def RegisterWithRedis_eq)
    with c have "thread_ok a n h regs win i (k r)" "view w' ?key = view w ?key"
      using leaves_view [OF i(3)] unfolding thread_ok_def by blast+
    then have "reg_inv a n h regs win (ss, ts[i := (p, k r)], w')"
      using inv all_threads_update [of ts i "thread_ok a n h regs win" "(p, k r)"] by (simp add: key_ok_def)
    then show ?thesis by blast
  next
    case False
    with ok have reg: "i \<in> regs" "win \<noteq> Some i" "c = SetNX ?key (h i)" "k = register_tail a n (h i)"
      by (auto simp: thread_ok_def RegisterWithRedis_eq)
    have tail: "cmds_all (leaves ?key) (k r)" by (simp add: register_tail_leaves valid reg(4))
    show ?thesis
    proof (cases "r = BoolReply True")
      case True
      then have key: "view w ?key = None" "view w' ?key = Some (VStr (h i))"
        using SetNX_view(2) [OF i(3) [unfolded reg(3)]] by auto
      then have "win = None" using inv by (cases win) (auto simp: key_ok_def)
      then have "thread_ok a n h regs (Some i) j (snd (ts ! j))" if "j < length ts" "j \<noteq> i" for j
        using inv that by (auto simp: thread_ok_def)
      moreover have "thread_ok a n h regs (Some i) i (k r)" using tail by (simp add: thread_ok_def)
      ultimately have "reg_inv a n h regs (Some i) (ss, ts[i := (p, k r)], w')"
        using key all_threads_update [of ts i "thread_ok a n h regs (Some i)" "(p, k r)"] by (simp add: key_ok_def)
      then show ?thesis by blast
    next
      case False
      then have "thread_ok a n h regs win i (k r)"
        using tail register_tail_loses unfolding reg(4) thread_ok_def by blast
      moreover have "key_ok a n h win w'"
        using inv SetNX_view(1) [OF i(3) [unfolded reg(3)]] by (auto simp: key_ok_def)
      ultimately have "reg_inv a n h regs win (ss, ts[i := (p, k r)], w')"
        using inv all_threads_update [of ts i "thread_ok a n h regs win" "(p, k r)"] by simp
      then show ?thesis by blast
    qed
  qed
qed

lemma reg_inv_step:
  assumes "sys_step exec cfg cfg'" "reg_inv a n h regs win cfg" "valid_account a" "\<forall>i. valid_host (h i)"
  shows "\<exists>win'. reg_inv a n h regs win' cfg'"
  using assms
proof cases
  case (step_redis i ts p c k w r w' ss)
  then show ?thesis using reg_inv_redis assms by blast
next
  case (step_local i ts p u k ss w)
  with assms(2) have "thread_ok a n h regs win i (Local u k)" by force
  then have "thread_ok a n h regs win i (k (ss ! p))" by (auto simp: thread_ok_def RegisterWithRedis_eq)
  with step_local assms(2) have "reg_inv a n h regs win cfg'"
    using all_threads_update [of ts i "thread_ok a n h regs win" "(p, k (ss ! p))"] by simp
  then show ?thesis by blast
qed

lemma reg_inv_reachable:
  assumes "(sys_step exec)\<^sup>*\<^sup>* cfg cfg'" "\<exists>win. reg_inv a n h regs win cfg"
    "valid_account a" "\<forall>i. valid_host (h i)"
  shows "\<exists>win'. reg_inv a n h regs win' cfg'"
  using assms(1,2) by (induction rule: rtranclp_induct) (use reg_inv_step assms(3,4) in blast)+

end

subsection \<open>Properties\<close>

text \<open>Property C14. On a server that answers, \<open>RegisterWithRedis\<close> implements registration in the
  abstract registry: a new node is added with its host, its key and all three indexes, and a node
  that is registered is reported as a duplicate and left as it is.\<close>

theorem register_refines:
  assumes "reliable_redis ex view" "registry (view w) R" "valid_account a" "valid_node n" "valid_host h"
    "run ex (RegisterWithRedis a n h) s w = (res, s', w')"
  shows "if R (a, n) = None then res = None \<and> registry (view w') (R((a, n) \<mapsto> h))
    else res = Some DuplicateConnectionError \<and> registry (view w') R"
proof -
  have "view w (getConnectionKey a n) = map_option VStr (R (a, n))"
    using assms(2-4) by (simp add: registry_def)
  with reliable_redis.run_RegisterWithRedis [OF assms(1,6)] registry_registered [OF assms(2) _ assms(3-5)] assms(2)
  show ?thesis by (auto split: if_splits)
qed

lemma registry_empty: "registry (mem_view []) Map.empty"
  by (simp add: registry_def valid_registry_def mem_view_def set_at_def all_index_def account_index_def pod_index_def)

definition sample_world :: mem_redis where
  "sample_world = snd (snd (run mem_exec (RegisterWithRedis ''01'' ''node-a'' ''10.0.0.1'') () []))"

definition sample_R :: registry_spec where
  "sample_R = Map.empty((''01'', ''node-a'') \<mapsto> ''10.0.0.1'')"

lemma sample_valid:
  "valid_account ''01''" "valid_node ''node-a''" "valid_node ''node-b''" "valid_host ''10.0.0.1''" "valid_host ''10.0.0.2''"
  by (simp_all add: valid_account_def valid_node_def valid_host_def)

lemma run_sample:
  "run mem_exec (RegisterWithRedis ''01'' ''node-a'' ''10.0.0.1'') s [] = (None, s, sample_world)"
  by (simp add: sample_world_def RegisterWithRedis_def TxPipelined_def addIndexes_def key_defs bool_Result_def
      reply_err_def mem_present_def mem_set_def)

theorem register_refines_witness:
  "registry (mem_view sample_world) sample_R"
  using register_refines [OF mem.reliable_redis_axioms registry_empty sample_valid(1,2,4) run_sample]
  by (simp add: sample_R_def)


lemma sample_registry: "registry (mem_view sample_world) sample_R"
proof -
  have "mem_view sample_world = registered (mem_view []) ''01'' ''node-a'' ''10.0.0.1''"
    using mem.run_RegisterWithRedis [OF run_sample [of "()"]] by (simp add: mem_view_def)
  then show ?thesis using registry_registered [OF registry_empty _ sample_valid(1,2,4)] by (simp add: sample_R_def)
qed

text \<open>Property C18. \<open>UnregisterWithRedis\<close> with the host that holds the connection, or for a node that
  is not registered, removes the node from the abstract registry and nothing else.\<close>

theorem unregister_refines:
  assumes "reliable_redis ex view" "registry (view w) R" "valid_account a" "valid_node n" "valid_host h"
    "R (a, n) \<in> {None, Some h}" "run ex (UnregisterWithRedis a n h) s w = (u, s', w')"
  shows "registry (view w') (R((a, n) := None))"
proof (cases "R (a, n)")
  case None
  then have "R((a, n) := None) = R" by auto
  with None show ?thesis
    using registry_unregistered_absent [OF assms(2) None assms(3-5)]
      reliable_redis.run_UnregisterWithRedis [OF assms(1,7)] by simp
next
  case (Some h')
  with assms(6) show ?thesis
    using registry_unregistered [OF assms(2), of a n h] reliable_redis.run_UnregisterWithRedis [OF assms(1,7)]
    by simp
qed

theorem unregister_refines_witness:
  "\<exists>w'. run mem_exec (UnregisterWithRedis ''01'' ''node-a'' ''10.0.0.1'') () sample_world = ((), (), w') \<and>
     registry (mem_view w') Map.empty"
proof -
  obtain w' where w': "run mem_exec (UnregisterWithRedis ''01'' ''node-a'' ''10.0.0.1'') () sample_world = ((), (), w')"
    by (cases "run mem_exec (UnregisterWithRedis ''01'' ''node-a'' ''10.0.0.1'') () sample_world") auto
  have "sample_R (''01'', ''node-a'') \<in> {None, Some ''10.0.0.1''}" "sample_R((''01'', ''node-a'') := None) = Map.empty"
    by (simp_all add: sample_R_def)
  with w' unregister_refines [OF mem.reliable_redis_axioms sample_registry sample_valid(1,2,4) _ w']
  show ?thesis by auto
qed

text \<open>Property C20. The three listings return the abstract registry: all of it, an account's nodes with
  their hosts, and a pod's nodes by account, each node once. They change nothing.\<close>

theorem listings_refine:
  assumes "reliable_redis ex view" "registry (view w) R" "valid_account a" "valid_host h"
  shows "(\<exists>m w1. run ex GetAllRedisConnections s w = (Ok m, s, w1) \<and> view w1 = view w \<and> nested_lookup m = R) \<and>
    (\<exists>m w1. run ex (GetRedisConnectionsByAccount a) s w = (Ok m, s, w1) \<and> view w1 = view w \<and>
       (\<forall>n. map_of m n = R (a, n))) \<and>
    (\<exists>m w1. run ex (GetRedisConnectionsByHost h) s w = (Ok m, s, w1) \<and> view w1 = view w \<and>
       (\<forall>a. valid_account a \<longrightarrow> distinct (nodes_of m a) \<and> set (nodes_of m a) = {n. R (a, n) = Some h}))"
proof (intro conjI)
  obtain res s' w1 where r: "run ex GetAllRedisConnections s w = (res, s', w1)" using prod_cases3 by blast
  have "valid_registry R" "set_at (view w) allConnectionsKey = Some (all_index R)"
    using assms(2) by (auto simp: registry_def)
  with r reliable_redis.run_GetAllRedisConnections [OF assms(1) _ _ r]
  show "\<exists>m w1. run ex GetAllRedisConnections s w = (Ok m, s, w1) \<and> view w1 = view w \<and> nested_lookup m = R"
    by auto
  obtain res s' w1 where r: "run ex (GetRedisConnectionsByAccount a) s w = (res, s', w1)" using prod_cases3 by blast
  with reliable_redis.run_GetRedisConnectionsByAccount [OF assms(1-3) r]
  show "\<exists>m w1. run ex (GetRedisConnectionsByAccount a) s w = (Ok m, s, w1) \<and> view w1 = view w \<and>
       (\<forall>n. map_of m n = R (a, n))"
    by auto
  obtain res s' w1 where r: "run ex (GetRedisConnectionsByHost h) s w = (res, s', w1)" using prod_cases3 by blast
  with reliable_redis.run_GetRedisConnectionsByHost [OF assms(1,2,4) r]
  show "\<exists>m w1. run ex (GetRedisConnectionsByHost h) s w = (Ok m, s, w1) \<and> view w1 = view w \<and>
       (\<forall>a. valid_account a \<longrightarrow> distinct (nodes_of m a) \<and> set (nodes_of m a) = {n. R (a, n) = Some h})"
    by auto
qed

theorem listings_refine_witness:
  "\<exists>m w1. run mem_exec GetAllRedisConnections () sample_world = (Ok m, (), w1) \<and>
     nested_lookup m = sample_R"
  using listings_refine [OF mem.reliable_redis_axioms sample_registry sample_valid(1,4), of "()"] by auto

text \<open>However Redis fails, a registration never changes the host of a node that is
  registered, and it reports success only when the node was not registered and now is, with this
  host.\<close>

lemma register_never_overwrites:
  assumes "redis_server ex view" "valid_account a" "valid_host h"
    "run ex (RegisterWithRedis a n h) s w = (res, s', w')"
  shows "(\<forall>x. view w (getConnectionKey a n) = Some x \<longrightarrow>
            view w' (getConnectionKey a n) = Some x \<and> res \<noteq> None) \<and>
     (res = None \<longrightarrow> view w (getConnectionKey a n) = None \<and> view w' (getConnectionKey a n) = Some (VStr h))"
  using redis_server.register_safe [OF assms(1,4,2,3)] by blast

lemma register_never_overwrites_example:
  "mem_view sample_world (getConnectionKey ''01'' ''node-a'') = Some (VStr ''10.0.0.1'')"
  using register_never_overwrites [OF mem.redis_server_axioms sample_valid(1,4) run_sample [of "()"]] by simp

text \<open>Property C5. When any number of goroutines of any pods register the same node, interleaved
  command by command with each other and with any goroutines that leave the node's key alone, and
  however Redis fails, at most one of them reports success, and then the node's host is the host of
  that one.\<close>

theorem register_exclusive:
  assumes "redis_server ex view" "valid_account a" "\<forall>i. valid_host (h i)"
    "\<forall>i < length ts. snd (ts ! i) = RegisterWithRedis a n (h i) \<and> i \<in> regs \<or>
       cmds_all (leaves (getConnectionKey a n)) (snd (ts ! i)) \<and> i \<notin> regs"
    "(sys_step ex)\<^sup>*\<^sup>* (ss, ts, w) (ss', ts', w')"
    "i \<in> regs" "i < length ts'" "snd (ts' ! i) = Ret None"
    "j \<in> regs" "j < length ts'" "snd (ts' ! j) = Ret None"
  shows "i = j \<and> view w' (getConnectionKey a n) = Some (VStr (h i))"
proof -
  have "\<forall>i < length ts. thread_ok a n h regs None i (snd (ts ! i))"
    using assms(4) by (auto simp: thread_ok_def)
  then have init: "\<exists>win. redis_server.reg_inv view a n h regs win (ss, ts, w)"
    using redis_server.key_ok_def [OF assms(1)] by auto
  obtain win where inv: "redis_server.reg_inv view a n h regs win (ss', ts', w')"
    using redis_server.reg_inv_reachable [OF assms(1,5) init assms(2,3)] by blast
  then have ok: "\<forall>i < length ts'. thread_ok a n h regs win i (snd (ts' ! i))" by simp
  have "win = Some i" "win = Some j"
    using ok [rule_format, OF assms(7)] ok [rule_format, OF assms(10)] assms(6,8,9,11)
    by (auto simp: thread_ok_def RegisterWithRedis_eq)
  with inv show ?thesis using redis_server.key_ok_def [OF assms(1)] by simp
qed

theorem register_exclusive_witness:
  "\<exists>ss' ts' w'. (sys_step mem_exec)\<^sup>*\<^sup>*
      ([(), ()], [(0, RegisterWithRedis ''01'' ''node-a'' ''10.0.0.1''), (1, RegisterWithRedis ''01'' ''node-a'' ''10.0.0.2'')], [])
      (ss', ts', w') \<and> snd (ts' ! 0) = Ret None \<and>
    mem_view w' (getConnectionKey ''01'' ''node-a'') = Some (VStr ''10.0.0.1'')"
proof -
  let ?h = "\<lambda>i :: nat. if i = 0 then ''10.0.0.1'' else ''10.0.0.2''"
  let ?ts = "[(0, RegisterWithRedis ''01'' ''node-a'' ''10.0.0.1''), (1, RegisterWithRedis ''01'' ''node-a'' ''10.0.0.2'')]"
  let ?ts' = "[(0, Ret None), (1, RegisterWithRedis ''01'' ''node-a'' ''10.0.0.2'')]"
  have steps: "(sys_step mem_exec)\<^sup>*\<^sup>* ([(), ()], ?ts, []) ([(), ()], ?ts', sample_world)"
    using solo_steps [of 0 ?ts 0 _ "[(), ()]" mem_exec "[]" None "()" sample_world] run_sample [of "()"] by simp
  have "\<forall>i < length ?ts. snd (?ts ! i) = RegisterWithRedis ''01'' ''node-a'' (?h i) \<and> i \<in> {0, 1}
      \<or> cmds_all (leaves (getConnectionKey ''01'' ''node-a'')) (snd (?ts ! i)) \<and> i \<notin> {0, 1}"
    by (auto simp: less_Suc_eq nth_Cons')
  with register_exclusive [OF mem.redis_server_axioms sample_valid(1) _ _ steps, of ?h "''node-a''" "{0, 1}" 0 0]
  have "mem_view sample_world (getConnectionKey ''01'' ''node-a'') = Some (VStr ''10.0.0.1'')"
    using sample_valid by simp
  moreover have "snd (?ts' ! 0) = Ret None" by simp
  ultimately show ?thesis using steps by blast
qed

text \<open>\<open>UnregisterWithRedis\<close> called with a host other than the one that holds the
  connection still removes the connection's key, and leaves its index entries: the node can no longer
  be looked up, while the listing of all connections goes on showing it at its host.\<close>

lemma unregister_foreign_host:
  assumes "reliable_redis ex view" "registry (view w) R" "valid_host h" "R (a, n) = Some h'" "h' \<noteq> h"
    "run ex (UnregisterWithRedis a n h) s w = (u, s', w')"
  shows "view w' (getConnectionKey a n) = None \<and>
    (\<exists>m w1. run ex GetAllRedisConnections s' w' = (Ok m, s', w1) \<and> nested_lookup m (a, n) = Some h')"
proof -
  have v: "valid_registry R" "valid_account a" "valid_node n"
    and idx: "set_at (view w) allConnectionsKey = Some (all_index R)"
    using assms(2,4) by (auto simp: registry_def valid_registry_def)
  have w': "view w' = unregistered (view w) a n h"
    using reliable_redis.run_UnregisterWithRedis [OF assms(1,6)] by simp
  have "getAllConnectionsIndexVal a n h \<notin> all_index R"
    using v assms(4,5) index_inj(1) unfolding index_mem valid_registry_def by (metis option.inject)
  then have "set_at (view w') allConnectionsKey = Some (all_index R)" "view w' (getConnectionKey a n) = None"
    using assms(2,3) v(2) by (simp_all add: w' unregistered_def registry_def keys_differ' set_at_def put_set_def)
  moreover obtain res s1 w1 where r: "run ex GetAllRedisConnections s' w' = (res, s1, w1)" using prod_cases3 by blast
  ultimately show ?thesis
    using reliable_redis.run_GetAllRedisConnections [OF assms(1) v(1) _ r] assms(4) r by auto
qed

lemma unregister_foreign_host_example:
  "\<exists>w' m w1. run mem_exec (UnregisterWithRedis ''01'' ''node-a'' ''10.0.0.2'') () sample_world = ((), (), w') \<and>
     mem_view w' (getConnectionKey ''01'' ''node-a'') = None \<and>
     run mem_exec GetAllRedisConnections () w' = (Ok m, (), w1) \<and> nested_lookup m (''01'', ''node-a'') = Some ''10.0.0.1''"
proof -
  obtain w' where w': "run mem_exec (UnregisterWithRedis ''01'' ''node-a'' ''10.0.0.2'') () sample_world = ((), (), w')"
    by (cases "run mem_exec (UnregisterWithRedis ''01'' ''node-a'' ''10.0.0.2'') () sample_world") auto
  have "sample_R (''01'', ''node-a'') = Some ''10.0.0.1''" by (simp add: sample_R_def)
  then show ?thesis
    using unregister_foreign_host [OF mem.reliable_redis_axioms sample_registry sample_valid(5) _ _ w'] w' by auto
qed

end
