(* ===== verification/Connection_Manager.thy ===== *)
theory Connection_Manager
  imports Redis_Connector
begin

text \<open>
  The connections of one gateway process (\<open>internal/controller/connection_manager.go\<close>): a map from
  accounts to maps from node ids to clients. Every operation runs under the manager's mutex and is
  one step. \<open>'c\<close> is the type of the clients, the interface \<open>Receptor\<close>.

  The interfaces \<open>ConnectionRegistrar\<close> and \<open>ConnectionLocator\<close>, which the handlers, the gateway
  registrar and the HTTP API use, are the locale \<open>connection_registry\<close>.
\<close>

subsection \<open>The operations\<close>

type_synonym 'c connections = "(string, (string, 'c) gomap) gomap"

record 'c LocalConnectionManager =
  connections :: "'c connections"

definition NewLocalConnectionManager :: "'c LocalConnectionManager" where
  "NewLocalConnectionManager = \<lparr>connections = []\<rparr>"

definition Local_Register ::
  "'c LocalConnectionManager \<Rightarrow> string \<Rightarrow> string \<Rightarrow> 'c \<Rightarrow> conn_error option \<times> 'c LocalConnectionManager" where
  "Local_Register cm account node_id client =
     (case map_of (connections cm) account of
        Some nodes \<Rightarrow>
          if map_of nodes node_id \<noteq> None then (Some DuplicateConnectionError, cm)
          else (None, cm\<lparr>connections := AList.update account (AList.update node_id client nodes) (connections cm)\<rparr>)
      | None \<Rightarrow> (None, cm\<lparr>connections := AList.update account [(node_id, client)] (connections cm)\<rparr>))"

definition Local_Unregister ::
  "'c LocalConnectionManager \<Rightarrow> string \<Rightarrow> string \<Rightarrow> 'c LocalConnectionManager" where
  "Local_Unregister cm account node_id =
     (case map_of (connections cm) account of
        None \<Rightarrow> cm
      | Some nodes \<Rightarrow>
          (let nodes' = AList.delete node_id nodes in
           if length nodes' = 0 then cm\<lparr>connections := AList.delete account (connections cm)\<rparr>
           else cm\<lparr>connections := AList.update account nodes' (connections cm)\<rparr>))"

definition Local_GetConnection :: "'c LocalConnectionManager \<Rightarrow> string \<Rightarrow> string \<Rightarrow> 'c option" where
  "Local_GetConnection cm account node_id =
     (case map_of (connections cm) account of
        None \<Rightarrow> None
      | Some nodes \<Rightarrow> (case map_of nodes node_id of None \<Rightarrow> None | Some conn \<Rightarrow> Some conn))"

definition Local_GetConnectionsByAccount :: "'c LocalConnectionManager \<Rightarrow> string \<Rightarrow> (string, 'c) gomap" where
  "Local_GetConnectionsByAccount cm account =
     (case map_of (connections cm) account of None \<Rightarrow> [] | Some nodes \<Rightarrow> copy_map nodes)"

definition Local_GetAllConnections :: "'c LocalConnectionManager \<Rightarrow> 'c connections" where
  "Local_GetAllConnections cm =
     foldl (\<lambda>m (accountNumber, accountMap). AList.update accountNumber (copy_map accountMap) m) [] (connections cm)"

text \<open>Keys are unique and an account without nodes is not kept.\<close>

definition lcm_ok :: "'c LocalConnectionManager \<Rightarrow> bool" where
  "lcm_ok cm \<longleftrightarrow> gomap_ok (connections cm) \<and>
     (\<forall>(a, nodes) \<in> set (connections cm). gomap_ok nodes \<and> nodes \<noteq> [])"

subsection \<open>The interface\<close>

text \<open>Calls of the registrar, their effect on an implementation and on the map it stands for.\<close>

datatype 'c conn_call = RegisterCall string string 'c | UnregisterCall string string

fun apply_call ::
  "('s \<Rightarrow> string \<Rightarrow> string \<Rightarrow> 'c \<Rightarrow> conn_error option \<times> 's) \<Rightarrow> ('s \<Rightarrow> string \<Rightarrow> string \<Rightarrow> 's) \<Rightarrow>
   's \<Rightarrow> 'c conn_call \<Rightarrow> 's" where
  "apply_call reg unreg s (RegisterCall a n c) = snd (reg s a n c)"
| "apply_call reg unreg s (UnregisterCall a n) = unreg s a n"

fun spec_call :: "(string \<times> string \<Rightarrow> 'c option) \<Rightarrow> 'c conn_call \<Rightarrow> string \<times> string \<Rightarrow> 'c option" where
  "spec_call R (RegisterCall a n c) = (if R (a, n) = None then R((a, n) \<mapsto> c) else R)"
| "spec_call R (UnregisterCall a n) = R((a, n) := None)"

locale connection_registry =
  fixes reg :: "'s \<Rightarrow> string \<Rightarrow> string \<Rightarrow> 'c \<Rightarrow> conn_error option \<times> 's"
    and unreg :: "'s \<Rightarrow> string \<Rightarrow> string \<Rightarrow> 's"
    and get :: "'s \<Rightarrow> string \<Rightarrow> string \<Rightarrow> 'c option"
    and ok :: "'s \<Rightarrow> bool"
  assumes reg_ok: "ok s \<Longrightarrow> ok (snd (reg s a n c))"
    and unreg_ok: "ok s \<Longrightarrow> ok (unreg s a n)"
    and reg_new: "ok s \<Longrightarrow> get s a n = None \<Longrightarrow> fst (reg s a n c) = None \<and>
        get (snd (reg s a n c)) a' n' = (if a' = a \<and> n' = n then Some c else get s a' n')"
    and reg_dup: "ok s \<Longrightarrow> get s a n = Some c' \<Longrightarrow> reg s a n c = (Some DuplicateConnectionError, s)"
    and unreg_get: "ok s \<Longrightarrow> get (unreg s a n) a' n' = (if a' = a \<and> n' = n then None else get s a' n')"
begin

lemma reg_result: "ok s \<Longrightarrow> fst (reg s a n c) = (if get s a n = None then None else Some DuplicateConnectionError)"
  by (cases "get s a n") (simp_all add: reg_new reg_dup)

lemma reg_keeps: "ok s \<Longrightarrow> get s a n = Some c' \<Longrightarrow> get (snd (reg s a n c)) a n = Some c'"
  by (simp add: reg_dup)

lemma reg_other: "ok s \<Longrightarrow> (a', n') \<noteq> (a, n) \<Longrightarrow> get (snd (reg s a n c)) a' n' = get s a' n'"
  by (cases "get s a n") (auto simp: reg_new reg_dup)

lemma reg_get: "ok s \<Longrightarrow> get (snd (reg s a n c)) a' n' =
   (if a' = a \<and> n' = n \<and> get s a n = None then Some c else get s a' n')"
  by (cases "get s a n") (auto simp: reg_new reg_dup)

lemma reg_unreg:
  "ok s \<Longrightarrow> get s a n = None \<Longrightarrow> get (unreg (snd (reg s a n c)) a n) a' n' = get s a' n'"
  by (simp add: unreg_get reg_ok reg_new)

text \<open>A sequence of calls has the effect of the same sequence on the abstract map.\<close>

lemma call_refines:
  assumes "ok s"
  shows "ok (apply_call reg unreg s call)"
    "(\<lambda>(a, n). get (apply_call reg unreg s call) a n) = spec_call (\<lambda>(a, n). get s a n) call"
proof -
  show "ok (apply_call reg unreg s call)" using assms by (cases call) (simp_all add: reg_ok unreg_ok)
  show "(\<lambda>(a, n). get (apply_call reg unreg s call) a n) = spec_call (\<lambda>(a, n). get s a n) call"
  proof (cases call)
    case (RegisterCall a n c)
    then show ?thesis using assms by (cases "get s a n") (auto simp: reg_new reg_dup)
  next
    case (UnregisterCall a n)
    then show ?thesis using assms by (auto simp: unreg_get)
  qed
qed

lemma trace_refines:
  assumes "ok s"
  shows "ok (foldl (apply_call reg unreg) s calls) \<and>
    (\<lambda>(a, n). get (foldl (apply_call reg unreg) s calls) a n) = foldl spec_call (\<lambda>(a, n). get s a n) calls"
  using assms by (induction calls arbitrary: s) (simp_all add: call_refines)

end

text \<open>What every implementation of \<open>ConnectionRegistrar\<close> promises, also one that asks a shared registry first: a
  registration adds at most the entry asked for, and that only if it reports no error. It may fail for
  a node that is free, and a failed one may remove entries.\<close>

locale registrar =
  fixes reg :: "'s \<Rightarrow> string \<Rightarrow> string \<Rightarrow> 'c \<Rightarrow> conn_error option \<times> 's"
    and unreg :: "'s \<Rightarrow> string \<Rightarrow> string \<Rightarrow> 's"
    and get :: "'s \<Rightarrow> string \<Rightarrow> string \<Rightarrow> 'c option"
    and ok :: "'s \<Rightarrow> bool"
  assumes reg_keeps_ok: "ok s \<Longrightarrow> ok (snd (reg s a n c))"
    and unreg_keeps_ok: "ok s \<Longrightarrow> ok (unreg s a n)"
    and reg_adds: "ok s \<Longrightarrow> get (snd (reg s a n c)) a' n' = Some c' \<Longrightarrow> get s a' n' \<noteq> Some c' \<Longrightarrow>
        a' = a \<and> n' = n \<and> c' = c \<and> fst (reg s a n c) = None"
    and unreg_removes: "ok s \<Longrightarrow> get (unreg s a n) a' n' = (if a' = a \<and> n' = n then None else get s a' n')"

sublocale connection_registry \<subseteq> registrar reg unreg get ok
proof unfold_locales
  fix s a n c a' n' c'
  assume "ok s" "get (snd (reg s a n c)) a' n' = Some c'" "get s a' n' \<noteq> Some c'"
  then show "a' = a \<and> n' = n \<and> c' = c \<and> fst (reg s a n c) = None"
    by (cases "get s a n") (auto simp: reg_new reg_dup split: if_splits)
qed (simp_all add: reg_ok unreg_ok unreg_get)

subsection \<open>The local manager provides it\<close>

lemma lcm_okD:
  "lcm_ok cm \<Longrightarrow> map_of (connections cm) a = Some nodes \<Longrightarrow> gomap_ok nodes \<and> nodes \<noteq> []"
  by (auto simp: lcm_ok_def dest!: map_of_SomeD)

lemma lcm_ok_update:
  assumes "lcm_ok cm" "gomap_ok nodes" "nodes \<noteq> []"
  shows "lcm_ok (cm\<lparr>connections := AList.update a nodes (connections cm)\<rparr>)"
proof -
  have "set (AList.update a nodes m) \<subseteq> insert (a, nodes) (set m)" for m :: "'a connections"
    by (induction m) auto
  from this [of "connections cm"] assms show ?thesis
    unfolding lcm_ok_def by (fastforce simp: distinct_update)
qed

lemma lcm_ok_delete: "lcm_ok cm \<Longrightarrow> lcm_ok (cm\<lparr>connections := AList.delete a (connections cm)\<rparr>)"
  unfolding lcm_ok_def by (auto simp: distinct_delete) (auto simp: AList.delete_eq)

lemma Local_Register_ok: "lcm_ok cm \<Longrightarrow> lcm_ok (snd (Local_Register cm a n c))"
  by (auto simp: Local_Register_def lcm_okD distinct_update intro!: lcm_ok_update split: option.splits)

lemma Local_Unregister_ok: "lcm_ok cm \<Longrightarrow> lcm_ok (Local_Unregister cm a n)"
  by (auto simp: Local_Unregister_def Let_def lcm_okD distinct_delete intro!: lcm_ok_update lcm_ok_delete
      split: option.splits)

lemma Local_GetConnection_eq: "Local_GetConnection cm a n = nested_lookup (connections cm) (a, n)"
  by (auto simp: Local_GetConnection_def nested_lookup_pair split: option.splits)

lemma map_of_delete_all: "AList.delete n nodes = [] \<Longrightarrow> n' \<noteq> n \<Longrightarrow> map_of nodes n' = None"
  using delete_conv' [of n nodes] by (metis fun_upd_other map_of.simps(1))

interpretation lcm: connection_registry Local_Register Local_Unregister Local_GetConnection lcm_ok
proof unfold_locales
  fix cm :: "'c LocalConnectionManager" and a n a' n' c c'
  assume ok: "lcm_ok cm"
  show "lcm_ok (snd (Local_Register cm a n c))" by (rule Local_Register_ok [OF ok])
  show "lcm_ok (Local_Unregister cm a n)" by (rule Local_Unregister_ok [OF ok])
  show "Local_GetConnection cm a n = None \<Longrightarrow> fst (Local_Register cm a n c) = None \<and>
      Local_GetConnection (snd (Local_Register cm a n c)) a' n' =
        (if a' = a \<and> n' = n then Some c else Local_GetConnection cm a' n')"
    by (auto simp: Local_Register_def Local_GetConnection_eq nested_lookup_pair update_conv' split: option.splits)
  show "Local_GetConnection cm a n = Some c' \<Longrightarrow> Local_Register cm a n c = (Some DuplicateConnectionError, cm)"
    by (auto simp: Local_Register_def Local_GetConnection_eq nested_lookup_pair split: option.splits)
  show "Local_GetConnection (Local_Unregister cm a n) a' n' =
      (if a' = a \<and> n' = n then None else Local_GetConnection cm a' n')"
    by (auto simp: map_of_delete_all Local_Unregister_def Local_GetConnection_eq nested_lookup_pair Let_def update_conv'
        delete_conv' split: option.splits)
qed

subsection \<open>The locator\<close>

lemma copy_accounts:
  "(\<forall>(a, nodes) \<in> set m. gomap_ok nodes) \<Longrightarrow>
   foldl (\<lambda>m (a, nodes). AList.update a (copy_map nodes) m) c m = foldl (\<lambda>m (a, nodes). AList.update a nodes m) c m"
  by (induction m arbitrary: c) (auto simp: copy_map_id)

lemma Local_GetAllConnections_eq: "lcm_ok cm \<Longrightarrow> Local_GetAllConnections cm = connections cm"
  using copy_map_id [of "connections cm"] copy_accounts [of "connections cm" "[]"]
  by (fastforce simp: Local_GetAllConnections_def lcm_ok_def copy_map_def)

lemma Local_GetConnectionsByAccount_eq:
  "lcm_ok cm \<Longrightarrow> map_of (Local_GetConnectionsByAccount cm a) n = nested_lookup (connections cm) (a, n)"
  by (auto simp: Local_GetConnectionsByAccount_def nested_lookup_pair copy_map_id lcm_okD split: option.splits)

text \<open>Property C24. After any sequence of registrations and unregistrations on a new local manager, its
  invariant holds, a further registration fails exactly for a node that is present, and the three
  lookups return the map that the same sequence builds when a registration adds a node only if it
  is absent and an unregistration removes it.\<close>

theorem local_manager_refines:
  "let cm = foldl (apply_call Local_Register Local_Unregister) NewLocalConnectionManager calls;
       R = foldl spec_call Map.empty calls
   in lcm_ok cm \<and> Local_GetConnection cm a n = R (a, n) \<and>
      fst (Local_Register cm a n c) = (if R (a, n) = None then None else Some DuplicateConnectionError) \<and>
      map_of (Local_GetConnectionsByAccount cm a) n = R (a, n) \<and> nested_lookup (Local_GetAllConnections cm) = R"
proof -
  define cm where "cm = foldl (apply_call Local_Register Local_Unregister) NewLocalConnectionManager calls"
  define R where "R = foldl spec_call Map.empty calls"
  have new: "lcm_ok NewLocalConnectionManager" "(\<lambda>(a, n). Local_GetConnection NewLocalConnectionManager a n) = Map.empty"
    by (auto simp: lcm_ok_def NewLocalConnectionManager_def Local_GetConnection_def)
  have ok: "lcm_ok cm" and get: "(\<lambda>(a, n). Local_GetConnection cm a n) = R"
    using lcm.trace_refines [OF new(1), of calls] by (simp_all add: cm_def R_def new(2))
  from get have get': "Local_GetConnection cm a n = R (a, n)" for a n by (metis case_prod_conv)
  then have look: "nested_lookup (connections cm) = R" by (auto simp: Local_GetConnection_eq [symmetric])
  show ?thesis
    using ok get' look
    by (simp add: lcm.reg_result Local_GetAllConnections_eq Local_GetConnectionsByAccount_eq
        cm_def [symmetric] R_def [symmetric] Let_def)
qed

end
