(* ===== verification/Reactor.thy ===== *)
theory Reactor
  imports Ping Connection_Manager
begin

text \<open>
  The reactor of a connection (\<open>internal/controller/response_reactor.go\<close>) and the message handlers it
  calls: handshake, route table, payload and disconnect. The handlers reach the connection manager
  through the interface \<open>ConnectionRegistrar\<close>, here the functions \<open>reg\<close> and \<open>unreg\<close> on a state \<open>'s\<close>;
  its contract is the locale \<open>connection_registry\<close>.

  A connection has a number, and a registered client is the number of its connection and that of the
  receptor service the handshake made. The step relation interleaves the reactor with the write loop
  of the websocket, with the cancellation of the connection and with the other connections that use
  the same manager.
\<close>

subsection \<open>State\<close>

type_synonym client = "nat \<times> nat"

text \<open>A handler is one of the three structs; the last two refer to a receptor service.\<close>

datatype rx_handler = HandshakeH | RouteTableH nat | PayloadH nat

record DisconnectHandler =
  dh_AccountNumber :: string
  dh_NodeID :: string

record HandshakeHandler =
  hh_AccountNumber :: string
  hh_NodeID :: string
  hh_conn :: nat

text \<open>\<open>rx_services\<close> are the receptor services of this connection, \<open>rx_mgr\<close> is the state of the shared
  connection manager and \<open>rx_writer\<close> says whether the write loop still runs.\<close>

record ('u, 's) rx =
  rx_handlers :: "(NetworkMessageType, rx_handler) gomap"
  rx_disconnectHandler :: "DisconnectHandler option"
  rx_services :: "'u ReceptorService list"
  rx_transport :: Transport
  rx_mgr :: 's
  rx_writer :: bool
  rx_handled :: nat
  rx_without_handler :: nat

definition NewResponseReactor :: "Transport \<Rightarrow> 's \<Rightarrow> ('u, 's) rx" where
  "NewResponseReactor t mgr =
     \<lparr>rx_handlers = [], rx_disconnectHandler = None, rx_services = [], rx_transport = t, rx_mgr = mgr,
      rx_writer = True, rx_handled = 0, rx_without_handler = 0\<rparr>"

definition RegisterHandler :: "NetworkMessageType \<Rightarrow> rx_handler \<Rightarrow> ('u, 's) rx \<Rightarrow> ('u, 's) rx" where
  "RegisterHandler msgType handler rd = rd\<lparr>rx_handlers := AList.update msgType handler (rx_handlers rd)\<rparr>"

definition RegisterDisconnectHandler :: "DisconnectHandler \<Rightarrow> ('u, 's) rx \<Rightarrow> ('u, 's) rx" where
  "RegisterDisconnectHandler handler rd = rd\<lparr>rx_disconnectHandler := Some handler\<rparr>"

subsection \<open>Handlers\<close>

text \<open>How a handler ends: it returns; it stands in the send on the unbuffered error channel and
  returns after it; it dispatched a response, which may leave it in a send or panic.\<close>

datatype handled = HDone | HSendError ReceptorErrorMessage | HDispatched dispatched

fun conn_error_text :: "conn_error \<Rightarrow> string" where
  "conn_error_text DuplicateConnectionError = ''duplicate node id''"
| "conn_error_text (RedisError RedisNil) = ''redis: nil''"
| "conn_error_text (RedisError (RedisErr m)) = m"

text \<open>The handshake after its answer was queued, with the transport \<open>t\<close>.\<close>

definition handshake_complete ::
  "('s \<Rightarrow> string \<Rightarrow> string \<Rightarrow> client \<Rightarrow> conn_error option \<times> 's) \<Rightarrow> HandshakeHandler \<Rightarrow> HiMessage \<Rightarrow> Transport \<Rightarrow>
   ('u, 's) rx \<Rightarrow> handled \<times> ('u, 's) rx" where
  "handshake_complete reg hh hiMessage t rd =
     (let receptor = RegisterConnection (NewReceptorService (hh_AccountNumber hh) (hh_NodeID hh))
            (hi_ID hiMessage) (hi_Metadata hiMessage) t;
          k = length (rx_services rd)
      in (case reg (rx_mgr rd) (hh_AccountNumber hh) (hi_ID hiMessage) (hh_conn hh, k) of
            (err, mgr) \<Rightarrow>
              (let rd1 = rd\<lparr>rx_transport := t, rx_services := rx_services rd @ [receptor], rx_mgr := mgr\<rparr> in
               case err of
                 Some e \<Rightarrow>
                   (HSendError \<lparr>rerr_AccountNumber = hh_AccountNumber hh, rerr_Error = conn_error_text e\<rparr>, rd1)
               | None \<Rightarrow>
                   (let rd2 = RegisterDisconnectHandler
                          \<lparr>dh_AccountNumber = hh_AccountNumber hh, dh_NodeID = hi_ID hiMessage\<rparr> rd1;
                        rd3 = RegisterHandler RouteTableMessageType (RouteTableH k) rd2;
                        rd4 = RegisterHandler PayloadMessageType (PayloadH k) rd3
                    in (HDone, rd4)))))"

text \<open>\<open>hctx\<close> is the state of the reactor's context with the timeout of ten seconds while the answer
  waits for room in the control channel; \<open>fmt\<close> is the text for an invalid message.\<close>

definition Handshake_HandleMessage ::
  "(Message \<Rightarrow> string) \<Rightarrow> ('s \<Rightarrow> string \<Rightarrow> string \<Rightarrow> client \<Rightarrow> conn_error option \<times> 's) \<Rightarrow> HandshakeHandler \<Rightarrow> ctx \<Rightarrow>
   Message \<Rightarrow> ('u, 's) rx \<Rightarrow> (handled \<times> ('u, 's) rx) list" where
  "Handshake_HandleMessage fmt reg hh hctx m rd =
     (if Message_Type m \<noteq> HiMessageType then
        [(HSendError \<lparr>rerr_AccountNumber = hh_AccountNumber hh, rerr_Error = fmt m\<rparr>, rd)]
      else (case m of
          MHi hiMessage \<Rightarrow>
            (let responseHiMessage = new_HiMessage\<lparr>hi_Command := ''HI'', hi_ID := hh_NodeID hh\<rparr>;
                 t = rx_transport rd
             in (if hctx \<noteq> None then [(HDone, rd)] else []) @
                (if can_send (tr_ControlChannel t) then
                   [handshake_complete reg hh hiMessage
                      (t\<lparr>tr_ControlChannel := push \<lparr>rmsg_AccountNumber = hh_AccountNumber hh,
                          rmsg_Message = MHi responseHiMessage\<rparr> (tr_ControlChannel t)\<rparr>) rd]
                 else []))
        | _ \<Rightarrow>
            [(HSendError \<lparr>rerr_AccountNumber = hh_AccountNumber hh,
                rerr_Error = ''Unable to convert message into HiMessage''\<rparr>, rd)]))"

definition RouteTable_HandleMessage ::
  "(goany list option list option \<Rightarrow> string) \<Rightarrow> (string list option \<Rightarrow> string) \<Rightarrow> nat \<Rightarrow> Message \<Rightarrow> ('u, 's) rx \<Rightarrow>
   handled \<times> ('u, 's) rx" where
  "RouteTable_HandleMessage fmt_edges fmt_seen k m rd =
     (if Message_Type m \<noteq> RouteTableMessageType then (HDone, rd)
      else (case m of
          MRouteTable msg \<Rightarrow>
            (HDone, rd\<lparr>rx_services := (rx_services rd)[k :=
               UpdateRoutingTable (rx_services rd ! k) (fmt_edges (rt_Edges msg)) (fmt_seen (rt_Seen msg))]\<rparr>)
        | _ \<Rightarrow> (HDone, rd)))"

definition Payload_HandleMessage ::
  "(string \<Rightarrow> 'u option) \<Rightarrow> nat \<Rightarrow> Message \<Rightarrow> ('u, 's) rx \<Rightarrow> handled" where
  "Payload_HandleMessage uuid_Parse k m rd =
     (if Message_Type m \<noteq> PayloadMessageType then HDone
      else (case m of
          MPayload payloadMessage \<Rightarrow> HDispatched (DispatchResponse uuid_Parse (rx_services rd ! k) payloadMessage)
        | _ \<Rightarrow> HDone))"

definition Disconnect_HandleMessage ::
  "('s \<Rightarrow> string \<Rightarrow> string \<Rightarrow> 's) \<Rightarrow> DisconnectHandler \<Rightarrow> ('u, 's) rx \<Rightarrow> ('u, 's) rx" where
  "Disconnect_HandleMessage unreg dh rd =
     rd\<lparr>rx_mgr := unreg (rx_mgr rd) (dh_AccountNumber dh) (dh_NodeID dh)\<rparr>"

subsection \<open>The loop\<close>

text \<open>Where the reactor stands. A panic of the reactor's goroutine ends the process.\<close>

datatype rx_pc =
    RxLoop
  | RxSendError ReceptorErrorMessage
  | RxSendResponse nat nat ResponseMessage
  | RxReturned
  | RxPanicked

text \<open>\<open>case <-ctx.Done()\<close>.\<close>

definition Run_done :: "('s \<Rightarrow> string \<Rightarrow> string \<Rightarrow> 's) \<Rightarrow> ('u, 's) rx \<Rightarrow> rx_pc \<times> ('u, 's) rx" where
  "Run_done unreg rd =
     (RxReturned, case rx_disconnectHandler rd of None \<Rightarrow> rd | Some dh \<Rightarrow> Disconnect_HandleMessage unreg dh rd)"

text \<open>After a handler: the counter is incremented once it has returned.\<close>

definition count_handled :: "('u, 's) rx \<Rightarrow> ('u, 's) rx" where
  "count_handled rd = rd\<lparr>rx_handled := rx_handled rd + 1\<rparr>"

definition after_handler :: "nat \<Rightarrow> handled \<times> ('u, 's) rx \<Rightarrow> rx_pc \<times> ('u, 's) rx" where
  "after_handler k h = (case h of
     (HDone, rd) \<Rightarrow> (RxLoop, count_handled rd)
   | (HSendError e, rd) \<Rightarrow> (RxSendError e, rd)
   | (HDispatched DispatchPanic, rd) \<Rightarrow> (RxPanicked, rd)
   | (HDispatched (ToChannel ch m), rd) \<Rightarrow> (RxSendResponse k ch m, rd)
   | (HDispatched _, rd) \<Rightarrow> (RxLoop, count_handled rd))"

record ('u, 's) environment =
  env_fmt :: "Message \<Rightarrow> string"
  env_fmt_edges :: "goany list option list option \<Rightarrow> string"
  env_fmt_seen :: "string list option \<Rightarrow> string"
  env_uuid_Parse :: "string \<Rightarrow> 'u option"
  env_reg :: "'s \<Rightarrow> string \<Rightarrow> string \<Rightarrow> client \<Rightarrow> conn_error option \<times> 's"
  env_unreg :: "'s \<Rightarrow> string \<Rightarrow> string \<Rightarrow> 's"

text \<open>\<open>case msg := <-rd.recv\<close>.\<close>

definition Run_message ::
  "('u, 's) environment \<Rightarrow> HandshakeHandler \<Rightarrow> ctx \<Rightarrow> Message \<Rightarrow> ('u, 's) rx \<Rightarrow> (rx_pc \<times> ('u, 's) rx) list" where
  "Run_message env hh hctx msg rd =
     (case map_of (rx_handlers rd) (Message_Type msg) of
        None \<Rightarrow> [(RxLoop, rd\<lparr>rx_without_handler := rx_without_handler rd + 1\<rparr>)]
      | Some HandshakeH \<Rightarrow> map (after_handler 0) (Handshake_HandleMessage (env_fmt env) (env_reg env) hh hctx msg rd)
      | Some (RouteTableH k) \<Rightarrow>
          [after_handler k (RouteTable_HandleMessage (env_fmt_edges env) (env_fmt_seen env) k msg rd)]
      | Some (PayloadH k) \<Rightarrow> [after_handler k (Payload_HandleMessage (env_uuid_Parse env) k msg rd, rd)])"

text \<open>The steps of one connection; \<open>peer\<close> are the messages its peer may send.
  The write loop takes an error, tells the peer and ends (the account is that of the connection), or it
  ends on its own, for instance because a write fails. A response is handed over or not (theory \<open>Ping\<close>).
  Another connection registers clients of its own and unregisters what is not this connection's.\<close>

inductive rx_step ::
  "('u, 's) environment \<Rightarrow> ('s \<Rightarrow> string \<Rightarrow> string \<Rightarrow> client option) \<Rightarrow> (Message \<Rightarrow> bool) \<Rightarrow> HandshakeHandler \<Rightarrow>
   rx_pc \<times> ('u, 's) rx \<Rightarrow> rx_pc \<times> ('u, 's) rx \<Rightarrow> bool"
  for env get peer hh where
  ctx_Done: "tr_Ctx (rx_transport rd) \<noteq> None \<Longrightarrow> rx_step env get peer hh (RxLoop, rd) (Run_done (env_unreg env) rd)"
| recv: "\<lbrakk>peer msg; tr_Ctx (rx_transport rd) \<noteq> None \<longrightarrow> hctx \<noteq> None; x \<in> set (Run_message env hh hctx msg rd)\<rbrakk>
    \<Longrightarrow> rx_step env get peer hh (RxLoop, rd) x"
| error_taken: "rx_writer rd \<Longrightarrow>
    rx_step env get peer hh (RxSendError e, rd) (RxLoop, count_handled (rd\<lparr>rx_writer := False\<rparr>))"
| response_taken: "rx_step env get peer hh (RxSendResponse k ch m, rd) (RxLoop, count_handled rd)"
| writer_ends: "rx_step env get peer hh (pc, rd) (pc, rd\<lparr>rx_writer := False\<rparr>)"
| cancel: "rx_step env get peer hh (pc, rd) (pc, rd\<lparr>rx_transport := tr_Cancel (rx_transport rd)\<rparr>)"
| drain: "pop (tr_ControlChannel (rx_transport rd)) = Some (x, c) \<Longrightarrow> rx_writer rd \<Longrightarrow>
    rx_step env get peer hh (pc, rd) (pc, rd\<lparr>rx_transport := (rx_transport rd)\<lparr>tr_ControlChannel := c\<rparr>\<rparr>)"
| other_registers: "fst cl \<noteq> hh_conn hh \<Longrightarrow>
    rx_step env get peer hh (pc, rd) (pc, rd\<lparr>rx_mgr := snd (env_reg env (rx_mgr rd) a n cl)\<rparr>)"
| other_unregisters: "(\<forall>k. get (rx_mgr rd) a n \<noteq> Some (hh_conn hh, k)) \<Longrightarrow>
    rx_step env get peer hh (pc, rd) (pc, rd\<lparr>rx_mgr := env_unreg env (rx_mgr rd) a n\<rparr>)"

inductive_cases rx_stepE: "rx_step env get peer hh (pc, rd) x"

definition new_rx :: "Transport \<Rightarrow> 's \<Rightarrow> rx_pc \<times> ('u, 's) rx" where
  "new_rx t mgr = (RxLoop, RegisterHandler HiMessageType HandshakeH (NewResponseReactor t mgr))"

definition local_env ::
  "(Message \<Rightarrow> string) \<Rightarrow> (goany list option list option \<Rightarrow> string) \<Rightarrow> (string list option \<Rightarrow> string) \<Rightarrow>
   (string \<Rightarrow> 'u option) \<Rightarrow> ('u, client LocalConnectionManager) environment" where
  "local_env fmt fmt_edges fmt_seen uuid_Parse =
     \<lparr>env_fmt = fmt, env_fmt_edges = fmt_edges, env_fmt_seen = fmt_seen, env_uuid_Parse = uuid_Parse,
      env_reg = Local_Register, env_unreg = Local_Unregister\<rparr>"

text \<open>What a connection that announces one node id keeps: its only entry in the manager is for that node,
  the disconnect handler will remove it, and nothing is left once the reactor has returned.\<close>

definition rx_inv ::
  "('s \<Rightarrow> string \<Rightarrow> string \<Rightarrow> client option) \<Rightarrow> ('s \<Rightarrow> bool) \<Rightarrow> HandshakeHandler \<Rightarrow> string \<Rightarrow> rx_pc \<times> ('u, 's) rx \<Rightarrow> bool" where
  "rx_inv get ok hh n x \<longleftrightarrow> ok (rx_mgr (snd x)) \<and>
     (rx_disconnectHandler (snd x) = None \<or>
      rx_disconnectHandler (snd x) = Some \<lparr>dh_AccountNumber = hh_AccountNumber hh, dh_NodeID = n\<rparr>) \<and>
     (\<forall>a' n' k. get (rx_mgr (snd x)) a' n' = Some (hh_conn hh, k) \<longrightarrow>
        a' = hh_AccountNumber hh \<and> n' = n \<and> rx_disconnectHandler (snd x) \<noteq> None \<and> fst x \<noteq> RxReturned)"

subsection \<open>What the reactor relies on\<close>

lemma Handshake_cases:
  assumes "(h, rd') \<in> set (Handshake_HandleMessage fmt reg hh hctx m rd)"
  shows "rd' = rd \<or> (\<exists>hi t. m = MHi hi \<and> (h, rd') = handshake_complete reg hh hi t rd)"
  using assms by (cases m) (auto simp: Handshake_HandleMessage_def Let_def split: if_splits)

lemma after_handler_mgr [simp]:
  "rx_mgr (snd (after_handler k (h, rd))) = rx_mgr rd"
  "rx_disconnectHandler (snd (after_handler k (h, rd))) = rx_disconnectHandler rd"
  "fst (after_handler k (h, rd)) \<noteq> RxReturned"
  by (auto simp: after_handler_def count_handled_def split: handled.splits dispatched.splits)

lemma rx_inv_after: "rx_inv get ok hh n (RxLoop, rd) \<Longrightarrow> rx_inv get ok hh n (after_handler k (h, rd))"
  by (simp add: rx_inv_def)

lemma rx_inv_shrink:
  assumes "rx_inv get ok hh n (pc, rd)" "ok mgr"
    and "\<And>a' n' k. get mgr a' n' = Some (hh_conn hh, k) \<Longrightarrow> get (rx_mgr rd) a' n' = Some (hh_conn hh, k)"
  shows "rx_inv get ok hh n (pc, rd\<lparr>rx_mgr := mgr\<rparr>)"
  using assms unfolding rx_inv_def by simp blast

locale reactor_manager =
  registrar "env_reg env" "env_unreg env" get ok
  for env :: "('u, 's) environment" and get :: "'s \<Rightarrow> string \<Rightarrow> string \<Rightarrow> client option" and ok :: "'s \<Rightarrow> bool"
begin

lemma rx_inv_complete:
  assumes inv: "rx_inv get ok hh n (RxLoop, rd)" and id: "hi_ID hi = n"
  shows "rx_inv get ok hh n (RxLoop, snd (handshake_complete (env_reg env) hh hi t rd))"
proof -
  let ?c = "(hh_conn hh, length (rx_services rd))"
  obtain err mgr where r: "env_reg env (rx_mgr rd) (hh_AccountNumber hh) n ?c = (err, mgr)" by fastforce
  have okm: "ok (rx_mgr rd)" using inv by (simp add: rx_inv_def)
  have "ok mgr" using reg_keeps_ok [OF okm, of "hh_AccountNumber hh" n ?c] r by simp
  moreover have "a' = hh_AccountNumber hh \<and> n' = n \<and> (rx_disconnectHandler rd \<noteq> None \<or> err = None)"
    if "get mgr a' n' = Some (hh_conn hh, k)" for a' n' k
    using reg_adds [OF okm, of "hh_AccountNumber hh" n ?c a' n'] r that inv unfolding rx_inv_def by fastforce
  ultimately show ?thesis
    using inv r unfolding handshake_complete_def Let_def id
    by (cases err) (auto simp: rx_inv_def RegisterHandler_def RegisterDisconnectHandler_def)
qed

lemma rx_inv_message:
  assumes inv: "rx_inv get ok hh n (RxLoop, rd)" and x: "x \<in> set (Run_message env hh hctx msg rd)"
    and id: "\<And>hi. msg = MHi hi \<Longrightarrow> hi_ID hi = n"
  shows "rx_inv get ok hh n x"
proof (cases "map_of (rx_handlers rd) (Message_Type msg)")
  case None
  then show ?thesis using x inv by (auto simp: Run_message_def rx_inv_def)
next
  case (Some h)
  show ?thesis
  proof (cases h)
    case HandshakeH
    then obtain h' rd' where h': "(h', rd') \<in> set (Handshake_HandleMessage (env_fmt env) (env_reg env) hh hctx msg rd)"
        "x = after_handler 0 (h', rd')"
      using x Some by (auto simp: Run_message_def)
    have "rx_inv get ok hh n (RxLoop, rd')"
      using Handshake_cases [OF h'(1)] rx_inv_complete [OF inv] id inv by (metis snd_conv)
    then show ?thesis
      unfolding h'(2) by (rule rx_inv_after)
  next
    case (RouteTableH k)
    then have "x = after_handler k (RouteTable_HandleMessage (env_fmt_edges env) (env_fmt_seen env) k msg rd)"
      using x Some by (simp add: Run_message_def)
    then show ?thesis using inv
      by (auto simp: rx_inv_def RouteTable_HandleMessage_def after_handler_def count_handled_def split: Message.splits)
  next
    case (PayloadH k)
    then have "x = after_handler k (Payload_HandleMessage (env_uuid_Parse env) k msg rd, rd)"
      using x Some by (simp add: Run_message_def)
    then show ?thesis using rx_inv_after [OF inv] by simp
  qed
qed

lemma rx_inv_step:
  assumes "rx_step env get peer hh x y" "rx_inv get ok hh n x" "\<And>hi. peer (MHi hi) \<Longrightarrow> hi_ID hi = n"
  shows "rx_inv get ok hh n y"
  using assms(1)
proof cases
  case (ctx_Done rd)
  then show ?thesis using assms(2) unreg_keeps_ok
    by (auto simp: rx_inv_def Run_done_def Disconnect_HandleMessage_def unreg_removes split: if_splits) blast+
next
  case (recv msg rd hctx)
  then show ?thesis using assms(2,3) by (auto intro: rx_inv_message)
next
  case (other_registers cl pc rd a m)
  have okm: "ok (rx_mgr rd)" using assms(2) other_registers(1) by (simp add: rx_inv_def)
  show ?thesis
    unfolding other_registers(2)
  proof (rule rx_inv_shrink [OF assms(2) [unfolded other_registers(1)] reg_keeps_ok [OF okm]])
    fix a' n' k
    assume "get (snd (env_reg env (rx_mgr rd) a m cl)) a' n' = Some (hh_conn hh, k)"
    then show "get (rx_mgr rd) a' n' = Some (hh_conn hh, k)"
      using reg_adds [OF okm, of a m cl a' n' "(hh_conn hh, k)"] other_registers(3) by force
  qed
next
  case (other_unregisters rd a m pc)
  then show ?thesis using assms(2) by (auto simp: rx_inv_def unreg_keeps_ok unreg_removes split: if_splits)
qed (use assms(2) in \<open>auto simp: rx_inv_def count_handled_def\<close>)

lemma rx_inv_reachable:
  assumes "(rx_step env get peer hh)\<^sup>*\<^sup>* (new_rx t mgr) x" "ok mgr" "\<And>a' n' k. get mgr a' n' \<noteq> Some (hh_conn hh, k)"
    and "\<And>hi. peer (MHi hi) \<Longrightarrow> hi_ID hi = n"
  shows "rx_inv get ok hh n x"
  using assms(1)
proof (induction rule: rtranclp_induct)
  case base
  then show ?case using assms(2,3)
    by (simp add: rx_inv_def new_rx_def RegisterHandler_def NewResponseReactor_def)
next
  case (step y z)
  then show ?case using rx_inv_step assms(4) by blast
qed

end

interpretation local_rx: reactor_manager "local_env fmt fmt_edges fmt_seen uuid_Parse" Local_GetConnection lcm_ok
  for fmt fmt_edges fmt_seen uuid_Parse
  unfolding reactor_manager_def local_env_def environment.simps by (rule lcm.registrar_axioms)

subsection \<open>Properties\<close>

definition sample_hh :: HandshakeHandler where
  "sample_hh = \<lparr>hh_AccountNumber = ''0001'', hh_NodeID = ''gateway'', hh_conn = 7\<rparr>"

definition sample_env :: "(string, client LocalConnectionManager) environment" where
  "sample_env = local_env (\<lambda>_. []) (\<lambda>_. []) (\<lambda>_. []) Some"

definition sample_transport :: Transport where
  "sample_transport = \<lparr>tr_Send = make_chan 4, tr_Recv = make_chan 4, tr_ControlChannel = make_chan 4, tr_Ctx = None\<rparr>"

definition sample_hi :: "string \<Rightarrow> Message" where
  "sample_hi n = MHi (new_HiMessage\<lparr>hi_Command := ''HI'', hi_ID := n\<rparr>)"

definition sample_start :: "rx_pc \<times> (string, client LocalConnectionManager) rx" where
  "sample_start = new_rx sample_transport NewLocalConnectionManager"

fun sample_handshake :: "string \<Rightarrow> rx_pc \<times> (string, client LocalConnectionManager) rx \<Rightarrow>
   rx_pc \<times> (string, client LocalConnectionManager) rx" where
  "sample_handshake n (pc, rd) = hd (Run_message sample_env sample_hh None (sample_hi n) rd)"

lemma sample_handshake_step:
  assumes "fst x = RxLoop" "Run_message sample_env sample_hh None (sample_hi n) (snd x) \<noteq> []"
    "tr_Ctx (rx_transport (snd x)) = None" "peer (sample_hi n)"
  shows "rx_step sample_env Local_GetConnection peer sample_hh x (sample_handshake n x)"
proof (cases x)
  case (Pair pc rd)
  show ?thesis using assms
    by (auto simp: Pair intro!: rx_step.recv [where hctx = None])
qed

lemma sample_one:
  "fst (sample_handshake ''a'' sample_start) = RxLoop"
  "Run_message sample_env sample_hh None (sample_hi ''a'') (snd sample_start) \<noteq> []"
  "tr_Ctx (rx_transport (snd sample_start)) = None" "fst sample_start = RxLoop"
  "tr_Ctx (rx_transport (snd (sample_handshake ''a'' sample_start))) = None"
  "Local_GetConnection (rx_mgr (snd (sample_handshake ''a'' sample_start))) ''0001'' ''a'' = Some (7, 0)"
  "rx_writer (snd (sample_handshake ''a'' sample_start))"
  by code_simp+

text \<open>A connection whose peer announces one node id keeps the connection manager clean: whatever the
  peer sends, whatever the write loop and the other connections do, the only entry of this connection
  is the one for its account and that node id, and when the reactor has returned none is left.\<close>

lemma reactor_unregisters:
  assumes "(rx_step (local_env fmt fmt_edges fmt_seen uuid_Parse) Local_GetConnection peer hh)\<^sup>*\<^sup>* (new_rx t mgr) (pc, rd)"
    and "lcm_ok mgr" "\<forall>a n k. Local_GetConnection mgr a n \<noteq> Some (hh_conn hh, k)"
    and "\<forall>hi. peer (MHi hi) \<longrightarrow> hi_ID hi = n"
    and "Local_GetConnection (rx_mgr rd) a' n' = Some (hh_conn hh, k)"
  shows "a' = hh_AccountNumber hh \<and> n' = n \<and> pc \<noteq> RxReturned"
proof -
  have "rx_inv Local_GetConnection lcm_ok hh n (pc, rd)"
    by (rule local_rx.rx_inv_reachable [OF assms(1,2)]) (use assms(3,4) in blast)+
  with assms(5) show ?thesis unfolding rx_inv_def fst_conv snd_conv by blast
qed

lemma reactor_unregisters_example:
  "\<exists>pc rd. (rx_step sample_env Local_GetConnection (\<lambda>m. m = sample_hi ''a'') sample_hh)\<^sup>*\<^sup>* sample_start (pc, rd) \<and>
     Local_GetConnection (rx_mgr rd) ''0001'' ''a'' = Some (hh_conn sample_hh, 0) \<and> pc \<noteq> RxReturned"
proof -
  obtain pc rd where x: "sample_handshake ''a'' sample_start = (pc, rd)" by fastforce
  have st: "(rx_step sample_env Local_GetConnection (\<lambda>m. m = sample_hi ''a'') sample_hh)\<^sup>*\<^sup>* sample_start (pc, rd)"
    unfolding x [symmetric] by (rule r_into_rtranclp, rule sample_handshake_step [OF sample_one(4,2,3) refl])
  have new: "lcm_ok NewLocalConnectionManager" "\<forall>a n k. Local_GetConnection NewLocalConnectionManager a n \<noteq> Some (hh_conn sample_hh, k)"
    "\<forall>hi. MHi hi = sample_hi ''a'' \<longrightarrow> hi_ID hi = ''a''"
    by (auto simp: lcm_ok_def NewLocalConnectionManager_def Local_GetConnection_def sample_hi_def)
  have g: "Local_GetConnection (rx_mgr rd) ''0001'' ''a'' = Some (hh_conn sample_hh, 0)"
    using sample_one(6) x by (simp add: sample_hh_def)
  from reactor_unregisters [OF st [unfolded sample_env_def sample_start_def] new g] st g show ?thesis by blast
qed

text \<open>A second handshake on the same connection with another node id replaces the disconnect handler:
  when the connection ends, the entry of the first node id stays in the connection manager.\<close>

lemma second_handshake_leaks:
  assumes "lcm_ok (rx_mgr rd)" "Local_GetConnection (rx_mgr rd) (hh_AccountNumber hh) n = Some c"
    and "map_of (rx_handlers rd) HiMessageType = Some HandshakeH" "hi_ID hi \<noteq> n"
    and "(RxLoop, rd') \<in> set (Run_message (local_env fmt fmt_edges fmt_seen uuid_Parse) hh None (MHi hi) rd)"
  shows "Local_GetConnection (rx_mgr (snd (Run_done Local_Unregister rd'))) (hh_AccountNumber hh) n = Some c"
proof -
  let ?env = "local_env fmt fmt_edges fmt_seen uuid_Parse"
  obtain t where r: "(RxLoop, rd') = after_handler 0 (handshake_complete Local_Register hh hi t rd)"
    using assms(3,5) by (auto simp: Run_message_def Handshake_HandleMessage_def local_env_def Let_def split: if_splits)
  let ?c = "(hh_conn hh, length (rx_services rd))"
  obtain err mgr where reg: "Local_Register (rx_mgr rd) (hh_AccountNumber hh) (hi_ID hi) ?c = (err, mgr)" by fastforce
  have "err = None" and mgr: "rx_mgr rd' = mgr"
    and dis: "rx_disconnectHandler rd' = Some \<lparr>dh_AccountNumber = hh_AccountNumber hh, dh_NodeID = hi_ID hi\<rparr>"
    using r reg by (auto simp: handshake_complete_def after_handler_def Let_def count_handled_def RegisterHandler_def
        RegisterDisconnectHandler_def split: option.splits)
  have "lcm_ok mgr" using Local_Register_ok [OF assms(1), of "hh_AccountNumber hh" "hi_ID hi" ?c] reg by simp
  moreover have "Local_GetConnection mgr (hh_AccountNumber hh) n = Some c"
    using lcm.reg_other [OF assms(1), of "hh_AccountNumber hh" n "hh_AccountNumber hh" "hi_ID hi" ?c] reg assms(2,4) by simp
  ultimately show ?thesis
    using assms(4) by (simp add: Run_done_def dis Disconnect_HandleMessage_def mgr lcm.unreg_get)
qed

lemma sample_two:
  "Local_GetConnection (rx_mgr (snd (sample_handshake ''a'' sample_start))) (hh_AccountNumber sample_hh) ''a'' = Some (7, 0)"
  "map_of (rx_handlers (snd (sample_handshake ''a'' sample_start))) HiMessageType = Some HandshakeH"
  "Run_message sample_env sample_hh None (sample_hi ''b'') (snd (sample_handshake ''a'' sample_start)) =
     [(RxLoop, snd (sample_handshake ''b'' (sample_handshake ''a'' sample_start)))]"
  by code_simp+

lemma second_handshake_leaks_example:
  "Local_GetConnection (rx_mgr (snd (Run_done Local_Unregister
     (snd (sample_handshake ''b'' (sample_handshake ''a'' sample_start)))))) ''0001'' ''a'' = Some (7, 0)"
proof -
  have ok: "lcm_ok (rx_mgr (snd (sample_handshake ''a'' sample_start)))" by code_simp
  show ?thesis
    using second_handshake_leaks [OF ok sample_two(1,2), of "new_HiMessage\<lparr>hi_Command := ''HI'', hi_ID := ''b''\<rparr>"
        "snd (sample_handshake ''b'' (sample_handshake ''a'' sample_start))" "\<lambda>_. []" "\<lambda>_. []" "\<lambda>_. []" Some] sample_two(3)
    by (simp add: sample_hi_def sample_env_def [symmetric] sample_hh_def)
qed

text \<open>Property C36. After the handshake, a peer that sends a payload frame without a header frame makes the reactor
  panic: the frame is read as a message without routing information, which the payload handler
  dereferences.\<close>

theorem lone_payload_panics:
  assumes "map_of (rx_handlers rd) PayloadMessageType = Some (PayloadH k)"
    and "PayloadMessage_unmarshal p new_PayloadMessage = Inr pm" "length p < 2 ^ 32"
  shows "\<exists>msg. ReadMessage (frame_bytes PayloadFrameType p @ rest) = (Ok msg, rest) \<and>
     Run_message env hh hctx msg rd = [(RxPanicked, rd)]"
  using ReadMessage_lone_payload [OF assms(2,3), of rest] assms(1)
  by (simp add: Run_message_def Payload_HandleMessage_def after_handler_def DispatchResponse_def)

lemma sample_payload_handler:
  "map_of (rx_handlers (snd (sample_handshake ''a'' sample_start))) PayloadMessageType = Some (PayloadH 0)"
  by code_simp

theorem lone_payload_panics_witness:
  "\<exists>msg. ReadMessage (frame_bytes PayloadFrameType ''{}'' @ []) = (Ok msg, []) \<and>
     Run_message sample_env sample_hh None msg (snd (sample_handshake ''a'' sample_start)) =
       [(RxPanicked, snd (sample_handshake ''a'' sample_start))]"
  by (rule lone_payload_panics [OF sample_payload_handler empty_payload]) simp

text \<open>Property C38. If the write loop has ended when the handshake handler reports an error, the reactor stays in the
  send on the error channel forever, also after the connection is cancelled: the disconnect handler
  never runs and what the connection registered stays registered.\<close>

theorem error_send_blocks_forever:
  assumes "\<not> rx_writer rd" "lcm_ok (rx_mgr rd)" "Local_GetConnection (rx_mgr rd) a n = Some (hh_conn hh, k)"
    and "(rx_step (local_env fmt fmt_edges fmt_seen uuid_Parse) Local_GetConnection peer hh)\<^sup>*\<^sup>* (RxSendError e, rd) x"
  shows "fst x = RxSendError e \<and> Local_GetConnection (rx_mgr (snd x)) a n = Some (hh_conn hh, k)"
proof -
  have "fst x = RxSendError e \<and> \<not> rx_writer (snd x) \<and> lcm_ok (rx_mgr (snd x)) \<and>
      Local_GetConnection (rx_mgr (snd x)) a n = Some (hh_conn hh, k)"
    using assms(4)
  proof (induction rule: rtranclp_induct)
    case base
    then show ?case using assms by simp
  next
    case (step y z)
    from step(2) step.IH show ?case
      by cases (auto simp: local_env_def lcm.reg_ok lcm.unreg_ok lcm.reg_get lcm.unreg_get)
  qed
  then show ?thesis by blast
qed

definition sample_second :: "rx_pc \<times> (string, client LocalConnectionManager) rx" where
  "sample_second = sample_handshake ''a'' (sample_handshake ''a'' sample_start)"

definition sample_closed :: "rx_pc \<times> (string, client LocalConnectionManager) rx" where
  "sample_closed = (RxLoop, count_handled ((snd sample_second)\<lparr>rx_writer := False\<rparr>))"

definition sample_third :: "rx_pc \<times> (string, client LocalConnectionManager) rx" where
  "sample_third = sample_handshake ''a'' sample_closed"

definition sample_error :: ReceptorErrorMessage where
  "sample_error = \<lparr>rerr_AccountNumber = ''0001'', rerr_Error = ''duplicate node id''\<rparr>"

lemma sample_three:
  "Run_message sample_env sample_hh None (sample_hi ''a'') (snd (sample_handshake ''a'' sample_start)) \<noteq> []"
  "fst sample_second = RxSendError sample_error" "rx_writer (snd sample_second)"
  "Run_message sample_env sample_hh None (sample_hi ''a'') (snd sample_closed) \<noteq> []"
  "tr_Ctx (rx_transport (snd sample_closed)) = None"
  "fst sample_third = RxSendError sample_error" "\<not> rx_writer (snd sample_third)" "lcm_ok (rx_mgr (snd sample_third))"
  "Local_GetConnection (rx_mgr (snd sample_third)) ''0001'' ''a'' = Some (hh_conn sample_hh, 0)"
  by code_simp+

text \<open>A peer that sends its handshake three times reaches such a state: the second is refused as a
  duplicate, which ends the write loop, and the third finds it gone.\<close>

lemma sample_third_reachable:
  "(rx_step sample_env Local_GetConnection (\<lambda>m. m = sample_hi ''a'') sample_hh)\<^sup>*\<^sup>* sample_start sample_third"
proof -
  let ?st = "rx_step sample_env Local_GetConnection (\<lambda>m. m = sample_hi ''a'') sample_hh"
  have 1: "?st sample_start (sample_handshake ''a'' sample_start)"
    by (rule sample_handshake_step [OF sample_one(4,2,3) refl])
  have 2: "?st (sample_handshake ''a'' sample_start) sample_second"
    unfolding sample_second_def by (rule sample_handshake_step [OF sample_one(1) sample_three(1) sample_one(5) refl])
  have "sample_second = (RxSendError sample_error, snd sample_second)" using sample_three(2) by (simp add: prod_eq_iff)
  then have 3: "?st sample_second sample_closed"
    using rx_step.error_taken [OF sample_three(3)] unfolding sample_closed_def by metis
  have 4: "?st sample_closed sample_third"
    unfolding sample_third_def
    by (rule sample_handshake_step [OF _ sample_three(4,5) refl]) (simp add: sample_closed_def)
  show ?thesis using 1 2 3 4 by (meson converse_rtranclp_into_rtranclp rtranclp.rtrancl_refl)
qed

theorem error_send_blocks_forever_witness:
  "(rx_step sample_env Local_GetConnection (\<lambda>m. m = sample_hi ''a'') sample_hh)\<^sup>*\<^sup>* sample_start sample_third \<and>
   {x. (rx_step sample_env Local_GetConnection (\<lambda>m. m = sample_hi ''a'') sample_hh)\<^sup>*\<^sup>* sample_third x} \<subseteq>
   {x. fst x = RxSendError sample_error \<and> Local_GetConnection (rx_mgr (snd x)) ''0001'' ''a'' = Some (hh_conn sample_hh, 0)}"
proof -
  have third: "sample_third = (RxSendError sample_error, snd sample_third)" using sample_three(6) by (simp add: prod_eq_iff)
  have "fst x = RxSendError sample_error \<and> Local_GetConnection (rx_mgr (snd x)) ''0001'' ''a'' = Some (hh_conn sample_hh, 0)"
    if "(rx_step sample_env Local_GetConnection (\<lambda>m. m = sample_hi ''a'') sample_hh)\<^sup>*\<^sup>* sample_third x" for x
    using error_send_blocks_forever [OF sample_three(7-9)] that third unfolding sample_env_def by metis
  then show ?thesis using sample_third_reachable by blast
qed

end
