(* ===== verification/Config.thy ===== *)
theory Config
  imports Timestamp
begin

text \<open>
  The configuration (\<open>internal/config/config.go\<close>). Durations are nanoseconds in Go's 64-bit integers,
  whose arithmetic wraps. The packages \<open>viper\<close> and \<open>clowder\<close> are parameters: \<open>viper\<close> takes the defaults
  that the code sets and gives the functions that read an option; \<open>clowder\<close> is the configuration the
  platform loaded, if it is enabled. Loading it may panic: no broker, a nil pointer, a certificate
  that cannot be written.
\<close>

subsection \<open>Durations\<close>

definition wrap64 :: "int \<Rightarrow> int" where
  "wrap64 i = (i + 2 ^ 63) mod 2 ^ 64 - 2 ^ 63"

definition Second :: int where
  "Second = 1000000000"

text \<open>Go's integer division truncates towards zero.\<close>

definition go_div :: "int \<Rightarrow> int \<Rightarrow> int" where
  "go_div a b = (if (a < 0) = (b < 0) then \<bar>a\<bar> div \<bar>b\<bar> else - (\<bar>a\<bar> div \<bar>b\<bar>))"

definition calculatePingPeriod :: "int \<Rightarrow> int" where
  "calculatePingPeriod pongWait = go_div (wrap64 (pongWait * 9)) 10"

text \<open>\<open>Duration.String\<close>: a fraction with trailing zeros removed, units below a second, and hours,
  minutes and seconds.\<close>

definition frac_text :: "nat \<Rightarrow> nat \<Rightarrow> string" where
  "frac_text prec r = (let ds = trim_zeros (pad prec r) in if ds = [] then [] else CHR ''.'' # ds)"

definition Duration_String :: "int \<Rightarrow> string" where
  "Duration_String d =
     (let u = nat \<bar>d\<bar>; s = u div 1000000000; m = s div 60; h = m div 60 in
      (if d < 0 then ''-'' else []) @
      (if u = 0 then ''0s''
       else if u < 1000 then nat_text u @ ''ns''
       else if u < 1000000 then nat_text (u div 1000) @ frac_text 3 (u mod 1000) @ [CHR 0xC2, CHR 0xB5, CHR ''s'']
       else if u < 1000000000 then nat_text (u div 1000000) @ frac_text 6 (u mod 1000000) @ ''ms''
       else (if h > 0 then nat_text h @ ''h'' else []) @ (if m > 0 then nat_text (m mod 60) @ ''m'' else []) @
            nat_text (s mod 60) @ frac_text 9 (u mod 1000000000) @ ''s''))"

subsection \<open>The options\<close>

datatype option_key =
    HANDSHAKE_READ_WAIT
  | WRITE_WAIT
  | PONG_WAIT
  | PING_PERIOD
  | RECEPTOR_SYNC_PING_TIMEOUT
  | HTTP_SHUTDOWN_TIMEOUT
  | MAX_MESSAGE_SIZE
  | SOCKET_BUFFER_SIZE
  | BUFFERED_CHANNEL_SIZE
  | SERVICE_TO_SERVICE_CREDENTIALS
  | PROFILE
  | BROKERS
  | JOBS_TOPIC
  | JOBS_GROUP_ID
  | JOBS_CONSUMER_OFFSET
  | RESPONSES_TOPIC
  | RESPONSES_BATCH_SIZE
  | RESPONSES_BATCH_BYTES
  | KAFKA_SASL_USERNAME
  | KAFKA_SASL_PASSWORD
  | KAFKA_SASL_MECHANISM
  | KAFKA_CA_PATH
  | REDIS_HOST
  | REDIS_PORT
  | REDIS_PASSWORD
  | REDIS_DB
  | JOB_RECEIVER_RECEPTOR_PROXY_CLIENT_ID
  | JOB_RECEIVER_RECEPTOR_PROXY_PSK
  | JOB_RECEIVER_RECEPTOR_PROXY_SCHEME
  | JOB_RECEIVER_RECEPTOR_PROXY_PORT
  | JOB_RECEIVER_RECEPTOR_PROXY_TIMEOUT
  | GATEWAY_CONNECTION_REGISTRAR_IMPL
  | GATEWAY_ACTIVE_CONNECTION_REGISTRAR_POLL_MIN_DELAY
  | GATEWAY_ACTIVE_CONNECTION_REGISTRAR_POLL_MAX_DELAY
  | GATEWAY_CLUSTER_SERVICE_NAME
  | NODE_ID
  | PROMETHEUS_PUSH_GATEWAY

text \<open>The name of an option, as it is printed and looked up.\<close>

fun key_name :: "option_key \<Rightarrow> string" where
  "key_name HANDSHAKE_READ_WAIT = ''WebSocket_Handshake_Read_Wait''"
| "key_name WRITE_WAIT = ''WebSocket_Write_Wait''"
| "key_name PONG_WAIT = ''WebSocket_Pong_Wait''"
| "key_name PING_PERIOD = ''WebSocket_Ping_Period''"
| "key_name RECEPTOR_SYNC_PING_TIMEOUT = ''Receptor_Sync_Ping_Timeout''"
| "key_name HTTP_SHUTDOWN_TIMEOUT = ''HTTP_Shutdown_Timeout''"
| "key_name MAX_MESSAGE_SIZE = ''WebSocket_Max_Message_Size''"
| "key_name SOCKET_BUFFER_SIZE = ''WebSocket_IO_Buffer_Size''"
| "key_name BUFFERED_CHANNEL_SIZE = ''WebSocket_Buffered_Channel_Size''"
| "key_name SERVICE_TO_SERVICE_CREDENTIALS = ''Service_To_Service_Credentials''"
| "key_name PROFILE = ''Enable_Profile''"
| "key_name BROKERS = ''Kafka_Brokers''"
| "key_name JOBS_TOPIC = ''Kafka_Jobs_Topic''"
| "key_name JOBS_GROUP_ID = ''Kafka_Jobs_Group_Id''"
| "key_name JOBS_CONSUMER_OFFSET = ''Kafka_Jobs_Consumer_Offset''"
| "key_name RESPONSES_TOPIC = ''Kafka_Responses_Topic''"
| "key_name RESPONSES_BATCH_SIZE = ''Kafka_Responses_Batch_Size''"
| "key_name RESPONSES_BATCH_BYTES = ''Kafka_Responses_Batch_Bytes''"
| "key_name KAFKA_SASL_USERNAME = ''Kafka_SASL_Username''"
| "key_name KAFKA_SASL_PASSWORD = ''Kafka_SASL_Password''"
| "key_name KAFKA_SASL_MECHANISM = ''Kafka_SASL_Mechanism''"
| "key_name KAFKA_CA_PATH = ''Kafka_CA_Path''"
| "key_name REDIS_HOST = ''Redis_Host''"
| "key_name REDIS_PORT = ''Redis_Port''"
| "key_name REDIS_PASSWORD = ''Redis_Password''"
| "key_name REDIS_DB = ''Redis_DB''"
| "key_name JOB_RECEIVER_RECEPTOR_PROXY_CLIENT_ID = ''Job_Receiver_Receptor_Proxy_ClientID''"
| "key_name JOB_RECEIVER_RECEPTOR_PROXY_PSK = ''Job_Receiver_Receptor_Proxy_PSK''"
| "key_name JOB_RECEIVER_RECEPTOR_PROXY_SCHEME = ''Job_Receiver_Receptor_Proxy_Scheme''"
| "key_name JOB_RECEIVER_RECEPTOR_PROXY_PORT = ''Job_Receiver_Receptor_Proxy_Port''"
| "key_name JOB_RECEIVER_RECEPTOR_PROXY_TIMEOUT = ''Job_Receiver_Receptor_Proxy_Timeout''"
| "key_name GATEWAY_CONNECTION_REGISTRAR_IMPL = ''Gateway_Connection_Registrar_Impl''"
| "key_name GATEWAY_ACTIVE_CONNECTION_REGISTRAR_POLL_MIN_DELAY = ''Gateway_Active_Connection_Registrar_Poll_Min_Delay''"
| "key_name GATEWAY_ACTIVE_CONNECTION_REGISTRAR_POLL_MAX_DELAY = ''Gateway_Active_Connection_Registrar_Poll_Max_Delay''"
| "key_name GATEWAY_CLUSTER_SERVICE_NAME = ''Gateway_Cluster_Service_Name''"
| "key_name NODE_ID = ''ReceptorControllerNodeId''"
| "key_name PROMETHEUS_PUSH_GATEWAY = ''Prometheus_Push_Gateway''"

definition DEFAULT_BROKER_ADDRESS :: string where
  "DEFAULT_BROKER_ADDRESS = ''kafka:29092''"

record Config =
  cfg_HandshakeReadWait :: int
  cfg_WriteWait :: int
  cfg_PongWait :: int
  cfg_PingPeriod :: int
  cfg_ReceptorSyncPingTimeout :: int
  cfg_HttpShutdownTimeout :: int
  cfg_MaxMessageSize :: int
  cfg_SocketBufferSize :: int
  cfg_BufferedChannelSize :: int
  cfg_ServiceToServiceCredentials :: "(string, goany) gomap"
  cfg_Profile :: bool
  cfg_ReceptorControllerNodeId :: string
  cfg_KafkaBrokers :: "string list"
  cfg_KafkaJobsTopic :: string
  cfg_KafkaResponsesTopic :: string
  cfg_KafkaResponsesBatchSize :: int
  cfg_KafkaResponsesBatchBytes :: int
  cfg_KafkaGroupID :: string
  cfg_KafkaConsumerOffset :: int
  cfg_KafkaSaslUsername :: string
  cfg_KafkaSaslPassword :: string
  cfg_KafkaSaslMechanism :: string
  cfg_KafkaCAPath :: string
  cfg_RedisHost :: string
  cfg_RedisPort :: string
  cfg_RedisPassword :: string
  cfg_RedisDB :: int
  cfg_JobReceiverReceptorProxyClientID :: string
  cfg_JobReceiverReceptorProxyPSK :: string
  cfg_JobReceiverReceptorProxyScheme :: string
  cfg_JobReceiverReceptorProxyPort :: int
  cfg_JobReceiverReceptorProxyTimeout :: int
  cfg_GatewayConnectionRegistrarImpl :: string
  cfg_GatewayActiveConnectionRegistrarPollMinDelay :: int
  cfg_GatewayActiveConnectionRegistrarPollMaxDelay :: int
  cfg_GatewayClusterServiceName :: string
  cfg_PrometheusPushGateway :: string

text \<open>\<open>%t\<close> of a boolean and \<open>%s\<close> of a slice of strings.\<close>

definition bool_text :: "bool \<Rightarrow> string" where
  "bool_text b = (if b then ''true'' else ''false'')"

fun join_space :: "string list \<Rightarrow> string" where
  "join_space [] = []"
| "join_space [s] = s"
| "join_space (s # ss) = s @ '' '' @ join_space ss"

definition strings_text :: "string list \<Rightarrow> string" where
  "strings_text ss = ''['' @ join_space ss @ '']''"

definition config_line :: "option_key \<Rightarrow> string \<Rightarrow> string" where
  "config_line k v = key_name k @ '': '' @ v @ [CHR 0x0A]"

definition Config_String :: "Config \<Rightarrow> string" where
  "Config_String c = concat [
     config_line HANDSHAKE_READ_WAIT (Duration_String (cfg_HandshakeReadWait c)),
     config_line WRITE_WAIT (Duration_String (cfg_WriteWait c)),
     config_line PONG_WAIT (Duration_String (cfg_PongWait c)),
     config_line PING_PERIOD (Duration_String (cfg_PingPeriod c)),
     config_line RECEPTOR_SYNC_PING_TIMEOUT (Duration_String (cfg_ReceptorSyncPingTimeout c)),
     config_line HTTP_SHUTDOWN_TIMEOUT (Duration_String (cfg_HttpShutdownTimeout c)),
     config_line MAX_MESSAGE_SIZE (int_text (cfg_MaxMessageSize c)),
     config_line SOCKET_BUFFER_SIZE (int_text (cfg_SocketBufferSize c)),
     config_line BUFFERED_CHANNEL_SIZE (int_text (cfg_BufferedChannelSize c)),
     config_line PROFILE (bool_text (cfg_Profile c)),
     config_line NODE_ID (cfg_ReceptorControllerNodeId c),
     config_line BROKERS (strings_text (cfg_KafkaBrokers c)),
     config_line JOBS_TOPIC (cfg_KafkaJobsTopic c),
     config_line RESPONSES_TOPIC (cfg_KafkaResponsesTopic c),
     config_line RESPONSES_BATCH_SIZE (int_text (cfg_KafkaResponsesBatchSize c)),
     config_line RESPONSES_BATCH_BYTES (int_text (cfg_KafkaResponsesBatchBytes c)),
     config_line JOBS_GROUP_ID (cfg_KafkaGroupID c),
     config_line JOBS_CONSUMER_OFFSET (int_text (cfg_KafkaConsumerOffset c)),
     config_line KAFKA_SASL_MECHANISM (cfg_KafkaSaslMechanism c),
     config_line KAFKA_CA_PATH (cfg_KafkaCAPath c),
     config_line REDIS_HOST (cfg_RedisHost c),
     config_line REDIS_PORT (cfg_RedisPort c),
     config_line REDIS_DB (int_text (cfg_RedisDB c)),
     config_line JOB_RECEIVER_RECEPTOR_PROXY_CLIENT_ID (cfg_JobReceiverReceptorProxyClientID c),
     config_line JOB_RECEIVER_RECEPTOR_PROXY_SCHEME (cfg_JobReceiverReceptorProxyScheme c),
     config_line JOB_RECEIVER_RECEPTOR_PROXY_PORT (int_text (cfg_JobReceiverReceptorProxyPort c)),
     config_line JOB_RECEIVER_RECEPTOR_PROXY_TIMEOUT (Duration_String (cfg_JobReceiverReceptorProxyTimeout c)),
     config_line GATEWAY_CONNECTION_REGISTRAR_IMPL (cfg_GatewayConnectionRegistrarImpl c),
     config_line GATEWAY_ACTIVE_CONNECTION_REGISTRAR_POLL_MIN_DELAY (int_text (cfg_GatewayActiveConnectionRegistrarPollMinDelay c)),
     config_line GATEWAY_ACTIVE_CONNECTION_REGISTRAR_POLL_MAX_DELAY (int_text (cfg_GatewayActiveConnectionRegistrarPollMaxDelay c)),
     config_line GATEWAY_CLUSTER_SERVICE_NAME (cfg_GatewayClusterServiceName c),
     config_line PROMETHEUS_PUSH_GATEWAY (cfg_PrometheusPushGateway c)]"

text \<open>The values given to \<open>SetDefault\<close>.\<close>

datatype option_value = OInt int | OStr string | OBool bool | OStrs "string list"

definition defaults :: "(option_key, option_value) gomap" where
  "defaults = [
     (HANDSHAKE_READ_WAIT, OInt 5),
     (WRITE_WAIT, OInt 5),
     (PONG_WAIT, OInt 25),
     (RECEPTOR_SYNC_PING_TIMEOUT, OInt 10),
     (HTTP_SHUTDOWN_TIMEOUT, OInt 2),
     (MAX_MESSAGE_SIZE, OInt (1 * 1024 * 1024)),
     (SOCKET_BUFFER_SIZE, OInt 1024),
     (BUFFERED_CHANNEL_SIZE, OInt 10),
     (SERVICE_TO_SERVICE_CREDENTIALS, OStr ''''),
     (PROFILE, OBool False),
     (NODE_ID, OStr ''node-cloud-receptor-controller''),
     (BROKERS, OStrs [DEFAULT_BROKER_ADDRESS]),
     (JOBS_TOPIC, OStr ''platform.receptor-controller.jobs''),
     (RESPONSES_TOPIC, OStr ''platform.receptor-controller.responses''),
     (RESPONSES_BATCH_SIZE, OInt 100),
     (RESPONSES_BATCH_BYTES, OInt 1048576),
     (JOBS_GROUP_ID, OStr ''receptor-controller''),
     (JOBS_CONSUMER_OFFSET, OInt (- 1)),
     (REDIS_HOST, OStr ''localhost''),
     (REDIS_PORT, OStr ''6379''),
     (REDIS_PASSWORD, OStr ''''),
     (REDIS_DB, OInt 0),
     (JOB_RECEIVER_RECEPTOR_PROXY_CLIENT_ID, OStr ''job_receiver''),
     (JOB_RECEIVER_RECEPTOR_PROXY_PSK, OStr ''''),
     (JOB_RECEIVER_RECEPTOR_PROXY_SCHEME, OStr ''http''),
     (JOB_RECEIVER_RECEPTOR_PROXY_PORT, OInt 9090),
     (JOB_RECEIVER_RECEPTOR_PROXY_TIMEOUT, OInt 10),
     (GATEWAY_CONNECTION_REGISTRAR_IMPL, OStr ''local''),
     (GATEWAY_ACTIVE_CONNECTION_REGISTRAR_POLL_MIN_DELAY, OInt (5 * 1000)),
     (GATEWAY_ACTIVE_CONNECTION_REGISTRAR_POLL_MAX_DELAY, OInt (10 * 1000)),
     (GATEWAY_CLUSTER_SERVICE_NAME, OStr ''receptor-gateway-internal''),
     (PROMETHEUS_PUSH_GATEWAY, OStr ''prometheus-push.insights-push-prod.svc.cluster.local:9091'')]"

subsection \<open>Reading the configuration\<close>

text \<open>The getters of \<open>viper\<close>; the prefix of the environment variables is part of the parameter.\<close>

record viper =
  v_GetDuration :: "option_key \<Rightarrow> int"
  v_GetInt64 :: "option_key \<Rightarrow> int"
  v_GetInt :: "option_key \<Rightarrow> int"
  v_GetBool :: "option_key \<Rightarrow> bool"
  v_GetString :: "option_key \<Rightarrow> string"
  v_GetStringSlice :: "option_key \<Rightarrow> string list"
  v_GetStringMap :: "option_key \<Rightarrow> (string, goany) gomap"

text \<open>What the code reads of the platform's configuration; a pointer is an option. \<open>cl_KafkaCa\<close> is the
  path the certificate of a broker was written to.\<close>

record clowder_sasl =
  sasl_Username :: "string option"
  sasl_Password :: "string option"
  sasl_SaslMechanism :: "string option"

record clowder_broker =
  br_Authtype :: "string option"
  br_Sasl :: "clowder_sasl option"
  br_Cacert :: "string option"

record clowder =
  cl_Brokers :: "clowder_broker list"
  cl_InMemoryDb :: "(string \<times> int) option"
  cl_KafkaServers :: "string list"
  cl_KafkaTopics :: "(string, string) gomap"
  cl_KafkaCa :: "clowder_broker \<Rightarrow> string option"

definition options_config :: "viper \<Rightarrow> Config" where
  "options_config options =
     (let writeWait = wrap64 (v_GetDuration options WRITE_WAIT * Second);
          pongWait = wrap64 (v_GetDuration options PONG_WAIT * Second);
          pingPeriod = calculatePingPeriod pongWait
      in \<lparr>cfg_HandshakeReadWait = wrap64 (v_GetDuration options HANDSHAKE_READ_WAIT * Second),
         cfg_WriteWait = writeWait,
         cfg_PongWait = pongWait,
         cfg_PingPeriod = pingPeriod,
         cfg_ReceptorSyncPingTimeout = wrap64 (v_GetDuration options RECEPTOR_SYNC_PING_TIMEOUT * Second),
         cfg_HttpShutdownTimeout = wrap64 (v_GetDuration options HTTP_SHUTDOWN_TIMEOUT * Second),
         cfg_MaxMessageSize = v_GetInt64 options MAX_MESSAGE_SIZE,
         cfg_SocketBufferSize = v_GetInt options SOCKET_BUFFER_SIZE,
         cfg_BufferedChannelSize = v_GetInt options BUFFERED_CHANNEL_SIZE,
         cfg_ServiceToServiceCredentials = v_GetStringMap options SERVICE_TO_SERVICE_CREDENTIALS,
         cfg_Profile = v_GetBool options PROFILE,
         cfg_ReceptorControllerNodeId = v_GetString options NODE_ID,
         cfg_KafkaBrokers = v_GetStringSlice options BROKERS,
         cfg_KafkaJobsTopic = v_GetString options JOBS_TOPIC,
         cfg_KafkaResponsesTopic = v_GetString options RESPONSES_TOPIC,
         cfg_KafkaResponsesBatchSize = v_GetInt options RESPONSES_BATCH_SIZE,
         cfg_KafkaResponsesBatchBytes = v_GetInt options RESPONSES_BATCH_BYTES,
         cfg_KafkaGroupID = v_GetString options JOBS_GROUP_ID,
         cfg_KafkaConsumerOffset = v_GetInt64 options JOBS_CONSUMER_OFFSET,
         cfg_KafkaSaslUsername = v_GetString options KAFKA_SASL_USERNAME,
         cfg_KafkaSaslPassword = v_GetString options KAFKA_SASL_PASSWORD,
         cfg_KafkaSaslMechanism = v_GetString options KAFKA_SASL_MECHANISM,
         cfg_KafkaCAPath = v_GetString options KAFKA_CA_PATH,
         cfg_RedisHost = v_GetString options REDIS_HOST,
         cfg_RedisPort = v_GetString options REDIS_PORT,
         cfg_RedisPassword = v_GetString options REDIS_PASSWORD,
         cfg_RedisDB = v_GetInt options REDIS_DB,
         cfg_JobReceiverReceptorProxyClientID = v_GetString options JOB_RECEIVER_RECEPTOR_PROXY_CLIENT_ID,
         cfg_JobReceiverReceptorProxyPSK = v_GetString options JOB_RECEIVER_RECEPTOR_PROXY_PSK,
         cfg_JobReceiverReceptorProxyScheme = v_GetString options JOB_RECEIVER_RECEPTOR_PROXY_SCHEME,
         cfg_JobReceiverReceptorProxyPort = v_GetInt options JOB_RECEIVER_RECEPTOR_PROXY_PORT,
         cfg_JobReceiverReceptorProxyTimeout = wrap64 (v_GetDuration options JOB_RECEIVER_RECEPTOR_PROXY_TIMEOUT * Second),
         cfg_GatewayConnectionRegistrarImpl = v_GetString options GATEWAY_CONNECTION_REGISTRAR_IMPL,
         cfg_GatewayActiveConnectionRegistrarPollMinDelay = v_GetInt options GATEWAY_ACTIVE_CONNECTION_REGISTRAR_POLL_MIN_DELAY,
         cfg_GatewayActiveConnectionRegistrarPollMaxDelay = v_GetInt options GATEWAY_ACTIVE_CONNECTION_REGISTRAR_POLL_MAX_DELAY,
         cfg_GatewayClusterServiceName = v_GetString options GATEWAY_CLUSTER_SERVICE_NAME,
         cfg_PrometheusPushGateway = v_GetString options PROMETHEUS_PUSH_GATEWAY\<rparr>)"

text \<open>The SASL settings of a broker.\<close>

definition clowder_auth :: "clowder \<Rightarrow> clowder_broker \<Rightarrow> Config \<Rightarrow> (unit, Config) outcome" where
  "clowder_auth cfg broker config =
     (case br_Authtype broker of
        None \<Rightarrow> Ok config
      | Some _ \<Rightarrow>
          (case br_Sasl broker of
             None \<Rightarrow> Panic
           | Some sasl \<Rightarrow>
               (case (sasl_Username sasl, sasl_Password sasl, sasl_SaslMechanism sasl) of
                  (Some u, Some p, Some m) \<Rightarrow>
                    (let config = config\<lparr>cfg_KafkaSaslUsername := u, cfg_KafkaSaslPassword := p,
                           cfg_KafkaSaslMechanism := m\<rparr>
                     in (case br_Cacert broker of
                           None \<Rightarrow> Ok config
                         | Some _ \<Rightarrow>
                             (case cl_KafkaCa cfg broker of
                                None \<Rightarrow> Panic
                              | Some caPath \<Rightarrow> Ok (config\<lparr>cfg_KafkaCAPath := caPath\<rparr>))))
                | _ \<Rightarrow> Panic)))"

definition GetConfig ::
  "((option_key, option_value) gomap \<Rightarrow> viper) \<Rightarrow> clowder option \<Rightarrow> (unit, Config) outcome" where
  "GetConfig viper_with loaded =
     (let config = options_config (viper_with defaults) in
      case loaded of
        None \<Rightarrow> Ok config
      | Some cfg \<Rightarrow>
          (case cl_Brokers cfg of
             [] \<Rightarrow> Panic
           | broker # _ \<Rightarrow>
               (case cl_InMemoryDb cfg of
                  None \<Rightarrow> Panic
                | Some (hostname, port) \<Rightarrow>
                    (case map_of (cl_KafkaTopics cfg) ''platform.receptor-controller.responses'' of
                       None \<Rightarrow> Panic
                     | Some name \<Rightarrow>
                         clowder_auth cfg broker
                           (config\<lparr>cfg_RedisHost := hostname, cfg_RedisPort := int_text port,
                              cfg_KafkaBrokers := cl_KafkaServers cfg, cfg_KafkaResponsesTopic := name\<rparr>)))))"

subsection \<open>Properties\<close>

lemma wrap64_id: "- (2 ^ 63) \<le> i \<Longrightarrow> i < 2 ^ 63 \<Longrightarrow> wrap64 i = i"
  by (simp add: wrap64_def)

lemma clowder_auth_waits:
  "clowder_auth cfg broker config = Ok c \<Longrightarrow> cfg_PongWait c = cfg_PongWait config \<and> cfg_PingPeriod c = cfg_PingPeriod config"
  by (auto simp: clowder_auth_def Let_def split: option.splits)

lemma GetConfig_waits:
  assumes "GetConfig viper_with loaded = Ok c"
  shows "cfg_PongWait c = wrap64 (v_GetDuration (viper_with defaults) PONG_WAIT * Second) \<and>
    cfg_PingPeriod c = calculatePingPeriod (cfg_PongWait c)"
  using assms
  by (auto simp: GetConfig_def options_config_def Let_def dest!: clowder_auth_waits split: option.splits list.splits)

text \<open>No secret is printed: the text of a configuration does not depend on passwords, keys, credentials and
  the user name of the broker.\<close>

lemma Config_String_hides:
  "Config_String (c\<lparr>cfg_ServiceToServiceCredentials := s, cfg_KafkaSaslUsername := u, cfg_KafkaSaslPassword := p,
     cfg_RedisPassword := r, cfg_JobReceiverReceptorProxyPSK := k\<rparr>) = Config_String c"
  by (simp add: Config_String_def)

text \<open>The configuration that \<open>GetConfig\<close> returns pings the peer before the read deadline: for every
  positive number of seconds to wait for a pong up to 1024819115, the multiplications do not wrap, and
  the ping period is positive, nine tenths of the wait and shorter than it.\<close>

lemma ping_period_bounds:
  assumes "GetConfig viper_with loaded = Ok c"
    and "0 < v_GetDuration (viper_with defaults) PONG_WAIT" "v_GetDuration (viper_with defaults) PONG_WAIT \<le> 1024819115"
  shows "cfg_PongWait c = v_GetDuration (viper_with defaults) PONG_WAIT * Second \<and>
     0 < cfg_PingPeriod c \<and> cfg_PingPeriod c < cfg_PongWait c \<and> 10 * cfg_PingPeriod c = 9 * cfg_PongWait c"
proof -
  define n where "n = v_GetDuration (viper_with defaults) PONG_WAIT"
  have n: "0 < n" "n \<le> 1024819115" using assms(2,3) by (simp_all add: n_def)
  have pong: "cfg_PongWait c = n * 1000000000"
    using GetConfig_waits [OF assms(1)] n by (simp add: n_def [symmetric] Second_def wrap64_id)
  have "wrap64 (n * 1000000000 * 9) = n * 9000000000" using n by (simp add: wrap64_id)
  then have "cfg_PingPeriod c = n * 9000000000 div 10"
    using GetConfig_waits [OF assms(1)] pong n by (simp add: calculatePingPeriod_def go_div_def)
  then have "cfg_PingPeriod c = n * 900000000" by simp
  then show ?thesis using n pong by (simp add: n_def [symmetric] Second_def)
qed

definition default_int :: "(option_key, option_value) gomap \<Rightarrow> option_key \<Rightarrow> int" where
  "default_int d k = (case map_of d k of Some (OInt i) \<Rightarrow> i | _ \<Rightarrow> 0)"

text \<open>\<open>viper\<close> when no variable is set: the defaults, each read with the type it was given.\<close>

definition default_viper :: "(option_key, option_value) gomap \<Rightarrow> viper" where
  "default_viper d =
     \<lparr>v_GetDuration = default_int d, v_GetInt64 = default_int d, v_GetInt = default_int d,
      v_GetBool = (\<lambda>k. map_of d k = Some (OBool True)),
      v_GetString = (\<lambda>k. case map_of d k of Some (OStr s) \<Rightarrow> s | _ \<Rightarrow> []),
      v_GetStringSlice = (\<lambda>k. case map_of d k of Some (OStrs ss) \<Rightarrow> ss | _ \<Rightarrow> []),
      v_GetStringMap = (\<lambda>k. [])\<rparr>"

lemma ping_period_bounds_example:
  "\<exists>c. GetConfig default_viper None = Ok c \<and> cfg_PongWait c = 25 * Second \<and>
     0 < cfg_PingPeriod c \<and> cfg_PingPeriod c < cfg_PongWait c"
proof -
  have d: "v_GetDuration (default_viper defaults) PONG_WAIT = 25"
    by (simp add: default_viper_def default_int_def defaults_def)
  obtain c where c: "GetConfig default_viper None = Ok c" by (simp add: GetConfig_def)
  from ping_period_bounds [OF c] c show ?thesis by (simp add: d)
qed

end
