(* ===== verification/Ws_Client.thy ===== *)
theory Ws_Client
  imports Reactor Config
begin

text \<open>
  The websocket side of a connection (\<open>internal/controller/ws\<close>): the loop that writes queued messages
  to the socket, the loop that reads messages from it, the read deadline that pongs renew, and the
  request handler that puts a connection together.

  The websocket package is a parameter, a record of the functions the code calls on a socket of type
  \<open>'k\<close>; what the code relies on is the locale \<open>ws_socket\<close>. The \<open>select\<close> statement of the write loop
  takes one of several events; a run of the loop is given by the events it takes.
\<close>

subsection \<open>The socket\<close>

datatype ws_message = WsClose string | WsPing

text \<open>A function that may fail returns the text of its error.\<close>

record 'k websocket =
  ws_SetWriteDeadline :: "int \<Rightarrow> 'k \<Rightarrow> 'k"
  ws_NextWriter :: "'k \<Rightarrow> string option \<times> 'k"
  ws_Write :: "'k writer"
  ws_CloseWriter :: "'k \<Rightarrow> 'k"
  ws_WriteMessage :: "ws_message \<Rightarrow> 'k \<Rightarrow> string option \<times> 'k"
  ws_Close :: "'k \<Rightarrow> 'k"

record rcClient =
  rc_account :: string
  rc_config :: Config

definition verifyAccountNumber :: "rcClient \<Rightarrow> string \<Rightarrow> string option" where
  "verifyAccountNumber c accountNumber =
     (if rc_account c \<noteq> accountNumber
      then Some (''account mistmatch (invalid account number '' @ accountNumber @ '')'') else None)"

subsection \<open>Writing\<close>

datatype write_error = WeAccount string | WeSocket string | WeProtocol protocol_error

text \<open>\<open>now\<close> is the time of the call.\<close>

definition writeMessage ::
  "'k websocket \<Rightarrow> rcClient \<Rightarrow> int \<Rightarrow> ReceptorMessage \<Rightarrow> 'k \<Rightarrow> write_error option \<times> 'k" where
  "writeMessage ws c now msg k =
     (case verifyAccountNumber c (rmsg_AccountNumber msg) of
        Some e \<Rightarrow> (Some (WeAccount e), k)
      | None \<Rightarrow>
          (case ws_NextWriter ws (ws_SetWriteDeadline ws (now + cfg_WriteWait (rc_config c)) k) of
             (Some e, k1) \<Rightarrow> (Some (WeSocket e), k1)
           | (None, k1) \<Rightarrow>
               (case WriteMessage (ws_Write ws) k1 (rmsg_Message msg) of
                  (Some e, k2) \<Rightarrow> (Some (WeProtocol e), k2)
                | (None, k2) \<Rightarrow> (None, ws_CloseWriter ws k2))))"

text \<open>The period of the ticker, or none: the ticker for disabled pings is stopped and never fires.\<close>

definition configurePingTicker :: "rcClient \<Rightarrow> int option" where
  "configurePingTicker c =
     (if cfg_PingPeriod (rc_config c) > 0 then Some (cfg_PingPeriod (rc_config c)) else None)"

datatype write_event = EvDone | EvError ReceptorErrorMessage | EvControl | EvSend | EvTick

text \<open>One turn of the loop: whether it goes on, the messages it wrote, and the new state. \<open>None\<close>: the
  event is not ready. A mismatch of the account of an error only leaves the \<open>select\<close>.\<close>

definition write_queued ::
  "'k websocket \<Rightarrow> rcClient \<Rightarrow> int \<Rightarrow> ReceptorMessage \<Rightarrow> Transport \<Rightarrow> 'k \<Rightarrow> bool \<times> ReceptorMessage list \<times> Transport \<times> 'k" where
  "write_queued ws c now msg t k =
     (case writeMessage ws c now msg k of
        (Some e, k') \<Rightarrow> (False, [], t, k')
      | (None, k') \<Rightarrow> (True, [msg], t, k'))"

definition write_turn ::
  "'k websocket \<Rightarrow> rcClient \<Rightarrow> int \<Rightarrow> write_event \<Rightarrow> Transport \<Rightarrow> 'k \<Rightarrow>
   (bool \<times> ReceptorMessage list \<times> Transport \<times> 'k) option" where
  "write_turn ws c now ev t k =
     (case ev of
        EvDone \<Rightarrow> if tr_Ctx t \<noteq> None then Some (False, [], t, k) else None
      | EvError errMsg \<Rightarrow>
          (case verifyAccountNumber c (rerr_AccountNumber errMsg) of
             Some e \<Rightarrow> Some (True, [], t, k)
           | None \<Rightarrow> Some (False, [], t, snd (ws_WriteMessage ws (WsClose (rerr_Error errMsg)) k)))
      | EvControl \<Rightarrow>
          (case pop (tr_ControlChannel t) of
             None \<Rightarrow> None
           | Some (msg, ch) \<Rightarrow> Some (write_queued ws c now msg (t\<lparr>tr_ControlChannel := ch\<rparr>) k))
      | EvSend \<Rightarrow>
          (case pop (tr_Send t) of
             None \<Rightarrow> None
           | Some (msg, ch) \<Rightarrow> Some (write_queued ws c now msg (t\<lparr>tr_Send := ch\<rparr>) k))
      | EvTick \<Rightarrow>
          if configurePingTicker c = None then None
          else (case ws_WriteMessage ws WsPing
                   (ws_SetWriteDeadline ws (now + cfg_WriteWait (rc_config c)) k) of
                  (Some e, k') \<Rightarrow> Some (False, [], t, k')
                | (None, k') \<Rightarrow> Some (True, [], t, k')))"

text \<open>The loop over the events it takes, each with its time; other goroutines may change the transport
  before each turn. The result: whether the loop has ended, and then the socket is closed; what it
  wrote; the state. An event that is not ready is not taken.\<close>

fun write_loop ::
  "'k websocket \<Rightarrow> rcClient \<Rightarrow> ((Transport \<Rightarrow> Transport) \<times> int \<times> write_event) list \<Rightarrow> Transport \<Rightarrow> 'k \<Rightarrow>
   bool \<times> ReceptorMessage list \<times> Transport \<times> 'k" where
  "write_loop ws c [] t k = (False, [], t, k)"
| "write_loop ws c ((others, now, ev) # evs) t k =
     (case write_turn ws c now ev (others t) k of
        None \<Rightarrow> write_loop ws c evs (others t) k
      | Some (False, ms, t', k') \<Rightarrow> (True, ms, t', ws_Close ws k')
      | Some (True, ms, t', k') \<Rightarrow>
          (case write_loop ws c evs t' k' of (ended, ms', t'', k'') \<Rightarrow> (ended, ms @ ms', t'', k'')))"

subsection \<open>Reading\<close>

text \<open>One turn of the read loop: \<open>incoming\<close> is the websocket message \<open>NextReader\<close> gives, or none for an
  error. The result of every communication that is ready.\<close>

datatype read_end = ReadOn | ReadReturned | ReadPanicked

definition read_turn :: "bytes option \<Rightarrow> Transport \<Rightarrow> (read_end \<times> Transport) list" where
  "read_turn incoming t =
     (case incoming of
        None \<Rightarrow> [(ReadReturned, t)]
      | Some r \<Rightarrow>
          (case fst (ReadMessage r) of
             Err e \<Rightarrow> [(ReadReturned, t)]
           | Panic \<Rightarrow> [(ReadPanicked, t)]
           | Ok message \<Rightarrow>
               (if tr_Ctx t \<noteq> None then [(ReadReturned, t)] else []) @
               (if can_send (tr_Recv t) then [(ReadOn, t\<lparr>tr_Recv := push message (tr_Recv t)\<rparr>)] else [])))"

fun read_loop :: "bytes option list \<Rightarrow> Transport \<Rightarrow> (read_end \<times> Transport) list" where
  "read_loop [] t = [(ReadOn, t)]"
| "read_loop (r # rs) t =
     concat (map (\<lambda>(e, t'). if e = ReadOn then read_loop rs t' else [(e, t')]) (read_turn r t))"

text \<open>The read deadline and the pong handler.\<close>

record deadline =
  dl_read :: "int option"
  dl_pong_handler :: bool

definition configurePongHandler :: "rcClient \<Rightarrow> int \<Rightarrow> deadline" where
  "configurePongHandler c now =
     (if cfg_PongWait (rc_config c) > 0
      then \<lparr>dl_read = Some (now + cfg_PongWait (rc_config c)), dl_pong_handler = True\<rparr>
      else \<lparr>dl_read = None, dl_pong_handler = False\<rparr>)"

datatype read_event = PongArrives int | MessageRead int

definition read_event :: "rcClient \<Rightarrow> read_event \<Rightarrow> deadline \<Rightarrow> deadline" where
  "read_event c ev d =
     (case ev of
        PongArrives now \<Rightarrow>
          if dl_pong_handler d then d\<lparr>dl_read := Some (now + cfg_PongWait (rc_config c))\<rparr> else d
      | MessageRead now \<Rightarrow> d\<lparr>dl_read := None\<rparr>)"

text \<open>A read that waits at time \<open>now\<close> fails.\<close>

definition read_times_out :: "deadline \<Rightarrow> int \<Rightarrow> bool" where
  "read_times_out d now = (case dl_read d of None \<Rightarrow> False | Some limit \<Rightarrow> limit \<le> now)"

subsection \<open>The request handler\<close>

text \<open>\<open>handleWebSocket\<close> up to the start of the loops: \<open>upgraded\<close> is the result of the upgrade, \<open>ctx\<close> the
  request's context, \<open>conn\<close> numbers the connection. A negative channel size panics. The result: the
  client, the handshake handler, the read limit and the reactor before \<open>Run\<close>.\<close>

definition handleWebSocket ::
  "Config \<Rightarrow> bool \<Rightarrow> string \<Rightarrow> nat \<Rightarrow> ctx \<Rightarrow> 's \<Rightarrow>
   (unit, rcClient \<times> HandshakeHandler \<times> int \<times> (rx_pc \<times> ('u, 's) rx)) outcome" where
  "handleWebSocket cfg upgraded account conn ctx mgr =
     (if \<not> upgraded then Err ()
      else if cfg_BufferedChannelSize cfg < 0 then Panic
      else
        (let size = nat (cfg_BufferedChannelSize cfg);
             client = \<lparr>rc_account = account, rc_config = cfg\<rparr>;
             transport = \<lparr>tr_Send = make_chan size, tr_Recv = make_chan size, tr_ControlChannel = make_chan size,
               tr_Ctx = ctx\<rparr>;
             responseReactor = NewResponseReactor transport mgr;
             handshakeHandler = \<lparr>hh_AccountNumber = account, hh_NodeID = cfg_ReceptorControllerNodeId cfg, hh_conn = conn\<rparr>;
             responseReactor = RegisterHandler HiMessageType HandshakeH responseReactor
         in Ok (client, handshakeHandler, cfg_MaxMessageSize cfg, (RxLoop, responseReactor))))"

text \<open>The deferred calls once the read loop has returned.\<close>

definition handleWebSocket_return :: "'k websocket \<Rightarrow> Transport \<Rightarrow> 'k \<Rightarrow> Transport \<times> 'k" where
  "handleWebSocket_return ws t k = (tr_Cancel t, ws_Close ws k)"

subsection \<open>What the code relies on of the socket\<close>

text \<open>\<open>sent\<close> are the complete messages given to the network and \<open>cur\<close> is what the open writer holds:
  a new writer is empty, writing keeps the contract of \<open>io.Writer\<close>, and closing the writer sends the
  message. Control messages and deadlines do not touch them.\<close>

locale ws_socket =
  fixes ws :: "'k websocket"
    and sent :: "'k \<Rightarrow> bytes list"
    and cur :: "'k \<Rightarrow> bytes"
  assumes next_writer: "ws_NextWriter ws k = (e, k') \<Longrightarrow> sent k' = sent k \<and> (e = None \<longrightarrow> cur k' = [])"
    and writer: "io_writer (ws_Write ws) cur"
    and write_sent: "sent (snd (snd (ws_Write ws k bs))) = sent k"
    and close_writer: "sent (ws_CloseWriter ws k) = sent k @ [cur k]"
    and deadline_sent: "sent (ws_SetWriteDeadline ws d k) = sent k"
    and control_sent: "sent (snd (ws_WriteMessage ws m k)) = sent k"
    and close_sent: "sent (ws_Close ws k) = sent k"
begin

lemma WriteMessage_sent: "sent (snd (WriteMessage (ws_Write ws) k m)) = sent k"
proof -
  have frame: "sent (snd (writeFrame (ws_Write ws) k ft d)) = sent k" for k ft d
    using write_sent by (auto simp: writeFrame_eq split: prod.splits) (metis snd_conv)+
  then show ?thesis
    by (auto simp: WriteMessage_def writePayloadMessage_def split: Message.splits sum.splits prod.splits option.splits)
       (metis snd_conv)+
qed

lemma writeMessage_sent:
  assumes "writeMessage ws c now msg k = (e, k')"
  shows "if e = None then sent k' = sent k @ [message_bytes (rmsg_Message msg)] \<and> rmsg_AccountNumber msg = rc_account c
    else sent k' = sent k"
proof (cases "rc_account c = rmsg_AccountNumber msg")
  case False
  then show ?thesis using assms by (auto simp: writeMessage_def verifyAccountNumber_def)
next
  case True
  obtain e1 k1 where n: "ws_NextWriter ws (ws_SetWriteDeadline ws (now + cfg_WriteWait (rc_config c)) k) = (e1, k1)" by fastforce
  obtain e2 k2 where w: "WriteMessage (ws_Write ws) k1 (rmsg_Message msg) = (e2, k2)" by fastforce
  have "sent k1 = sent k" using next_writer [OF n] by (simp add: deadline_sent)
  moreover have "sent k2 = sent k1" using WriteMessage_sent [of k1 "rmsg_Message msg"] by (simp add: w)
  moreover have "cur k2 = message_bytes (rmsg_Message msg)" if "e1 = None" "e2 = None"
    using io_writer.WriteMessage_out [OF writer] w next_writer [OF n] that by fastforce
  ultimately show ?thesis
    using assms True n w
    by (auto simp: writeMessage_def verifyAccountNumber_def close_writer split: option.splits)
qed

lemma write_turn_sent:
  assumes "write_turn ws c now ev t k = Some (cont, ms, t', k')"
  shows "sent k' = sent k @ map (\<lambda>m. message_bytes (rmsg_Message m)) ms \<and> (\<forall>m \<in> set ms. rmsg_AccountNumber m = rc_account c)"
proof -
  have queued: "sent k' = sent k @ map (\<lambda>m. message_bytes (rmsg_Message m)) ms \<and> (\<forall>m \<in> set ms. rmsg_AccountNumber m = rc_account c)"
    if "write_queued ws c now msg t1 k = (cont, ms, t', k')" for msg t1
  proof -
    obtain e k1 where w: "writeMessage ws c now msg k = (e, k1)" by fastforce
    from writeMessage_sent [OF w] that w show ?thesis by (auto simp: write_queued_def split: option.splits)
  qed
  have control: "ws_WriteMessage ws m k1 = (e, k2) \<Longrightarrow> sent k2 = sent k1" for m k1 e k2
    using control_sent [of m k1] by simp
  show ?thesis
    using assms queued
    by (cases ev) (auto simp: write_turn_def control_sent deadline_sent dest!: control split: if_splits option.splits prod.splits)
qed

lemma write_loop_sent:
  assumes "write_loop ws c evs t k = (ended, ms, t', k')"
  shows "sent k' = sent k @ map (\<lambda>m. message_bytes (rmsg_Message m)) ms \<and> (\<forall>m \<in> set ms. rmsg_AccountNumber m = rc_account c)"
  using assms
proof (induction evs arbitrary: t k ms ended t' k')
  case (Cons x evs)
  obtain others now ev where x: "x = (others, now, ev)" by (cases x)
  show ?case
  proof (cases "write_turn ws c now ev (others t) k")
    case None
    then show ?thesis using Cons x by simp
  next
    case (Some r)
    obtain cont ms1 t1 k1 where r: "r = (cont, ms1, t1, k1)" by (cases r)
    note first = write_turn_sent [OF Some [unfolded r]]
    obtain ended2 ms2 t2 k2 where rest: "write_loop ws c evs t1 k1 = (ended2, ms2, t2, k2)" by (metis prod_cases4)
    show ?thesis
      using Cons.prems Some first Cons.IH [OF rest] rest
      by (cases cont) (auto simp: x r close_sent)
  qed
qed simp

end

subsection \<open>A socket that keeps the contract\<close>

record mem_socket =
  ms_sent :: "bytes list"
  ms_cur :: bytes

definition mem_ws :: "mem_socket websocket" where
  "mem_ws = \<lparr>ws_SetWriteDeadline = (\<lambda>d k. k), ws_NextWriter = (\<lambda>k. (None, k\<lparr>ms_cur := []\<rparr>)),
     ws_Write = (\<lambda>k bs. (length bs, None, k\<lparr>ms_cur := ms_cur k @ bs\<rparr>)),
     ws_CloseWriter = (\<lambda>k. k\<lparr>ms_sent := ms_sent k @ [ms_cur k], ms_cur := []\<rparr>),
     ws_WriteMessage = (\<lambda>m k. (None, k)), ws_Close = (\<lambda>k. k)\<rparr>"

interpretation mem_sock: ws_socket mem_ws ms_sent ms_cur
  by unfold_locales (auto simp: mem_ws_def)

subsection \<open>Properties\<close>

lemma read_turn_message:
  assumes "readable m" "fits m" "tr_Ctx t = None" "can_send (tr_Recv t)"
  shows "read_turn (Some (message_bytes m)) t = [(ReadOn, t\<lparr>tr_Recv := push m (tr_Recv t)\<rparr>)]"
  using ReadMessage_message_bytes [OF assms(1,2), of "[]"] assms(3,4) by (simp add: read_turn_def)

lemma read_loop_messages:
  assumes "\<forall>m \<in> set ms. readable m \<and> fits m" "tr_Ctx t = None" "length (ch_buf (tr_Recv t)) + length ms \<le> ch_cap (tr_Recv t)"
  shows "read_loop (map (\<lambda>m. Some (message_bytes m)) ms) t =
     [(ReadOn, t\<lparr>tr_Recv := (tr_Recv t)\<lparr>ch_buf := ch_buf (tr_Recv t) @ ms\<rparr>\<rparr>)]"
  using assms
proof (induction ms arbitrary: t)
  case (Cons m ms)
  have "read_turn (Some (message_bytes m)) t = [(ReadOn, t\<lparr>tr_Recv := push m (tr_Recv t)\<rparr>)]"
    by (rule read_turn_message) (use Cons.prems in \<open>auto simp: can_send_def\<close>)
  then show ?case using Cons by (simp add: push_def)
qed simp


definition sample_client :: rcClient where
  "sample_client = \<lparr>rc_account = ''0001'', rc_config = options_config (default_viper defaults)\<rparr>"

definition sample_queue :: Transport where
  "sample_queue = \<lparr>tr_Send = make_chan 4, tr_Recv = make_chan 4,
     tr_ControlChannel = \<lparr>ch_cap = 4, ch_buf = [\<lparr>rmsg_AccountNumber = ''0001'', rmsg_Message = sample_payload\<rparr>]\<rparr>, tr_Ctx = None\<rparr>"

lemma mem_ws_frame: "fst (writeFrame (ws_Write mem_ws) k ft d) = None" "fst (writeFrame buffer_write b ft d) = None"
  by (simp_all add: writeFrame_eq mem_ws_def buffer_write_def)

lemma mem_ws_writes: "fst (WriteMessage (ws_Write mem_ws) k m) = fst (WriteMessage buffer_write b m)"
  using mem_ws_frame
  by (auto simp: WriteMessage_def writePayloadMessage_def split: Message.splits sum.splits prod.splits option.splits)
    (metis fst_conv option.distinct(1))+


text \<open>After a message was read no deadline is set until a pong arrives: a peer that falls silent right
  after a message is never timed out by the read loop, however long it waits.\<close>

lemma no_deadline_after_message:
  assumes "\<forall>ev \<in> set evs. \<exists>now'. ev = MessageRead now'"
  shows "\<not> read_times_out (fold (read_event c) (MessageRead now # evs) d) later"
proof -
  have "dl_read (fold (read_event c) evs d') = None" if "dl_read d' = None" for d'
    using assms that by (induction evs arbitrary: d') (auto simp: read_event_def)
  from this [of "read_event c (MessageRead now) d"] show ?thesis
    by (simp add: read_event_def read_times_out_def)
qed

lemma no_deadline_after_message_example:
  "\<not> read_times_out (fold (read_event sample_client) [MessageRead 1] (configurePongHandler sample_client 0)) 1000000000000 \<and>
   read_times_out (configurePongHandler sample_client 0) 1000000000000"
proof
  show "\<not> read_times_out (fold (read_event sample_client) [MessageRead 1] (configurePongHandler sample_client 0)) 1000000000000"
    by (rule no_deadline_after_message) simp
  show "read_times_out (configurePongHandler sample_client 0) 1000000000000"
    by (simp add: configurePongHandler_def sample_client_def options_config_def default_viper_def default_int_def
        defaults_def read_times_out_def wrap64_def Second_def Let_def)
qed

end
