(* ===== verification/Connection_Life.thy ===== *)
theory Connection_Life
  imports Ws_Client
begin

text \<open>
  The end of a connection: the three goroutines that \<open>handleWebSocket\<close> sets up (the read loop, which runs in
  the handler itself, the write loop and the reactor) with the socket and the transport they share.
  A step is one turn of one of them, made of the functions of the theories \<open>Ws_Client\<close> and \<open>Reactor\<close>.
\<close>

subsection \<open>The goroutines of a connection\<close>

text \<open>\<open>lf_incoming\<close> are the websocket messages that still arrive and \<open>lf_turns\<close> bounds the turns that the write
  loop takes before its \<open>select\<close> statement picks another event that is ready.\<close>

record ('u, 's, 'k) life =
  lf_rx :: "rx_pc \<times> ('u, 's) rx"
  lf_sock :: 'k
  lf_open :: bool
  lf_incoming :: "bytes list"
  lf_turns :: nat
  lf_reader :: bool
  lf_writer :: bool

definition set_transport :: "Transport \<Rightarrow> ('u, 's, 'k) life \<Rightarrow> ('u, 's, 'k) life" where
  "set_transport t L = L\<lparr>lf_rx := (fst (lf_rx L), (snd (lf_rx L))\<lparr>rx_transport := t\<rparr>)\<rparr>"

abbreviation lf_transport :: "('u, 's, 'k) life \<Rightarrow> Transport" where
  "lf_transport L \<equiv> rx_transport (snd (lf_rx L))"

text \<open>The write loop ends with the socket closed.\<close>

definition write_ended :: "'k websocket \<Rightarrow> 'k \<Rightarrow> ('u, 's, 'k) life \<Rightarrow> ('u, 's, 'k) life" where
  "write_ended ws k L = L\<lparr>lf_sock := ws_Close ws k, lf_open := False, lf_writer := False\<rparr>"

text \<open>The read loop returns or panics: its deferred call closes the socket, and those of the handler cancel
  the context and close the socket again.\<close>

definition read_ended :: "'k websocket \<Rightarrow> ('u, 's, 'k) life \<Rightarrow> ('u, 's, 'k) life" where
  "read_ended ws L =
     (case handleWebSocket_return ws (lf_transport L) (ws_Close ws (lf_sock L)) of
        (t, k) \<Rightarrow> (set_transport t L)\<lparr>lf_sock := k, lf_open := False, lf_reader := False\<rparr>)"

text \<open>What \<open>NextReader\<close> gives: an error on a closed socket, else the next message.\<close>

definition next_reader :: "('u, 's, 'k) life \<Rightarrow> bytes option option" where
  "next_reader L =
     (if \<not> lf_open L then Some None else (case lf_incoming L of [] \<Rightarrow> None | b # bs \<Rightarrow> Some (Some b)))"

text \<open>\<open>takes\<close> says whether a ping waits for the response that the reactor offers.\<close>

inductive life_step ::
  "('u, 's) environment \<Rightarrow> 'k websocket \<Rightarrow> rcClient \<Rightarrow> HandshakeHandler \<Rightarrow> (nat \<Rightarrow> nat \<Rightarrow> bool) \<Rightarrow>
   ('u, 's, 'k) life \<Rightarrow> ('u, 's, 'k) life \<Rightarrow> bool"
  for env ws c hh takes where
  write_on: "\<lbrakk>lf_writer L; write_turn ws c now ev (lf_transport L) (lf_sock L) = Some (True, ms, t, k);
      \<forall>e. ev \<noteq> EvError e; lf_turns L = Suc n\<rbrakk>
    \<Longrightarrow> life_step env ws c hh takes L ((set_transport t L)\<lparr>lf_sock := k, lf_turns := n\<rparr>)"
| write_ends: "\<lbrakk>lf_writer L; write_turn ws c now ev (lf_transport L) (lf_sock L) = Some (False, ms, t, k);
      \<forall>e. ev \<noteq> EvError e\<rbrakk>
    \<Longrightarrow> life_step env ws c hh takes L (write_ended ws k (set_transport t L))"
| error_on: "\<lbrakk>lf_writer L; lf_rx L = (RxSendError e, rd);
      write_turn ws c now (EvError e) (rx_transport rd) (lf_sock L) = Some (True, ms, t, k)\<rbrakk>
    \<Longrightarrow> life_step env ws c hh takes L
      (L\<lparr>lf_rx := (RxLoop, count_handled (rd\<lparr>rx_transport := t\<rparr>)), lf_sock := k\<rparr>)"
| error_ends: "\<lbrakk>lf_writer L; lf_rx L = (RxSendError e, rd);
      write_turn ws c now (EvError e) (rx_transport rd) (lf_sock L) = Some (False, ms, t, k)\<rbrakk>
    \<Longrightarrow> life_step env ws c hh takes L
      (write_ended ws k (L\<lparr>lf_rx := (RxLoop, count_handled (rd\<lparr>rx_transport := t, rx_writer := False\<rparr>))\<rparr>))"
| read_on: "\<lbrakk>lf_reader L; next_reader L = Some (Some b); (ReadOn, t) \<in> set (read_turn (Some b) (lf_transport L))\<rbrakk>
    \<Longrightarrow> life_step env ws c hh takes L ((set_transport t L)\<lparr>lf_incoming := tl (lf_incoming L)\<rparr>)"
| read_ends: "\<lbrakk>lf_reader L; next_reader L = Some r; (e, t) \<in> set (read_turn r (lf_transport L)); e \<noteq> ReadOn\<rbrakk>
    \<Longrightarrow> life_step env ws c hh takes L (read_ended ws (set_transport t L))"
| reactor_done: "\<lbrakk>lf_rx L = (RxLoop, rd); tr_Ctx (rx_transport rd) \<noteq> None\<rbrakk>
    \<Longrightarrow> life_step env ws c hh takes L (L\<lparr>lf_rx := Run_done (env_unreg env) rd\<rparr>)"
| reactor_recv: "\<lbrakk>lf_rx L = (RxLoop, rd); pop (tr_Recv (rx_transport rd)) = Some (msg, ch);
      tr_Ctx (rx_transport rd) \<noteq> None \<longrightarrow> hctx \<noteq> None;
      x \<in> set (Run_message env hh hctx msg (rd\<lparr>rx_transport := (rx_transport rd)\<lparr>tr_Recv := ch\<rparr>\<rparr>))\<rbrakk>
    \<Longrightarrow> life_step env ws c hh takes L (L\<lparr>lf_rx := x\<rparr>)"
| response_taken: "\<lbrakk>lf_rx L = (RxSendResponse k ch m, rd); takes k ch\<rbrakk>
    \<Longrightarrow> life_step env ws c hh takes L (L\<lparr>lf_rx := (RxLoop, count_handled rd)\<rparr>)"

subsection \<open>The turns and the transport\<close>

text \<open>Whether the context is done and how many messages wait for the reactor.\<close>

definition load :: "Transport \<Rightarrow> bool \<times> nat" where
  "load t = (tr_Ctx t \<noteq> None, length (ch_buf (tr_Recv t)))"

lemma write_turn_load: "write_turn ws c now ev t k = Some (cont, ms, t', k') \<Longrightarrow> load t' = load t"
  by (auto simp: write_turn_def write_queued_def load_def split: write_event.splits option.splits prod.splits if_splits)

lemma read_turn_load:
  "(ReadOn, t') \<in> set (read_turn r t) \<Longrightarrow> load t' = (fst (load t), Suc (snd (load t)))"
  "(e, t') \<in> set (read_turn r t) \<Longrightarrow> e \<noteq> ReadOn \<Longrightarrow> t' = t"
  by (auto simp: read_turn_def load_def push_def split: option.splits outcome.splits if_splits)

definition pc_weight :: "rx_pc \<Rightarrow> nat" where
  "pc_weight pc = (case pc of RxLoop \<Rightarrow> 1 | RxSendError e \<Rightarrow> 2 | RxSendResponse k ch m \<Rightarrow> 2 | _ \<Rightarrow> 0)"

lemma after_handler_load:
  "rx_transport (snd (after_handler k (h, rd))) = rx_transport rd" "pc_weight (fst (after_handler k (h, rd))) \<le> 2"
  by (auto simp: after_handler_def count_handled_def pc_weight_def split: handled.splits dispatched.splits)

lemma handshake_load:
  assumes "(h, rd') \<in> set (Handshake_HandleMessage fmt reg hh hctx m rd)"
  shows "load (rx_transport rd') = load (rx_transport rd)"
  using assms
  by (cases m) (auto simp: Handshake_HandleMessage_def handshake_complete_def RegisterHandler_def RegisterDisconnectHandler_def
      load_def Let_def split: if_splits prod.splits option.splits)

lemma Run_message_load:
  assumes "x \<in> set (Run_message env hh hctx msg rd)"
  shows "load (rx_transport (snd x)) = load (rx_transport rd) \<and> pc_weight (fst x) \<le> 2"
proof (cases "map_of (rx_handlers rd) (Message_Type msg)")
  case None
  then show ?thesis using assms by (simp add: Run_message_def load_def pc_weight_def)
next
  case (Some h)
  show ?thesis
  proof (cases h)
    case HandshakeH
    then obtain h' rd' where "(h', rd') \<in> set (Handshake_HandleMessage (env_fmt env) (env_reg env) hh hctx msg rd)"
        "x = after_handler 0 (h', rd')"
      using assms Some by (auto simp: Run_message_def)
    then show ?thesis using handshake_load by (metis after_handler_load)
  next
    case (RouteTableH k)
    have "rx_transport (snd (RouteTable_HandleMessage fe fs k msg rd)) = rx_transport rd" for fe fs
      by (simp add: RouteTable_HandleMessage_def split: Message.split)
    moreover have "x = after_handler k (RouteTable_HandleMessage (env_fmt_edges env) (env_fmt_seen env) k msg rd)"
      using assms Some RouteTableH by (simp add: Run_message_def)
    ultimately show ?thesis by (metis after_handler_load prod.collapse)
  next
    case (PayloadH k)
    then have "x = after_handler k (Payload_HandleMessage (env_uuid_Parse env) k msg rd, rd)"
      using assms Some by (simp add: Run_message_def)
    then show ?thesis by (simp add: after_handler_load)
  qed
qed

subsection \<open>The connection ends\<close>

definition life_done :: "('u, 's, 'k) life \<Rightarrow> bool" where
  "life_done L \<longleftrightarrow> fst (load (lf_transport L)) \<and> (lf_open L \<longrightarrow> lf_reader L \<and> lf_writer L)"

definition life_rank :: "('u, 's, 'k) life \<Rightarrow> nat" where
  "life_rank L = 3 * length (lf_incoming L) + 2 * snd (load (lf_transport L)) + lf_turns L + pc_weight (fst (lf_rx L)) +
     (if lf_reader L then 1 else 0) + (if lf_writer L then 1 else 0)"

lemma lf_transport_simps [simp]:
  "lf_transport (set_transport t L) = t" "fst (lf_rx (set_transport t L)) = fst (lf_rx L)"
  "lf_incoming (set_transport t L) = lf_incoming L" "lf_turns (set_transport t L) = lf_turns L"
  "lf_reader (set_transport t L) = lf_reader L" "lf_writer (set_transport t L) = lf_writer L"
  "lf_open (set_transport t L) = lf_open L" "lf_sock (set_transport t L) = lf_sock L"
  by (simp_all add: set_transport_def)

lemma next_reader_Some: "next_reader L = Some (Some b) \<Longrightarrow> lf_open L \<and> lf_incoming L \<noteq> []"
  by (auto simp: next_reader_def split: if_splits list.splits)

lemma pop_load:
  "pop (tr_Recv t) = Some (msg, ch) \<Longrightarrow>
   fst (load (t\<lparr>tr_Recv := ch\<rparr>)) = fst (load t) \<and> snd (load t) = Suc (snd (load (t\<lparr>tr_Recv := ch\<rparr>)))"
  by (auto simp: pop_def load_def split: list.splits)

lemma load_cancel: "load (tr_Cancel t) = (True, snd (load t))"
  by (simp add: tr_Cancel_def load_def)

lemma Run_done_load:
  "rx_transport (snd (Run_done unreg rd)) = rx_transport rd" "fst (Run_done unreg rd) = RxReturned"
  by (simp_all add: Run_done_def Disconnect_HandleMessage_def split: option.split)

text \<open>Every turn brings the connection nearer to its end.\<close>

lemma life_step_rank:
  assumes "life_step env ws c hh takes L L'" "life_done L"
  shows "life_done L' \<and> life_rank L' < life_rank L"
  using assms(1)
proof cases
  case (write_on now ev ms t k n)
  then show ?thesis using assms(2) write_turn_load [OF write_on(3)] by (simp add: life_done_def life_rank_def)
next
  case (write_ends now ev ms t k)
  then show ?thesis using assms(2) write_turn_load [OF write_ends(3)] by (simp add: life_done_def life_rank_def write_ended_def)
next
  case (error_on e rd now ms t k)
  then show ?thesis using assms(2) write_turn_load [OF error_on(4)]
    by (simp add: life_done_def life_rank_def count_handled_def pc_weight_def)
next
  case (error_ends e rd now ms t k)
  then show ?thesis using assms(2) write_turn_load [OF error_ends(4)]
    by (simp add: life_done_def life_rank_def count_handled_def pc_weight_def write_ended_def)
next
  case (read_on b t)
  have "lf_open L" "lf_incoming L \<noteq> []" using next_reader_Some [OF read_on(3)] by simp_all
  then have "Suc (length (tl (lf_incoming L))) = length (lf_incoming L)" by (cases "lf_incoming L") simp_all
  then show ?thesis using assms(2) read_turn_load(1) [OF read_on(4)] read_on(1,2) by (simp add: life_done_def life_rank_def)
next
  case (read_ends r e t)
  have "t = lf_transport L" by (rule read_turn_load(2) [OF read_ends(4,5)])
  then show ?thesis using assms(2) read_ends(1,2)
    by (simp add: life_done_def life_rank_def read_ended_def handleWebSocket_return_def load_cancel)
next
  case (reactor_done rd)
  then show ?thesis using assms(2) by (simp add: life_done_def life_rank_def Run_done_load pc_weight_def)
next
  case (reactor_recv rd msg ch hctx x)
  then show ?thesis using assms(2) Run_message_load [OF reactor_recv(5)] pop_load [OF reactor_recv(3)]
    by (simp add: life_done_def life_rank_def pc_weight_def [of RxLoop])
next
  case (response_taken k ch m rd)
  then show ?thesis using assms(2) by (simp add: life_done_def life_rank_def count_handled_def pc_weight_def)
qed

interpretation life: ranked_steps "life_step env ws c hh takes" life_done life_rank
  for env ws c hh takes
  by unfold_locales (use life_step_rank in blast)+

text \<open>A connection whose context is done can take a turn until its three goroutines have ended, unless the
  reactor stands in a send that nobody takes.\<close>

lemma life_stuck:
  assumes "life_done L" "\<forall>L'. \<not> life_step env ws c hh takes L L'"
  shows "\<not> lf_open L \<and> \<not> lf_reader L \<and> \<not> lf_writer L \<and>
    (case fst (lf_rx L) of RxLoop \<Rightarrow> False | RxSendResponse k ch m \<Rightarrow> \<not> takes k ch | _ \<Rightarrow> True)"
proof -
  obtain pc rd where rx: "lf_rx L = (pc, rd)" by fastforce
  have ctx: "tr_Ctx (rx_transport rd) \<noteq> None" using assms(1) rx by (simp add: life_done_def load_def)
  have writer: "\<not> lf_writer L"
  proof
    assume "lf_writer L"
    moreover have "write_turn ws c 0 EvDone (lf_transport L) (lf_sock L) = Some (False, [], lf_transport L, lf_sock L)"
      using ctx rx by (simp add: write_turn_def)
    ultimately have "life_step env ws c hh takes L (write_ended ws (lf_sock L) (set_transport (lf_transport L) L))"
      by (rule life_step.write_ends) simp
    then show False using assms(2) by blast
  qed
  have closed: "\<not> lf_open L" using assms(1) writer by (simp add: life_done_def)
  have reader: "\<not> lf_reader L"
  proof
    assume "lf_reader L"
    moreover have "next_reader L = Some None" "(ReadReturned, lf_transport L) \<in> set (read_turn None (lf_transport L))"
      using closed by (simp_all add: next_reader_def read_turn_def)
    ultimately show False using life_step.read_ends assms(2) by blast
  qed
  have "pc \<noteq> RxLoop" using life_step.reactor_done [of L rd] rx ctx assms(2) by blast
  moreover have "\<not> takes k ch" if "pc = RxSendResponse k ch m" for k ch m
    using life_step.response_taken [of L k ch m rd] rx that assms(2) by blast
  ultimately show ?thesis using writer closed reader rx by (auto split: rx_pc.splits)
qed

text \<open>Property C8. The end of a connection. Once its context is done, the read loop, the write loop and the reactor
  take at most a number of turns together that is given by the messages still to be read, those in
  the receive channel and the turns the write loop may take. When no turn is left the socket is
  closed, both loops have returned, and the reactor has returned, has panicked or stands in a send
  that nobody takes.\<close>

theorem connection_ends:
  assumes "life_done L" "(life_step env ws c hh takes ^^ n) L L'"
  shows "n \<le> life_rank L \<and>
    ((\<forall>L''. \<not> life_step env ws c hh takes L' L'') \<longrightarrow>
       \<not> lf_open L' \<and> \<not> lf_reader L' \<and> \<not> lf_writer L' \<and>
       (case fst (lf_rx L') of RxLoop \<Rightarrow> False | RxSendResponse k ch m \<Rightarrow> \<not> takes k ch | _ \<Rightarrow> True))"
  using life.steps_bounded [OF assms(2,1)] life.steps_rank [OF assms(2,1)] life_stuck [of L'] by auto

text \<open>A cancelled connection: the write loop ends, then the read loop, then the reactor.\<close>

definition sample_life :: "(string, client LocalConnectionManager, mem_socket) life" where
  "sample_life = \<lparr>lf_rx = (RxLoop, (snd sample_start)\<lparr>rx_transport := tr_Cancel sample_transport\<rparr>), lf_sock = \<lparr>ms_sent = [], ms_cur = []\<rparr>,
     lf_open = True, lf_incoming = [], lf_turns = 0, lf_reader = True, lf_writer = True\<rparr>"

definition sample_written :: "(string, client LocalConnectionManager, mem_socket) life" where
  "sample_written = write_ended mem_ws (lf_sock sample_life) (set_transport (lf_transport sample_life) sample_life)"

lemma sample_life_done: "life_done sample_life" "life_rank sample_life = 3"
  by code_simp+

theorem connection_ends_witness:
  "(life_step sample_env mem_ws sample_client sample_hh (\<lambda>k ch. False) ^^ 1) sample_life sample_written \<and> 1 \<le> life_rank sample_life"
proof -
  have "write_turn mem_ws sample_client 0 EvDone (lf_transport sample_life) (lf_sock sample_life) =
      Some (False, [], lf_transport sample_life, lf_sock sample_life)" and run: "lf_writer sample_life"
    by (simp_all add: write_turn_def sample_life_def tr_Cancel_def)
  from this(1) have st: "(life_step sample_env mem_ws sample_client sample_hh (\<lambda>k ch. False) ^^ 1) sample_life sample_written"
    unfolding sample_written_def relpowp_1 by (rule life_step.write_ends [OF run]) simp
  with connection_ends [OF sample_life_done(1) st] show ?thesis by blast
qed

subsection \<open>The channels\<close>

text \<open>Other goroutines pass messages to the connection: \<open>SendMessage\<close> and \<open>Ping\<close> of its receptor services.\<close>

inductive api_step :: "('u, 's, 'k) life \<Rightarrow> ('u, 's, 'k) life \<Rightarrow> bool" where
  sends: "(err, ch) \<in> set (sendMessage (tr_Ctx (lf_transport L)) (tr_Send (lf_transport L)) sctx msg)
    \<Longrightarrow> api_step L (set_transport ((lf_transport L)\<lparr>tr_Send := ch\<rparr>) L)"
| pings: "(err, ch) \<in> set (sendMessage (tr_Ctx (lf_transport L)) (tr_ControlChannel (lf_transport L)) sctx msg)
    \<Longrightarrow> api_step L (set_transport ((lf_transport L)\<lparr>tr_ControlChannel := ch\<rparr>) L)"

definition within :: "nat \<Rightarrow> 'm chan \<Rightarrow> bool" where
  "within n c \<longleftrightarrow> ch_cap c = n \<and> length (ch_buf c) \<le> n"

definition transport_within :: "nat \<Rightarrow> Transport \<Rightarrow> bool" where
  "transport_within n t \<longleftrightarrow> within n (tr_Send t) \<and> within n (tr_Recv t) \<and> within n (tr_ControlChannel t)"

lemma within_push: "can_send c \<Longrightarrow> within n c \<Longrightarrow> within n (push m c)"
  by (auto simp: can_send_def within_def push_def)

lemma within_pop: "pop c = Some (m, c') \<Longrightarrow> within n c \<Longrightarrow> within n c'"
  by (auto simp: pop_def within_def split: list.splits)

lemma within_send: "(err, ch') \<in> set (sendMessage c ch sctx m) \<Longrightarrow> within n ch \<Longrightarrow> within n ch'"
  by (auto simp: sendMessage_def within_push split: if_splits option.splits)

lemma within_cancel: "transport_within n (tr_Cancel t) = transport_within n t"
  by (simp add: tr_Cancel_def transport_within_def)

lemma write_turn_within:
  "write_turn ws c now ev t k = Some (cont, ms, t', k') \<Longrightarrow> transport_within n t \<Longrightarrow> transport_within n t'"
  by (auto simp: write_turn_def write_queued_def transport_within_def dest: within_pop
      split: write_event.splits option.splits prod.splits if_splits)

lemma read_turn_within: "(e, t') \<in> set (read_turn r t) \<Longrightarrow> transport_within n t \<Longrightarrow> transport_within n t'"
  by (auto simp: read_turn_def transport_within_def within_push split: option.splits outcome.splits if_splits)

lemma Run_message_within:
  assumes "x \<in> set (Run_message env hh hctx msg rd)" "transport_within n (rx_transport rd)"
  shows "transport_within n (rx_transport (snd x))"
proof -
  have hs: "transport_within n (rx_transport rd')"
    if "(h, rd') \<in> set (Handshake_HandleMessage fmt reg hh hctx msg rd)" for h rd' fmt reg
    using that assms(2)
    by (cases msg) (auto simp: Handshake_HandleMessage_def handshake_complete_def RegisterHandler_def RegisterDisconnectHandler_def
        transport_within_def within_push Let_def split: if_splits prod.splits option.splits)
  have rt: "rx_transport (snd (RouteTable_HandleMessage fe fs k msg rd)) = rx_transport rd" for fe fs k
    by (simp add: RouteTable_HandleMessage_def split: Message.split)
  show ?thesis
    using assms hs rt
    by (auto simp: Run_message_def after_handler_load split: option.splits rx_handler.splits)
      (metis after_handler_load(1) prod.collapse)+
qed

lemma life_step_within:
  assumes "life_step env ws c hh takes L L'" "transport_within n (lf_transport L)"
  shows "transport_within n (lf_transport L')"
  using assms(1)
proof cases
  case (reactor_recv rd msg ch hctx x)
  have "transport_within n ((rx_transport rd)\<lparr>tr_Recv := ch\<rparr>)"
    using assms(2) reactor_recv(2,3) within_pop by (auto simp: transport_within_def)
  then show ?thesis using Run_message_within [OF reactor_recv(5)] reactor_recv(1) by simp
qed (use assms(2) in \<open>auto simp: write_ended_def read_ended_def handleWebSocket_return_def count_handled_def Run_done_load
    within_cancel dest: write_turn_within read_turn_within\<close>)

lemma api_step_within: "api_step L L' \<Longrightarrow> transport_within n (lf_transport L) \<Longrightarrow> transport_within n (lf_transport L')"
  by (induction rule: api_step.induct) (auto simp: transport_within_def dest: within_send)

lemma handleWebSocket_within:
  assumes "handleWebSocket cfg upgraded account conn ctx mgr = Ok (c, hh, limit, rx)"
  shows "transport_within (nat (cfg_BufferedChannelSize cfg)) (rx_transport (snd rx))"
  using assms
  by (auto simp: handleWebSocket_def Let_def RegisterHandler_def NewResponseReactor_def transport_within_def within_def make_chan_def
      split: if_splits)


definition sample_opened :: "(string, client LocalConnectionManager, mem_socket) life" where
  "sample_opened = \<lparr>lf_rx = new_rx \<lparr>tr_Send = make_chan 1, tr_Recv = make_chan 1, tr_ControlChannel = make_chan 1, tr_Ctx = None\<rparr>
       NewLocalConnectionManager, lf_sock = \<lparr>ms_sent = [], ms_cur = []\<rparr>,
     lf_open = True, lf_incoming = [], lf_turns = 0, lf_reader = True, lf_writer = True\<rparr>"

definition sample_sent :: "(string, client LocalConnectionManager, mem_socket) life" where
  "sample_sent = set_transport ((lf_transport sample_opened)\<lparr>tr_Send :=
     push \<lparr>rmsg_AccountNumber = ''0001'', rmsg_Message = sample_hi ''a''\<rparr> (make_chan 1)\<rparr>) sample_opened"


end
