(* ===== verification/Auth.thy ===== *)
theory Auth
  imports Messages
begin

text \<open>
  HTTP requests and responses as the API sees them, and the authentication middleware
  (\<open>internal/middlewares/auth.go\<close>). A request carries its headers and the two values that middleware
  stores in its context: the principal of a service and the identity. The package \<open>identity\<close> is a
  parameter: its middleware answers a request or passes it on with the identity stored.
\<close>

subsection \<open>Requests, responses and handlers\<close>

text \<open>The names of headers are kept in lower case, which stands for their canonical form.\<close>

type_synonym headers = "(string, string) gomap"

definition header_get :: "headers \<Rightarrow> string \<Rightarrow> string" where
  "header_get hs k = (case map_of hs (to_lower k) of None \<Rightarrow> [] | Some v \<Rightarrow> v)"

definition header_set :: "string \<Rightarrow> string \<Rightarrow> headers \<Rightarrow> headers" where
  "header_set k v hs = AList.update (to_lower k) v hs"

lemma header_get_set [simp]:
  "header_get (header_set k v hs) k' = (if to_lower k' = to_lower k then v else header_get hs k')"
  by (simp add: header_get_def header_set_def update_conv')

lemma header_get_nil: "header_get [] k = []"
  by (simp add: header_get_def)

datatype Principal =
    serviceToServicePrincipal (sp_account: string) (sp_clientID: string)
  | identityPrincipal (ip_account: string)

fun GetAccount :: "Principal \<Rightarrow> string" where
  "GetAccount (serviceToServicePrincipal account clientID) = account"
| "GetAccount (identityPrincipal account) = account"

record http_request =
  rq_method :: string
  rq_url :: string
  rq_headers :: headers
  rq_body :: bytes
  rq_principal :: "(string \<times> string) option"
  rq_identity :: "string option"

record http_response =
  rsp_status :: nat
  rsp_headers :: headers
  rsp_body :: bytes

text \<open>A handler works on a state \<open>'st\<close>; no response means that it panicked, which ends the request only.\<close>

type_synonym 'st handler = "http_request \<Rightarrow> 'st \<Rightarrow> http_response option \<times> 'st"

text \<open>\<open>http.Error\<close>.\<close>

definition http_Error :: "string \<Rightarrow> nat \<Rightarrow> http_response" where
  "http_Error msg status =
     \<lparr>rsp_status = status, rsp_headers = header_set ''Content-Type'' ''text/plain; charset=utf-8'' [],
      rsp_body = msg @ [CHR 0x0A]\<rparr>"

subsection \<open>The middleware\<close>

definition authErrorMessage :: string where "authErrorMessage = ''Authentication failed''"
definition authErrorLogHeader :: string where "authErrorLogHeader = ''Authentication error: ''"
definition identityHeader :: string where "identityHeader = ''x-rh-identity''"
definition clientHeader :: string where "clientHeader = ''x-rh-receptor-controller-client-id''"
definition accountHeader :: string where "accountHeader = ''x-rh-receptor-controller-account''"
definition pskHeader :: string where "pskHeader = ''x-rh-receptor-controller-psk''"

text \<open>The principal of a request, and whether there is one.\<close>

definition GetPrincipal :: "http_request \<Rightarrow> Principal \<times> bool" where
  "GetPrincipal req =
     (case rq_principal req of
        None \<Rightarrow> (case rq_identity req of None \<Rightarrow> (identityPrincipal [], False) | Some account \<Rightarrow> (identityPrincipal account, True))
      | Some (account, clientID) \<Rightarrow> (serviceToServicePrincipal account clientID, True))"

record serviceCredentials =
  sc_clientID :: string
  sc_account :: string
  sc_psk :: string

definition newServiceCredentials :: "string \<Rightarrow> string \<Rightarrow> string \<Rightarrow> string + serviceCredentials" where
  "newServiceCredentials clientID account psk =
     (if clientID = [] then Inl (authErrorLogHeader @ ''Missing x-rh-receptor-controller-client-id header'')
      else if account = [] then Inl (authErrorLogHeader @ ''Missing x-rh-receptor-controller-account header'')
      else if psk = [] then Inl (authErrorLogHeader @ ''Missing x-rh-receptor-controller-psk header'')
      else Inr \<lparr>sc_clientID = clientID, sc_account = account, sc_psk = psk\<rparr>)"

text \<open>A client that is not in the map, or there with the value nil, is unknown; a known value that is not
  a string equals no key.\<close>

definition validate :: "(string, goany) gomap \<Rightarrow> serviceCredentials \<Rightarrow> string option" where
  "validate known sc =
     (let v = (case map_of known (sc_clientID sc) of None \<Rightarrow> ANil | Some v \<Rightarrow> v) in
      if v = ANil then Some (authErrorLogHeader @ ''Provided ClientID not attached to any known keys'')
      else if AStr (sc_psk sc) \<noteq> v then Some (authErrorLogHeader @ ''Provided PSK does not match known key for this client'')
      else None)"

definition Authenticate ::
  "(string, goany) gomap \<Rightarrow> (http_request \<Rightarrow> http_response + http_request) \<Rightarrow> 'st handler \<Rightarrow> 'st handler" where
  "Authenticate secrets EnforceIdentity next r st =
     (if header_get (rq_headers r) identityHeader \<noteq> [] then
        (case EnforceIdentity r of Inl resp \<Rightarrow> (Some resp, st) | Inr r' \<Rightarrow> next r' st)
      else
        (case newServiceCredentials (header_get (rq_headers r) clientHeader) (header_get (rq_headers r) accountHeader)
               (header_get (rq_headers r) pskHeader) of
           Inl err \<Rightarrow> (Some (http_Error authErrorMessage 401), st)
         | Inr sr \<Rightarrow>
             (case validate secrets sr of
                Some err \<Rightarrow> (Some (http_Error authErrorMessage 401), st)
              | None \<Rightarrow> next (r\<lparr>rq_principal := Some (sc_account sr, sc_clientID sr)\<rparr>) st)))"

subsection \<open>Properties\<close>

text \<open>The key a request presents.\<close>

definition presents_key :: "(string, goany) gomap \<Rightarrow> http_request \<Rightarrow> bool" where
  "presents_key secrets r \<longleftrightarrow>
     header_get (rq_headers r) clientHeader \<noteq> [] \<and> header_get (rq_headers r) accountHeader \<noteq> [] \<and>
     header_get (rq_headers r) pskHeader \<noteq> [] \<and>
     map_of secrets (header_get (rq_headers r) clientHeader) = Some (AStr (header_get (rq_headers r) pskHeader))"

lemma validate_iff: "validate known sc = None \<longleftrightarrow> map_of known (sc_clientID sc) = Some (AStr (sc_psk sc))"
  by (auto simp: validate_def Let_def split: option.splits)

lemma Authenticate_token:
  assumes "header_get (rq_headers r) identityHeader = []"
  shows "Authenticate secrets enforce next r st =
    (if presents_key secrets r
     then next (r\<lparr>rq_principal := Some (header_get (rq_headers r) accountHeader, header_get (rq_headers r) clientHeader)\<rparr>) st
     else (Some (http_Error authErrorMessage 401), st))"
  using assms validate_iff [of secrets "\<lparr>sc_clientID = header_get (rq_headers r) clientHeader,
      sc_account = header_get (rq_headers r) accountHeader, sc_psk = header_get (rq_headers r) pskHeader\<rparr>"]
  by (auto simp: Authenticate_def newServiceCredentials_def presents_key_def split: option.splits)

text \<open>Property C17. The middleware is complete and sound for requests without an identity header: the handler behind it
  runs exactly for a client that presents an account and the key known for it, and then it sees that
  client and account as the principal; every other request is answered 401 and changes nothing. With
  an identity header the decision and the principal are those of the identity middleware.\<close>

theorem authenticate_decides:
  assumes "rq_principal r = None"
  shows "(header_get (rq_headers r) identityHeader = [] \<and> presents_key secrets r \<longrightarrow>
      (\<exists>r'. Authenticate secrets enforce next r st = next r' st \<and>
        GetPrincipal r' = (serviceToServicePrincipal (header_get (rq_headers r) accountHeader)
          (header_get (rq_headers r) clientHeader), True) \<and> rq_body r' = rq_body r)) \<and>
    (header_get (rq_headers r) identityHeader = [] \<and> \<not> presents_key secrets r \<longrightarrow>
      Authenticate secrets enforce next r st = (Some (http_Error authErrorMessage 401), st)) \<and>
    (header_get (rq_headers r) identityHeader \<noteq> [] \<longrightarrow>
      (case enforce r of Inl resp \<Rightarrow> Authenticate secrets enforce next r st = (Some resp, st)
       | Inr r' \<Rightarrow> Authenticate secrets enforce next r st = next r' st))"
proof (intro conjI impI)
  assume "header_get (rq_headers r) identityHeader = [] \<and> presents_key secrets r"
  then show "\<exists>r'. Authenticate secrets enforce next r st = next r' st \<and>
      GetPrincipal r' = (serviceToServicePrincipal (header_get (rq_headers r) accountHeader)
        (header_get (rq_headers r) clientHeader), True) \<and> rq_body r' = rq_body r"
    by (intro exI [of _ "r\<lparr>rq_principal := Some (header_get (rq_headers r) accountHeader, header_get (rq_headers r) clientHeader)\<rparr>"])
      (simp add: Authenticate_token GetPrincipal_def)
next
  assume "header_get (rq_headers r) identityHeader \<noteq> []"
  then show "case enforce r of Inl resp \<Rightarrow> Authenticate secrets enforce next r st = (Some resp, st)
     | Inr r' \<Rightarrow> Authenticate secrets enforce next r st = next r' st"
    by (simp add: Authenticate_def split: sum.splits)
qed (simp add: Authenticate_token)

definition sample_request :: http_request where
  "sample_request = \<lparr>rq_method = ''POST'', rq_url = ''/job'',
     rq_headers = header_set clientHeader ''tower'' (header_set accountHeader ''0001'' (header_set pskHeader ''key'' [])),
     rq_body = [], rq_principal = None, rq_identity = None\<rparr>"

lemma header_names:
  "to_lower clientHeader = clientHeader" "to_lower accountHeader = accountHeader" "to_lower pskHeader = pskHeader"
  "to_lower identityHeader = identityHeader" "distinct [clientHeader, accountHeader, pskHeader, identityHeader]"
  by code_simp+

theorem authenticate_decides_witness:
  "rq_principal sample_request = None \<and>
   (\<exists>r'. Authenticate [(''tower'', AStr ''key'')] (\<lambda>r. Inr r) (\<lambda>r n. (None, n + length (rq_body r))) sample_request 0 =
       (None, 0 + length (rq_body r')) \<and>
     GetPrincipal r' = (serviceToServicePrincipal ''0001'' ''tower'', True)) \<and>
   Authenticate [(''tower'', AStr ''other'')] (\<lambda>r. Inr r) (\<lambda>r n. (None, n + length (rq_body r))) sample_request 0 =
     (Some (http_Error authErrorMessage 401), 0)"
proof -
  have r: "rq_principal sample_request = None" by (simp add: sample_request_def)
  have h: "header_get (rq_headers sample_request) identityHeader = []" "header_get (rq_headers sample_request) accountHeader = ''0001''"
    "header_get (rq_headers sample_request) clientHeader = ''tower''" "header_get (rq_headers sample_request) pskHeader = ''key''"
    using header_names by (auto simp: sample_request_def header_get_nil)
  have keys: "presents_key [(''tower'', AStr ''key'')] sample_request" "\<not> presents_key [(''tower'', AStr ''other'')] sample_request"
    by (simp_all add: presents_key_def h)
  show ?thesis
    using authenticate_decides [OF r, of "[(''tower'', AStr ''key'')]" "\<lambda>r. Inr r" "\<lambda>r n. (None, n + length (rq_body r))" 0]
      authenticate_decides [OF r, of "[(''tower'', AStr ''other'')]" "\<lambda>r. Inr r" "\<lambda>r n. (None, n + length (rq_body r))" 0]
    by (simp add: h keys r) blast
qed

end
