(* ===== verification/Api.thy ===== *)
theory Api
  imports Auth Receptor_Service
begin

text \<open>
  The HTTP API (\<open>internal/controller/api\<close>): decoding of requests and writing of responses
  (\<open>utils.go\<close>), the handler for jobs (\<open>job_receiver.go\<close>) and the management handlers
  (\<open>management.go\<close>).

  The handlers reach connections through the interfaces \<open>ConnectionLocator\<close> and \<open>Receptor\<close>, here a record
  of functions on a state \<open>'st\<close> with clients \<open>'c\<close>. The gateway provides them with its local connections,
  the job receiver with proxies (theory \<open>Http_Proxy\<close>). The validation package is a parameter: \<open>present\<close>
  says which value of an \<open>interface{}\<close> counts as present for the tag \<open>required\<close>; a string does if it is
  not empty.
\<close>

subsection \<open>Responses\<close>

record errorResponse =
  er_Title :: string
  er_Status :: nat
  er_Detail :: string

definition errorResponse_json :: "errorResponse \<Rightarrow> json option" where
  "errorResponse_json e =
     enc_struct [(''title'', html_str (er_Title e)), (''status'', enc_int (int (er_Status e))),
       (''detail'', html_str (er_Detail e))]"

text \<open>The status is sent before the payload is encoded; if that fails, the text of the error follows.\<close>

definition writeJSONResponse :: "nat \<Rightarrow> json option \<Rightarrow> http_response" where
  "writeJSONResponse status payload =
     \<lparr>rsp_status = status, rsp_headers = header_set ''Content-Type'' ''application/json; charset=UTF-8'' [],
      rsp_body = (case payload of
          Some j \<Rightarrow> json_text j @ [CHR 0x0A]
        | None \<Rightarrow> ''Unable to encode payload!'' @ [CHR 0x0A])\<rparr>"

definition error_response :: "string \<Rightarrow> nat \<Rightarrow> string \<Rightarrow> http_response" where
  "error_response title status detail =
     (let e = \<lparr>er_Title = title, er_Status = status, er_Detail = detail\<rparr>
      in writeJSONResponse (er_Status e) (errorResponse_json e))"

subsection \<open>Requests\<close>

text \<open>\<open>Decoder.More\<close> on what is left.\<close>

definition decoder_More :: "bytes \<Rightarrow> bool" where
  "decoder_More rest = (case skip_ws rest of [] \<Rightarrow> False | c # _ \<Rightarrow> c \<noteq> CHR '']'' \<and> c \<noteq> CHR ''}'')"

text \<open>\<open>st\<close> stores a JSON value into the struct and \<open>valid\<close> is the validator. The decoder is given a pointer
  to the interface value \<open>data\<close>: a JSON null sets that to nil, the validator then refuses its argument
  with an \<open>InvalidValidationError\<close>, and the type assertion on the error panics.\<close>

definition decodeJSON ::
  "(json \<Rightarrow> 's \<Rightarrow> 's option) \<Rightarrow> ('s \<Rightarrow> bool) \<Rightarrow> bytes \<Rightarrow> 's \<Rightarrow> (string, 's) outcome" where
  "decodeJSON st valid body data =
     (case json_decode body of
        None \<Rightarrow> Err ''Request body includes malformed json''
      | Some (JNull, rest) \<Rightarrow> Panic
      | Some (j, rest) \<Rightarrow>
          (case st j data of
             None \<Rightarrow> Err ''Request body includes malformed json''
           | Some data' \<Rightarrow>
               if \<not> valid data' then Err ''Request body is missing required fields''
               else if decoder_More rest then Err ''Request body must only contain one json object''
               else Ok data'))"

text \<open>\<open>http.MaxBytesReader\<close> with the limit of the handlers: what the decoder can read.\<close>

definition maxBytes :: nat where "maxBytes = 1048576"

definition MaxBytesReader :: "bytes \<Rightarrow> bytes" where
  "MaxBytesReader body = take maxBytes body"

subsection \<open>The interfaces ConnectionLocator and Receptor\<close>

datatype api_error =
    errUnableToSendMessage
  | errUnableToProcessResponse
  | errDisconnectedNode
  | errService service_error
  | errOther string

text \<open>The texts of \<open>receptor.go\<close>; that of an error of the random source is not modelled.\<close>

fun service_error_text :: "service_error \<Rightarrow> string" where
  "service_error_text connectionToReceptorNetworkLost = ''Connection to receptor network lost''"
| "service_error_text requestCancelledBySender = ''Unable to complete the request.  Request cancelled by message sender.''"
| "service_error_text requestTimedOut = ''Unable to complete the request.  Request timed out.''"
| "service_error_text accountMismatch = ''Account mismatch.  Unable to complete the request.''"
| "service_error_text uuidError = []"

fun api_error_text :: "api_error \<Rightarrow> string" where
  "api_error_text errUnableToSendMessage = ''unable to send message''"
| "api_error_text errUnableToProcessResponse = ''unable to process response''"
| "api_error_text errDisconnectedNode = ''disconnected node''"
| "api_error_text (errService e) = service_error_text e"
| "api_error_text (errOther m) = m"

text \<open>The two listings give none where the lookup panics.\<close>

record ('c, 'u, 'st) backend =
  be_GetConnection :: "string \<Rightarrow> string \<Rightarrow> 'st \<Rightarrow> 'c option \<times> 'st"
  be_GetConnectionsByAccount :: "string \<Rightarrow> 'st \<Rightarrow> (string, 'c option) gomap option \<times> 'st"
  be_GetAllConnections :: "'st \<Rightarrow> (string, (string, 'c option) gomap) gomap option \<times> 'st"
  be_SendMessage :: "'c \<Rightarrow> string \<Rightarrow> string \<Rightarrow> string list \<Rightarrow> goany \<Rightarrow> string \<Rightarrow> 'st \<Rightarrow> (api_error, 'u) outcome \<times> 'st"
  be_Ping :: "'c \<Rightarrow> string \<Rightarrow> string \<Rightarrow> string list \<Rightarrow> 'st \<Rightarrow> (goany \<times> api_error option) \<times> 'st"
  be_Close :: "'c \<Rightarrow> 'st \<Rightarrow> 'st"
  be_GetCapabilities :: "'c \<Rightarrow> 'st \<Rightarrow> (goany \<times> api_error option) \<times> 'st"

subsection \<open>Jobs\<close>

record jobRequest =
  jq_Account :: string
  jq_Recipient :: string
  jq_Payload :: goany
  jq_Directive :: string

definition new_jobRequest :: jobRequest where
  "new_jobRequest = \<lparr>jq_Account = [], jq_Recipient = [], jq_Payload = ANil, jq_Directive = []\<rparr>"

definition jobRequest_fields :: "string list" where
  "jobRequest_fields = [''account'', ''recipient'', ''payload'', ''directive'']"

definition jobRequest_store :: "string \<Rightarrow> json \<Rightarrow> jobRequest \<Rightarrow> jobRequest option" where
  "jobRequest_store f j q =
     (if f = ''account'' then map_option (\<lambda>s. q\<lparr>jq_Account := s\<rparr>) (store_str j (jq_Account q))
      else if f = ''recipient'' then map_option (\<lambda>s. q\<lparr>jq_Recipient := s\<rparr>) (store_str j (jq_Recipient q))
      else if f = ''payload'' then Some (q\<lparr>jq_Payload := json_any j\<rparr>)
      else map_option (\<lambda>s. q\<lparr>jq_Directive := s\<rparr>) (store_str j (jq_Directive q)))"

definition jobRequest_valid :: "(goany \<Rightarrow> bool) \<Rightarrow> jobRequest \<Rightarrow> bool" where
  "jobRequest_valid present q \<longleftrightarrow>
     jq_Account q \<noteq> [] \<and> jq_Recipient q \<noteq> [] \<and> present (jq_Payload q) \<and> jq_Directive q \<noteq> []"

definition jobResponse_json :: "string \<Rightarrow> json option" where
  "jobResponse_json jobID = enc_struct [(''id'', html_str jobID)]"

definition writeConnectionFailureResponse :: http_response where
  "writeConnectionFailureResponse =
     (let errMsg = ''No connection to the receptor node'' in error_response errMsg 404 errMsg)"

definition handleJob :: "(goany \<Rightarrow> bool) \<Rightarrow> ('u \<Rightarrow> string) \<Rightarrow> ('c, 'u, 'st) backend \<Rightarrow> 'st handler" where
  "handleJob present uuid_String be req st =
     (case decodeJSON (store_struct jobRequest_fields jobRequest_store) (jobRequest_valid present)
             (MaxBytesReader (rq_body req)) new_jobRequest of
        Panic \<Rightarrow> (None, st)
      | Err err \<Rightarrow> (Some (error_response ''Unable to process json input'' 400 err), st)
      | Ok jobRequest \<Rightarrow>
          (case be_GetConnection be (jq_Account jobRequest) (jq_Recipient jobRequest) st of
             (None, st1) \<Rightarrow> (Some writeConnectionFailureResponse, st1)
           | (Some client, st1) \<Rightarrow>
               (case be_SendMessage be client (jq_Account jobRequest) (jq_Recipient jobRequest)
                       [jq_Recipient jobRequest] (jq_Payload jobRequest) (jq_Directive jobRequest) st1 of
                  (Panic, st2) \<Rightarrow> (None, st2)
                | (Err err, st2) \<Rightarrow>
                    if err = errDisconnectedNode then (Some writeConnectionFailureResponse, st2)
                    else (Some (error_response ''Error passing message to receptor'' 500 (api_error_text err)), st2)
                | (Ok jobID, st2) \<Rightarrow> (Some (writeJSONResponse 201 (jobResponse_json (uuid_String jobID))), st2))))"

subsection \<open>Management\<close>

definition CONNECTED_STATUS :: string where "CONNECTED_STATUS = ''connected''"
definition DISCONNECTED_STATUS :: string where "DISCONNECTED_STATUS = ''disconnected''"

record connectionID =
  ci_Account :: string
  ci_NodeID :: string

definition new_connectionID :: connectionID where
  "new_connectionID = \<lparr>ci_Account = [], ci_NodeID = []\<rparr>"

definition connectionID_fields :: "string list" where
  "connectionID_fields = [''account'', ''node_id'']"

definition connectionID_store :: "string \<Rightarrow> json \<Rightarrow> connectionID \<Rightarrow> connectionID option" where
  "connectionID_store f j c =
     (if f = ''account'' then map_option (\<lambda>s. c\<lparr>ci_Account := s\<rparr>) (store_str j (ci_Account c))
      else map_option (\<lambda>s. c\<lparr>ci_NodeID := s\<rparr>) (store_str j (ci_NodeID c)))"

definition connectionID_valid :: "connectionID \<Rightarrow> bool" where
  "connectionID_valid c \<longleftrightarrow> ci_Account c \<noteq> [] \<and> ci_NodeID c \<noteq> []"

record connectionStatusResponse =
  cs_Status :: string
  cs_Capabilities :: goany

text \<open>\<open>omitempty\<close>: a nil interface value is left out.\<close>

definition connectionStatusResponse_json :: "connectionStatusResponse \<Rightarrow> json option" where
  "connectionStatusResponse_json r =
     enc_struct ([(''status'', html_str (cs_Status r))] @
       (if cs_Capabilities r = ANil then [] else [(''capabilities'', any_json True (cs_Capabilities r))]))"

record connectionPingResponse =
  cp_Status :: string
  cp_Payload :: goany

definition connectionPingResponse_json :: "connectionPingResponse \<Rightarrow> json option" where
  "connectionPingResponse_json r =
     enc_struct [(''status'', html_str (cp_Status r)), (''payload'', any_json True (cp_Payload r))]"

text \<open>The part the three handlers that take a connection id share.\<close>

definition decode_connectionID :: "http_request \<Rightarrow> (string, connectionID) outcome" where
  "decode_connectionID req =
     decodeJSON (store_struct connectionID_fields connectionID_store) connectionID_valid
       (MaxBytesReader (rq_body req)) new_connectionID"

definition handleDisconnect :: "('c, 'u, 'st) backend \<Rightarrow> 'st handler" where
  "handleDisconnect be req st =
     (case decode_connectionID req of
        Panic \<Rightarrow> (None, st)
      | Err err \<Rightarrow> (Some (error_response ''Unable to process json input'' 400 err), st)
      | Ok connID \<Rightarrow>
          (case be_GetConnection be (ci_Account connID) (ci_NodeID connID) st of
             (None, st1) \<Rightarrow>
               (let errMsg = ''No connection found for node ('' @ ci_Account connID @ '':'' @ ci_NodeID connID @ '')''
                in (Some (error_response errMsg 400 errMsg), st1))
           | (Some client, st1) \<Rightarrow> (Some (writeJSONResponse 200 (Some (JObj []))), be_Close be client st1)))"

definition handleConnectionStatus :: "('c, 'u, 'st) backend \<Rightarrow> 'st handler" where
  "handleConnectionStatus be req st =
     (case decode_connectionID req of
        Panic \<Rightarrow> (None, st)
      | Err err \<Rightarrow> (Some (error_response ''Unable to process json input'' 400 err), st)
      | Ok connID \<Rightarrow>
          (let connectionStatus = \<lparr>cs_Status = DISCONNECTED_STATUS, cs_Capabilities = ANil\<rparr> in
           case be_GetConnection be (ci_Account connID) (ci_NodeID connID) st of
             (None, st1) \<Rightarrow> (Some (writeJSONResponse 200 (connectionStatusResponse_json connectionStatus)), st1)
           | (Some client, st1) \<Rightarrow>
               (case be_GetCapabilities be client st1 of
                  ((capabilities, None), st2) \<Rightarrow>
                    (Some (writeJSONResponse 200 (connectionStatusResponse_json
                       (connectionStatus\<lparr>cs_Status := CONNECTED_STATUS, cs_Capabilities := capabilities\<rparr>))), st2)
                | ((_, Some err), st2) \<Rightarrow>
                    (Some (writeJSONResponse 200 (connectionStatusResponse_json connectionStatus)), st2))))"

definition handleConnectionPing :: "('c, 'u, 'st) backend \<Rightarrow> 'st handler" where
  "handleConnectionPing be req st =
     (case decode_connectionID req of
        Panic \<Rightarrow> (None, st)
      | Err err \<Rightarrow> (Some (error_response ''Unable to process json input'' 400 err), st)
      | Ok connID \<Rightarrow>
          (let pingResponse = \<lparr>cp_Status = DISCONNECTED_STATUS, cp_Payload = ANil\<rparr> in
           case be_GetConnection be (ci_Account connID) (ci_NodeID connID) st of
             (None, st1) \<Rightarrow> (Some (writeJSONResponse 200 (connectionPingResponse_json pingResponse)), st1)
           | (Some client, st1) \<Rightarrow>
               (case be_Ping be client (ci_Account connID) (ci_NodeID connID) [ci_NodeID connID] st1 of
                  ((payload, err), st2) \<Rightarrow>
                    (let pingResponse = pingResponse\<lparr>cp_Status := CONNECTED_STATUS, cp_Payload := payload\<rparr> in
                     if payload = ANil then
                       (Some (writeJSONResponse 200 (connectionPingResponse_json (pingResponse\<lparr>cp_Status := DISCONNECTED_STATUS\<rparr>))), st2)
                     else (case err of
                         Some e \<Rightarrow> (Some (error_response ''Ping failed'' 400 (api_error_text e)), st2)
                       | None \<Rightarrow> (Some (writeJSONResponse 200 (connectionPingResponse_json pingResponse)), st2))))))"

text \<open>\<open>keys := make([]string, len(m))\<close> and the loop that fills it by index.\<close>

definition fill_keys :: "(string \<times> 'v) list \<Rightarrow> string list" where
  "fill_keys m = fst (foldl (\<lambda>(keys, i) (k, v). (keys[i := k], i + 1)) (replicate (length m) [], 0) m)"

definition strings_json :: "string list \<Rightarrow> json option" where
  "strings_json ss = enc_slice html_str (Some ss)"

record ConnectionsPerAccount =
  ca_AccountNumber :: string
  ca_Connections :: "string list"

definition fill_accounts :: "(string, (string, 'c) gomap) gomap \<Rightarrow> ConnectionsPerAccount list" where
  "fill_accounts m =
     fst (foldl (\<lambda>(cs, i) (key, value). (cs[i := \<lparr>ca_AccountNumber = key, ca_Connections = fill_keys value\<rparr>], i + 1))
       (replicate (length m) \<lparr>ca_AccountNumber = [], ca_Connections = []\<rparr>, 0) m)"

definition handleConnectionListing :: "('c, 'u, 'st) backend \<Rightarrow> 'st handler" where
  "handleConnectionListing be req st =
     (case be_GetAllConnections be st of
        (None, st1) \<Rightarrow> (None, st1)
      | (Some allReceptorConnections, st1) \<Rightarrow>
          (Some (writeJSONResponse 200 (enc_struct [(''connections'',
             enc_slice (\<lambda>c. enc_struct [(''account'', html_str (ca_AccountNumber c)),
                 (''connections'', strings_json (ca_Connections c))])
               (Some (fill_accounts allReceptorConnections)))])), st1))"

text \<open>\<open>accountId\<close> is the variable of the route.\<close>

definition handleConnectionListingByAccount :: "('c, 'u, 'st) backend \<Rightarrow> string \<Rightarrow> 'st handler" where
  "handleConnectionListingByAccount be accountId req st =
     (case be_GetConnectionsByAccount be accountId st of
        (None, st1) \<Rightarrow> (None, st1)
      | (Some accountConnections, st1) \<Rightarrow>
          (Some (writeJSONResponse 200 (enc_struct [(''connections'', strings_json (fill_keys accountConnections))])), st1))"

subsection \<open>Routes\<close>

text \<open>The routes of the two servers behind the authentication middleware: a method or any method, the paths it
  takes, and the handler for a path. A path with the pattern \<open>[0-9]+\<close> takes a non-empty sequence of digits. The
  access log and the count of status codes, which also wrap the handlers, change neither the request nor the
  response (lemma \<open>RecordHTTPMetrics_transparent\<close> of theory \<open>Platform\<close>).\<close>

type_synonym 'st route = "string option \<times> (string \<Rightarrow> bool) \<times> (string \<Rightarrow> 'st handler)"

definition account_path :: "string \<Rightarrow> bool" where
  "account_path p \<longleftrightarrow> prefix ''/connection/'' p \<and> (let i = drop 12 p in i \<noteq> [] \<and> list_all is_digit i)"

definition JobReceiver_Routes ::
  "(string, goany) gomap \<Rightarrow> (http_request \<Rightarrow> http_response + http_request) \<Rightarrow> (goany \<Rightarrow> bool) \<Rightarrow> ('u \<Rightarrow> string) \<Rightarrow>
   ('c, 'u, 'st) backend \<Rightarrow> 'st route list" where
  "JobReceiver_Routes secrets enforce present uuid_String be =
     [(Some ''POST'', (\<lambda>p. p = ''/job''), (\<lambda>p. Authenticate secrets enforce (handleJob present uuid_String be)))]"

definition ManagementServer_Routes ::
  "(string, goany) gomap \<Rightarrow> (http_request \<Rightarrow> http_response + http_request) \<Rightarrow> ('c, 'u, 'st) backend \<Rightarrow> 'st route list" where
  "ManagementServer_Routes secrets enforce be =
     [(Some ''GET'', (\<lambda>p. p = ''/connection''), (\<lambda>p. Authenticate secrets enforce (handleConnectionListing be))),
      (Some ''GET'', account_path, (\<lambda>p. Authenticate secrets enforce (handleConnectionListingByAccount be (drop 12 p)))),
      (Some ''POST'', (\<lambda>p. p = ''/connection/disconnect''), (\<lambda>p. Authenticate secrets enforce (handleDisconnect be))),
      (Some ''POST'', (\<lambda>p. p = ''/connection/status''), (\<lambda>p. Authenticate secrets enforce (handleConnectionStatus be))),
      (Some ''POST'', (\<lambda>p. p = ''/connection/ping''), (\<lambda>p. Authenticate secrets enforce (handleConnectionPing be)))]"

text \<open>The router: the first route that takes the method and the path; \<open>other\<close> answers a request that no route
  takes.\<close>

definition serve :: "'st handler \<Rightarrow> 'st route list \<Rightarrow> string \<Rightarrow> 'st handler" where
  "serve other routes path r st =
     (case List.find (\<lambda>(m, takes, h). (m = None \<or> m = Some (rq_method r)) \<and> takes path) routes of
        None \<Rightarrow> other r st
      | Some (m, takes, h) \<Rightarrow> h path r st)"

subsection \<open>Properties\<close>

lemma fill_keys_eq: "fill_keys m = map fst m"
proof -
  have "foldl (\<lambda>(keys, i) (k, v). (keys[i := k], i + 1)) (xs @ replicate (length m) [], length xs) m =
      (xs @ map fst m, length xs + length m)" for xs
  proof (induction m arbitrary: xs)
    case (Cons kv m)
    obtain k v where kv: "kv = (k, v)" by (cases kv)
    show ?case using Cons [of "xs @ [k]"] by (simp add: kv list_update_append)
  qed simp
  from this [of "[]"] show ?thesis by (simp add: fill_keys_def)
qed

lemma fill_accounts_eq:
  "fill_accounts m = map (\<lambda>(a, ns). \<lparr>ca_AccountNumber = a, ca_Connections = map fst ns\<rparr>) m"
proof -
  let ?e = "\<lparr>ca_AccountNumber = [], ca_Connections = []\<rparr>"
  have "foldl (\<lambda>(cs, i) (key, value). (cs[i := \<lparr>ca_AccountNumber = key, ca_Connections = fill_keys value\<rparr>], i + 1))
      (xs @ replicate (length m) ?e, length xs) m =
      (xs @ map (\<lambda>(a, ns). \<lparr>ca_AccountNumber = a, ca_Connections = map fst ns\<rparr>) m, length xs + length m)" for xs
  proof (induction m arbitrary: xs)
    case (Cons kv m)
    obtain k v where kv: "kv = (k, v)" by (cases kv)
    show ?case using Cons [of "xs @ [\<lparr>ca_AccountNumber = k, ca_Connections = map fst v\<rparr>]"]
      by (simp add: kv list_update_append fill_keys_eq)
  qed simp
  from this [of "[]"] show ?thesis by (simp add: fill_accounts_def)
qed

text \<open>The first JSON value of the body is null.\<close>

definition null_body :: "http_request \<Rightarrow> bool" where
  "null_body r = (case json_decode (MaxBytesReader (rq_body r)) of Some (JNull, rest) \<Rightarrow> True | _ \<Rightarrow> False)"

lemma decodeJSON_Panic:
  "decodeJSON store valid (MaxBytesReader (rq_body r)) data = Panic \<longleftrightarrow> null_body r"
  by (auto simp: decodeJSON_def null_body_def split: option.splits json.splits if_splits)

lemma null_body_plain: "null_body (r\<lparr>rq_body := ''null''\<rparr>)"
proof -
  have "json_decode ''null'' = Some (JNull, [])" by code_simp
  then show ?thesis by (simp add: null_body_def MaxBytesReader_def maxBytes_def)
qed

text \<open>Property C39. When the handlers panic. The handlers of the management API panic exactly on a body whose first JSON
  value is null, which an authenticated client may send at any time, and on no other body, however
  malformed; the handler of jobs panics on such a body and otherwise only where sending the message
  does.\<close>

theorem null_body_panics:
  "(fst (handleDisconnect be r st) = None \<longleftrightarrow> null_body r) \<and>
   (fst (handleConnectionStatus be r st) = None \<longleftrightarrow> null_body r) \<and>
   (fst (handleConnectionPing be r st) = None \<longleftrightarrow> null_body r) \<and>
   (fst (handleJob present uuid_String be r st) = None \<longleftrightarrow> null_body r \<or>
     (\<exists>q client st1 st2.
        decodeJSON (store_struct jobRequest_fields jobRequest_store) (jobRequest_valid present)
          (MaxBytesReader (rq_body r)) new_jobRequest = Ok q \<and>
        be_GetConnection be (jq_Account q) (jq_Recipient q) st = (Some client, st1) \<and>
        be_SendMessage be client (jq_Account q) (jq_Recipient q) [jq_Recipient q] (jq_Payload q) (jq_Directive q) st1 =
          (Panic, st2)))"
proof -
  have job: "fst (handleJob present uuid_String be r st) = None \<longleftrightarrow>
      (case decodeJSON (store_struct jobRequest_fields jobRequest_store) (jobRequest_valid present)
          (MaxBytesReader (rq_body r)) new_jobRequest of
        Panic \<Rightarrow> True | Err e \<Rightarrow> False
      | Ok q \<Rightarrow> (\<exists>client st1 st2. be_GetConnection be (jq_Account q) (jq_Recipient q) st = (Some client, st1) \<and>
          be_SendMessage be client (jq_Account q) (jq_Recipient q) [jq_Recipient q] (jq_Payload q) (jq_Directive q) st1 =
            (Panic, st2)))"
    by (simp add: handleJob_def split: outcome.split prod.split option.split)
  have mgmt: "fst (handleDisconnect be r st) = None \<longleftrightarrow> decode_connectionID r = Panic"
    "fst (handleConnectionStatus be r st) = None \<longleftrightarrow> decode_connectionID r = Panic"
    "fst (handleConnectionPing be r st) = None \<longleftrightarrow> decode_connectionID r = Panic"
    by (simp_all add: handleDisconnect_def handleConnectionStatus_def handleConnectionPing_def Let_def
        split: outcome.split prod.split option.split)
  show ?thesis
    unfolding mgmt job decode_connectionID_def decodeJSON_Panic
    by (cases "decodeJSON (store_struct jobRequest_fields jobRequest_store) (jobRequest_valid present)
          (MaxBytesReader (rq_body r)) new_jobRequest")
      (simp_all flip: decodeJSON_Panic [of "store_struct jobRequest_fields jobRequest_store" "jobRequest_valid present" r new_jobRequest])
qed

text \<open>The account of the caller is not compared with the account of the job: a client that presents a key
  for one account has a job sent to a node of any account that its body names.\<close>

lemma job_for_any_account:
  assumes "header_get (rq_headers r) identityHeader = []" "presents_key secrets r"
    and "decodeJSON (store_struct jobRequest_fields jobRequest_store) (jobRequest_valid present)
           (MaxBytesReader (rq_body r)) new_jobRequest = Ok q"
    and "be_GetConnection be (jq_Account q) (jq_Recipient q) st = (Some client, st1)"
    and "be_SendMessage be client (jq_Account q) (jq_Recipient q) [jq_Recipient q] (jq_Payload q) (jq_Directive q) st1 = (Ok u, st2)"
  shows "Authenticate secrets enforce (handleJob present uuid_String be) r st =
     (Some (writeJSONResponse 201 (jobResponse_json (uuid_String u))), st2)"
  using assms by (simp add: Authenticate_token handleJob_def)

definition sample_backend :: "(unit, string, (string \<times> string \<times> string) list) backend" where
  "sample_backend = \<lparr>be_GetConnection = (\<lambda>a n st. (Some (), st)), be_GetConnectionsByAccount = (\<lambda>a st. (Some [], st)),
     be_GetAllConnections = (\<lambda>st. (Some [], st)), be_SendMessage = (\<lambda>c a n route p d st. (Ok ''u-1'', st @ [(a, n, d)])),
     be_Ping = (\<lambda>c a n route st. ((ANil, None), st)), be_Close = (\<lambda>c st. st), be_GetCapabilities = (\<lambda>c st. ((ANil, None), st))\<rparr>"

definition sample_job :: json where
  "sample_job = JObj [(''account'', JStr ''0002''), (''recipient'', JStr ''node-b''), (''payload'', JStr ''run''),
     (''directive'', JStr ''demo:do'')]"

lemma sample_job_decodes:
  "decodeJSON (store_struct jobRequest_fields jobRequest_store) (jobRequest_valid (\<lambda>a. a \<noteq> ANil))
     (MaxBytesReader (json_text sample_job)) new_jobRequest =
   Ok \<lparr>jq_Account = ''0002'', jq_Recipient = ''node-b'', jq_Payload = AStr ''run'', jq_Directive = ''demo:do''\<rparr>"
proof -
  have names: "plain_name ''account''" "plain_name ''recipient''" "plain_name ''payload''" "plain_name ''directive''"
    "plain_name ''0002''" "plain_name ''node-b''" "plain_name ''run''" "plain_name ''demo:do''"
    by (simp_all add: plain_name_def DQ_def BS_def)
  have wf: "wf_json sample_job" by (simp add: sample_job_def names plain_nameD)
  have len: "length (json_text sample_job) \<le> 1048576" by (simp add: sample_job_def)
  have "json_decode (json_text sample_job) = Some (sample_job, [])"
    using json_decode_text [OF wf, of "[]"] by (simp add: delim_def)
  moreover have "store_struct jobRequest_fields jobRequest_store sample_job new_jobRequest =
      Some \<lparr>jq_Account = ''0002'', jq_Recipient = ''node-b'', jq_Payload = AStr ''run'', jq_Directive = ''demo:do''\<rparr>"
    by (simp add: sample_job_def store_struct_def field_of_def jobRequest_fields_def jobRequest_store_def names plain_nameD
        new_jobRequest_def store_str_def)
  ultimately show ?thesis using len
    by (simp add: decodeJSON_def MaxBytesReader_def maxBytes_def sample_job_def jobRequest_valid_def decoder_More_def skip_ws_def
        del: json_text.simps)
qed

lemma job_for_any_account_example:
  "header_get (rq_headers sample_request) accountHeader = ''0001'' \<and>
   Authenticate [(''tower'', AStr ''key'')] (\<lambda>r. Inr r) (handleJob (\<lambda>a. a \<noteq> ANil) (\<lambda>u. u) sample_backend)
     (sample_request\<lparr>rq_body := json_text sample_job\<rparr>) [] =
   (Some (writeJSONResponse 201 (jobResponse_json ''u-1'')), [(''0002'', ''node-b'', ''demo:do'')])"
proof -
  let ?r = "sample_request\<lparr>rq_body := json_text sample_job\<rparr>"
  have h: "header_get (rq_headers ?r) identityHeader = []" "header_get (rq_headers ?r) accountHeader = ''0001''"
    "presents_key [(''tower'', AStr ''key'')] ?r"
    using header_names by (auto simp: sample_request_def header_get_nil presents_key_def)
  have d: "decodeJSON (store_struct jobRequest_fields jobRequest_store) (jobRequest_valid (\<lambda>a. a \<noteq> ANil))
      (MaxBytesReader (rq_body ?r)) new_jobRequest =
      Ok \<lparr>jq_Account = ''0002'', jq_Recipient = ''node-b'', jq_Payload = AStr ''run'', jq_Directive = ''demo:do''\<rparr>"
    using sample_job_decodes by simp
  show ?thesis
    using job_for_any_account [OF h(1,3) d, of sample_backend "[]" "()" "[]" "''u-1''" "[(''0002'', ''node-b'', ''demo:do'')]"] h(2)
    by (simp add: sample_backend_def)
qed

end
