(* ===== verification/Http_Proxy.thy ===== *)
theory Http_Proxy
  imports Api Config Redis_Connector
begin

text \<open>
  The job receiver's view of a connection that another pod holds
  (\<open>internal/controller/api/receptor_http_proxy.go\<close> and \<open>http_proxy_connection_manager.go\<close>): a proxy that
  forwards each call of the interface \<open>Receptor\<close> to the pod's HTTP API, and a locator that looks the pod
  up in Redis.

  The network is a parameter, the record \<open>network\<close>: \<open>net_do\<close> takes a request and the state of the outside
  world and gives a response or none for an error, \<open>net_url_ok\<close> says which URLs \<open>http.NewRequest\<close> accepts.
  The context of a request is cancelled when \<open>makeHttpRequest\<close> returns, before the body of the response is
  read: \<open>net_body_lost\<close> says that reading it then fails.
\<close>

subsection \<open>The proxy\<close>

record ReceptorHttpProxy =
  px_Hostname :: string
  px_AccountNumber :: string
  px_NodeID :: string
  px_Config :: Config

record 'st network =
  net_do :: "http_request \<Rightarrow> 'st \<Rightarrow> http_response option \<times> 'st"
  net_url_ok :: "string \<Rightarrow> bool"
  net_body_lost :: bool

definition generateUrl :: "ReceptorHttpProxy \<Rightarrow> string \<Rightarrow> string" where
  "generateUrl rhp path =
     cfg_JobReceiverReceptorProxyScheme (px_Config rhp) @ ''://'' @ px_Hostname rhp @ '':'' @
     int_text (cfg_JobReceiverReceptorProxyPort (px_Config rhp)) @ ''/'' @ path"

definition addPreSharedKeyHeaders :: "Config \<Rightarrow> string \<Rightarrow> headers \<Rightarrow> headers" where
  "addPreSharedKeyHeaders config accountNumber hs =
     (let clientID = cfg_JobReceiverReceptorProxyClientID config;
          psk = cfg_JobReceiverReceptorProxyPSK config;
          hs1 = header_set ''x-rh-receptor-controller-client-id'' clientID hs;
          hs2 = header_set ''x-rh-receptor-controller-account'' accountNumber hs1
      in header_set ''x-rh-receptor-controller-psk'' psk hs2)"

definition addRequestIdHeader :: "string \<Rightarrow> headers \<Rightarrow> headers" where
  "addRequestIdHeader requestId hs = header_set ''x-rh-insights-request-id'' requestId hs"

definition makeHttpRequest ::
  "'st network \<Rightarrow> string \<Rightarrow> string \<Rightarrow> string \<Rightarrow> string \<Rightarrow> Config \<Rightarrow> bytes \<Rightarrow> 'st \<Rightarrow> http_response option \<times> 'st" where
  "makeHttpRequest net requestId method url accountNumber config body st =
     (if \<not> net_url_ok net url then (None, st)
      else net_do net
        \<lparr>rq_method = method, rq_url = url,
         rq_headers = addRequestIdHeader requestId (addPreSharedKeyHeaders config accountNumber
           (header_set ''Content-Type'' ''application/json'' [])),
         rq_body = body, rq_principal = None, rq_identity = None\<rparr> st)"

definition marshalJobRequest :: "string \<Rightarrow> string \<Rightarrow> goany \<Rightarrow> string \<Rightarrow> api_error + bytes" where
  "marshalJobRequest accountNumber recipient payload directive =
     (case json_Marshal (enc_struct [(''account'', html_str accountNumber), (''recipient'', html_str recipient),
             (''payload'', any_json True payload), (''directive'', html_str directive)]) of
        None \<Rightarrow> Inl errUnableToSendMessage
      | Some b \<Rightarrow> Inr b)"

definition marshalConnectionKey :: "string \<Rightarrow> string \<Rightarrow> bytes option" where
  "marshalConnectionKey accountNumber recipient =
     json_Marshal (enc_struct [(''account'', html_str accountNumber), (''node_id'', html_str recipient)])"

text \<open>\<open>Decoder.Decode\<close> of the body of a response into a struct.\<close>

definition decode_body ::
  "'st network \<Rightarrow> (json \<Rightarrow> 's \<Rightarrow> 's option) \<Rightarrow> http_response \<Rightarrow> 's \<Rightarrow> api_error + 's" where
  "decode_body net store resp s =
     (if net_body_lost net then Inl errUnableToProcessResponse
      else (case json_decode (rsp_body resp) of
          None \<Rightarrow> Inl errUnableToProcessResponse
        | Some (j, rest) \<Rightarrow> (case store j s of None \<Rightarrow> Inl errUnableToProcessResponse | Some s' \<Rightarrow> Inr s')))"

definition jobResponse_store :: "string \<Rightarrow> json \<Rightarrow> string \<Rightarrow> string option" where
  "jobResponse_store f j jobID = store_str j jobID"

definition unmarshalJobResponse :: "'st network \<Rightarrow> http_response \<Rightarrow> api_error + string" where
  "unmarshalJobResponse net resp =
     (if rsp_status resp \<noteq> 201 then
        (if rsp_status resp = 404 then Inl errDisconnectedNode else Inl errUnableToProcessResponse)
      else decode_body net (store_struct [''id''] jobResponse_store) resp [])"

definition pingResponse_store :: "string \<Rightarrow> json \<Rightarrow> connectionPingResponse \<Rightarrow> connectionPingResponse option" where
  "pingResponse_store f j r =
     (if f = ''status'' then map_option (\<lambda>s. r\<lparr>cp_Status := s\<rparr>) (store_str j (cp_Status r))
      else Some (r\<lparr>cp_Payload := json_any j\<rparr>))"

definition unmarshalConnectionPingResponse :: "'st network \<Rightarrow> http_response \<Rightarrow> api_error + connectionPingResponse" where
  "unmarshalConnectionPingResponse net resp =
     (if rsp_status resp \<noteq> 200 then Inl errUnableToProcessResponse
      else decode_body net (store_struct [''status'', ''payload''] pingResponse_store) resp
        \<lparr>cp_Status = [], cp_Payload = ANil\<rparr>)"

definition statusResponse_store :: "string \<Rightarrow> json \<Rightarrow> connectionStatusResponse \<Rightarrow> connectionStatusResponse option" where
  "statusResponse_store f j r =
     (if f = ''status'' then map_option (\<lambda>s. r\<lparr>cs_Status := s\<rparr>) (store_str j (cs_Status r))
      else Some (r\<lparr>cs_Capabilities := json_any j\<rparr>))"

definition unmarshalConnectionStatusResponse :: "'st network \<Rightarrow> http_response \<Rightarrow> api_error + connectionStatusResponse" where
  "unmarshalConnectionStatusResponse net resp =
     (if rsp_status resp \<noteq> 200 then Inl errUnableToProcessResponse
      else decode_body net (store_struct [''status'', ''capabilities''] statusResponse_store) resp
        \<lparr>cs_Status = [], cs_Capabilities = ANil\<rparr>)"

text \<open>The four methods. \<open>requestId\<close> is the request id in the caller's context.\<close>

definition proxy_SendMessage ::
  "'st network \<Rightarrow> string \<Rightarrow> (string \<Rightarrow> 'u option) \<Rightarrow> ReceptorHttpProxy \<Rightarrow> string \<Rightarrow> string \<Rightarrow> string list \<Rightarrow> goany \<Rightarrow>
   string \<Rightarrow> 'st \<Rightarrow> (api_error, 'u) outcome \<times> 'st" where
  "proxy_SendMessage net requestId uuid_Parse rhp accountNumber recipient route payload directive st =
     (case marshalJobRequest accountNumber recipient payload directive of
        Inl err \<Rightarrow> (Err err, st)
      | Inr jsonBytes \<Rightarrow>
          (case makeHttpRequest net requestId ''POST'' (generateUrl rhp ''job'') (px_AccountNumber rhp) (px_Config rhp)
                  jsonBytes st of
             (None, st1) \<Rightarrow> (Err errUnableToSendMessage, st1)
           | (Some resp, st1) \<Rightarrow>
               (case unmarshalJobResponse net resp of
                  Inl err \<Rightarrow> (Err err, st1)
                | Inr jobID \<Rightarrow>
                    (case uuid_Parse jobID of
                       None \<Rightarrow> (Err errUnableToProcessResponse, st1)
                     | Some messageID \<Rightarrow> (Ok messageID, st1)))))"

definition proxy_Ping ::
  "'st network \<Rightarrow> string \<Rightarrow> ReceptorHttpProxy \<Rightarrow> string \<Rightarrow> string \<Rightarrow> string list \<Rightarrow> 'st \<Rightarrow>
   (goany \<times> api_error option) \<times> 'st" where
  "proxy_Ping net requestId rhp accountNumber recipient route st =
     (case marshalConnectionKey accountNumber recipient of
        None \<Rightarrow> ((ANil, Some (errOther ''json'')), st)
      | Some jsonBytes \<Rightarrow>
          (case makeHttpRequest net requestId ''POST'' (generateUrl rhp ''connection/ping'') (px_AccountNumber rhp)
                  (px_Config rhp) jsonBytes st of
             (None, st1) \<Rightarrow> ((ANil, Some errUnableToSendMessage), st1)
           | (Some resp, st1) \<Rightarrow>
               (case unmarshalConnectionPingResponse net resp of
                  Inl err \<Rightarrow> ((ANil, Some err), st1)
                | Inr pingResponse \<Rightarrow>
                    if cp_Status pingResponse = DISCONNECTED_STATUS then ((ANil, Some errDisconnectedNode), st1)
                    else ((cp_Payload pingResponse, None), st1))))"

definition proxy_Close ::
  "'st network \<Rightarrow> string \<Rightarrow> ReceptorHttpProxy \<Rightarrow> 'st \<Rightarrow> api_error option \<times> 'st" where
  "proxy_Close net requestId rhp st =
     (case marshalConnectionKey (px_AccountNumber rhp) (px_NodeID rhp) of
        None \<Rightarrow> (Some (errOther ''json''), st)
      | Some jsonBytes \<Rightarrow>
          (case makeHttpRequest net requestId ''POST'' (generateUrl rhp ''connection/disconnect'') (px_AccountNumber rhp)
                  (px_Config rhp) jsonBytes st of
             (None, st1) \<Rightarrow> (Some errUnableToSendMessage, st1)
           | (Some resp, st1) \<Rightarrow> (None, st1)))"

definition proxy_GetCapabilities ::
  "'st network \<Rightarrow> string \<Rightarrow> ReceptorHttpProxy \<Rightarrow> 'st \<Rightarrow> (goany \<times> api_error option) \<times> 'st" where
  "proxy_GetCapabilities net requestId rhp st =
     (case marshalConnectionKey (px_AccountNumber rhp) (px_NodeID rhp) of
        None \<Rightarrow> ((ANil, Some (errOther ''json'')), st)
      | Some jsonBytes \<Rightarrow>
          (case makeHttpRequest net requestId ''POST'' (generateUrl rhp ''connection/status'') (px_AccountNumber rhp)
                  (px_Config rhp) jsonBytes st of
             (None, st1) \<Rightarrow> ((ANil, Some errUnableToSendMessage), st1)
           | (Some resp, st1) \<Rightarrow>
               (case unmarshalConnectionStatusResponse net resp of
                  Inl err \<Rightarrow> ((ANil, Some err), st1)
                | Inr statusResponse \<Rightarrow>
                    if cs_Status statusResponse = DISCONNECTED_STATUS then ((ANil, Some errDisconnectedNode), st1)
                    else ((cs_Capabilities statusResponse, None), st1))))"

subsection \<open>The locator\<close>

definition locator_GetConnection :: "Config \<Rightarrow> string \<Rightarrow> string \<Rightarrow> ('s, ReceptorHttpProxy option) prog" where
  "locator_GetConnection cfg account node_id =
     pbind (GetRedisConnection account node_id) (\<lambda>(podName, err).
       case err of
         Some e \<Rightarrow> Ret None
       | None \<Rightarrow>
           if podName = [] then Ret None
           else Ret (Some \<lparr>px_Hostname = podName, px_AccountNumber = account, px_NodeID = node_id, px_Config = cfg\<rparr>))"

fun locator_nodes ::
  "Config \<Rightarrow> string \<Rightarrow> (string \<times> 'v) list \<Rightarrow> (string, ReceptorHttpProxy option) gomap \<Rightarrow>
   ('s, (string, ReceptorHttpProxy option) gomap) prog" where
  "locator_nodes cfg account [] m = Ret m"
| "locator_nodes cfg account ((nodeID, _) # rest) m =
     pbind (locator_GetConnection cfg account nodeID) (\<lambda>proxy.
       locator_nodes cfg account rest (AList.update nodeID proxy m))"

definition locator_GetConnectionsByAccount ::
  "Config \<Rightarrow> string \<Rightarrow> ('s, (redis_err, (string, ReceptorHttpProxy option) gomap) outcome) prog" where
  "locator_GetConnectionsByAccount cfg account =
     pbind (GetRedisConnectionsByAccount account) (\<lambda>res.
       case res of
         Panic \<Rightarrow> Ret Panic
       | Err e \<Rightarrow> Ret (Ok [])
       | Ok accountConnections \<Rightarrow>
           pbind (locator_nodes cfg account accountConnections []) (\<lambda>m. Ret (Ok m)))"

text \<open>An account that is already in the map keeps its nodes; each account occurs once.\<close>

fun locator_accounts ::
  "Config \<Rightarrow> (string \<times> (string \<times> 'v) list) list \<Rightarrow> (string, (string, ReceptorHttpProxy option) gomap) gomap \<Rightarrow>
   ('s, (string, (string, ReceptorHttpProxy option) gomap) gomap) prog" where
  "locator_accounts cfg [] m = Ret m"
| "locator_accounts cfg ((account, conn) # rest) m =
     (let nodes = (case map_of m account of None \<Rightarrow> [] | Some nodes \<Rightarrow> nodes) in
      pbind (locator_nodes cfg account conn nodes) (\<lambda>nodes'.
        locator_accounts cfg rest (AList.update account nodes' m)))"

definition locator_GetAllConnections ::
  "Config \<Rightarrow> ('s, (redis_err, (string, (string, ReceptorHttpProxy option) gomap) gomap) outcome) prog" where
  "locator_GetAllConnections cfg =
     pbind GetAllRedisConnections (\<lambda>res.
       case res of
         Panic \<Rightarrow> Ret Panic
       | Err e \<Rightarrow> Ret (Ok [])
       | Ok connections \<Rightarrow> pbind (locator_accounts cfg connections []) (\<lambda>m. Ret (Ok m)))"

subsection \<open>A job from proxy to gateway\<close>

lemma body_decodes: "wf_json j \<Longrightarrow> json_decode (json_text j) = Some (j, []) \<and> json_decode (json_text j @ [CHR 0x0A]) = Some (j, [CHR 0x0A])"
  using json_decode_text [of j "[]"] json_decode_text [of j "[CHR 0x0A]"] by (simp add: delim_def is_ws_def)

lemma job_names: "plain_name ''account''" "plain_name ''recipient''" "plain_name ''payload''" "plain_name ''directive''"
  "plain_name ''id''" "plain_name ''node_id''" "plain_name ''status''"
  by (simp_all add: plain_name_def DQ_def BS_def)

text \<open>The request the proxy encodes is the request the handler decodes.\<close>

lemma job_request_roundtrip:
  assumes "wf_any payload" "account \<noteq> []" "recipient \<noteq> []" "directive \<noteq> []" "present payload"
  shows "\<exists>b. marshalJobRequest account recipient payload directive = Inr b \<and>
    (length b \<le> maxBytes \<longrightarrow>
     decodeJSON (store_struct jobRequest_fields jobRequest_store) (jobRequest_valid present) (MaxBytesReader b) new_jobRequest =
       Ok \<lparr>jq_Account = account, jq_Recipient = recipient, jq_Payload = payload, jq_Directive = directive\<rparr>)"
proof -
  obtain p where p: "any_json True payload = Some p" "wf_json p" "json_any p = payload"
    using assms(1) store_enc_any by blast
  let ?j = "JObj [(''account'', JStr (quote_str True account)), (''recipient'', JStr (quote_str True recipient)),
    (''payload'', p), (''directive'', JStr (quote_str True directive))]"
  have m: "marshalJobRequest account recipient payload directive = Inr (json_text ?j)"
    unfolding marshalJobRequest_def enc_struct_def by (simp add: p html_str_def json_Marshal_def del: json_text.simps)
  have wf: "wf_json ?j" by (simp add: p job_names plain_nameD raw_ok_quote_str)
  have st: "store_struct jobRequest_fields jobRequest_store ?j new_jobRequest =
      Some \<lparr>jq_Account = account, jq_Recipient = recipient, jq_Payload = payload, jq_Directive = directive\<rparr>"
    by (simp add: store_struct_def field_of_def jobRequest_fields_def jobRequest_store_def job_names plain_nameD p new_jobRequest_def)
  have "decodeJSON (store_struct jobRequest_fields jobRequest_store) (jobRequest_valid present) (json_text ?j) new_jobRequest =
      Ok \<lparr>jq_Account = account, jq_Recipient = recipient, jq_Payload = payload, jq_Directive = directive\<rparr>"
    unfolding decodeJSON_def using body_decodes [OF wf] st assms(2-5)
    by (simp add: jobRequest_valid_def decoder_More_def skip_ws_def del: json_text.simps)
  then show ?thesis using m by (auto simp: MaxBytesReader_def simp del: json_text.simps)
qed

lemma job_response_roundtrip:
  "\<not> net_body_lost net \<Longrightarrow> unmarshalJobResponse net (writeJSONResponse 201 (jobResponse_json s)) = Inr s"
proof -
  let ?j = "JObj [(''id'', JStr (quote_str True s))]"
  have wf: "wf_json ?j" by (simp add: job_names plain_nameD raw_ok_quote_str)
  have e: "jobResponse_json s = Some ?j" by (simp add: jobResponse_json_def enc_struct_def html_str_def)
  have "store_struct [''id''] jobResponse_store ?j [] = Some s"
    by (simp add: store_struct_def field_of_def jobResponse_store_def job_names plain_nameD)
  then show "\<not> net_body_lost net \<Longrightarrow> ?thesis"
    using body_decodes [OF wf]
    by (simp add: unmarshalJobResponse_def writeJSONResponse_def e decode_body_def del: json_text.simps)
qed

lemma proxy_headers:
  "header_get (addRequestIdHeader i (addPreSharedKeyHeaders c a (header_set ''Content-Type'' v []))) identityHeader = []"
  "header_get (addRequestIdHeader i (addPreSharedKeyHeaders c a (header_set ''Content-Type'' v []))) accountHeader = a"
  "header_get (addRequestIdHeader i (addPreSharedKeyHeaders c a (header_set ''Content-Type'' v []))) clientHeader =
     cfg_JobReceiverReceptorProxyClientID c"
  "header_get (addRequestIdHeader i (addPreSharedKeyHeaders c a (header_set ''Content-Type'' v []))) pskHeader =
     cfg_JobReceiverReceptorProxyPSK c"
proof -
  have d: "to_lower identityHeader = ''x-rh-identity''" "to_lower accountHeader = ''x-rh-receptor-controller-account''"
    "to_lower clientHeader = ''x-rh-receptor-controller-client-id''" "to_lower pskHeader = ''x-rh-receptor-controller-psk''"
    "to_lower ''x-rh-receptor-controller-client-id'' = ''x-rh-receptor-controller-client-id''"
    "to_lower ''x-rh-receptor-controller-account'' = ''x-rh-receptor-controller-account''"
    "to_lower ''x-rh-receptor-controller-psk'' = ''x-rh-receptor-controller-psk''"
    "to_lower ''x-rh-insights-request-id'' = ''x-rh-insights-request-id''" "to_lower ''Content-Type'' = ''content-type''"
    by code_simp+
  show "header_get (addRequestIdHeader i (addPreSharedKeyHeaders c a (header_set ''Content-Type'' v []))) identityHeader = []"
    "header_get (addRequestIdHeader i (addPreSharedKeyHeaders c a (header_set ''Content-Type'' v []))) accountHeader = a"
    "header_get (addRequestIdHeader i (addPreSharedKeyHeaders c a (header_set ''Content-Type'' v []))) clientHeader =
       cfg_JobReceiverReceptorProxyClientID c"
    "header_get (addRequestIdHeader i (addPreSharedKeyHeaders c a (header_set ''Content-Type'' v []))) pskHeader =
       cfg_JobReceiverReceptorProxyPSK c"
    by (simp_all add: addRequestIdHeader_def addPreSharedKeyHeaders_def d header_get_nil)
qed

lemma job_serve:
  "serve other (JobReceiver_Routes secrets enforce present uuid_String be) ''/job'' r st =
     (if rq_method r = ''POST'' then Authenticate secrets enforce (handleJob present uuid_String be) r st
      else other r st)"
  by (auto simp: serve_def JobReceiver_Routes_def)

text \<open>What the gateway answers to the request of a proxy that shares its key.\<close>

lemma gateway_answers:
  assumes cred: "map_of secrets (cfg_JobReceiverReceptorProxyClientID config) = Some (AStr (cfg_JobReceiverReceptorProxyPSK config))"
      "cfg_JobReceiverReceptorProxyClientID config \<noteq> []" "cfg_JobReceiverReceptorProxyPSK config \<noteq> []" "acc \<noteq> []"
    and url: "net_url_ok net url"
    and net: "\<And>req st. rq_url req = url \<Longrightarrow> net_do net req st =
      serve other (JobReceiver_Routes secrets enforce present uuid_String be) ''/job'' req st"
  shows "\<exists>req. makeHttpRequest net requestId ''POST'' url acc config body st = handleJob present uuid_String be req st \<and> rq_body req = body"
proof -
  let ?r = "\<lparr>rq_method = ''POST'', rq_url = url,
         rq_headers = addRequestIdHeader requestId (addPreSharedKeyHeaders config acc
           (header_set ''Content-Type'' ''application/json'' [])),
         rq_body = body, rq_principal = None, rq_identity = None\<rparr>"
  have key: "presents_key secrets ?r" "header_get (rq_headers ?r) identityHeader = []"
    using cred by (simp_all add: presents_key_def proxy_headers)
  then show ?thesis
    using url net [of ?r st]
    by (intro exI [of _ "?r\<lparr>rq_principal := Some (acc, cfg_JobReceiverReceptorProxyClientID config)\<rparr>"])
       (simp add: makeHttpRequest_def job_serve Authenticate_token proxy_headers)
qed

lemma proxy_answer:
  assumes "makeHttpRequest net requestId ''POST'' (generateUrl p ''job'') (px_AccountNumber p) (px_Config p) b st = (resp, st')"
    "marshalJobRequest account recipient payload directive = Inr b"
  shows "proxy_SendMessage net requestId uuid_Parse p account recipient route payload directive st =
    (case resp of None \<Rightarrow> (Err errUnableToSendMessage, st')
     | Some resp \<Rightarrow> (case unmarshalJobResponse net resp of Inl e \<Rightarrow> (Err e, st')
        | Inr i \<Rightarrow> (case uuid_Parse i of None \<Rightarrow> (Err errUnableToProcessResponse, st') | Some u \<Rightarrow> (Ok u, st'))))"
  using assms by (simp add: proxy_SendMessage_def split: option.splits sum.splits)

lemma error_status: "rsp_status (error_response t s d) = s" "rsp_status writeConnectionFailureResponse = 404"
  by (simp_all add: error_response_def writeJSONResponse_def writeConnectionFailureResponse_def Let_def)

text \<open>The way of a job through a proxy.\<close>

lemma proxy_forwards:
  assumes net: "\<forall>req st. rq_url req = generateUrl p ''job'' \<longrightarrow>
      net_do net req st = serve other (JobReceiver_Routes secrets enforce present uuid_String be) ''/job'' req st"
    and url: "net_url_ok net (generateUrl p ''job'')"
    and cred: "map_of secrets (cfg_JobReceiverReceptorProxyClientID (px_Config p)) =
        Some (AStr (cfg_JobReceiverReceptorProxyPSK (px_Config p)))"
      "cfg_JobReceiverReceptorProxyClientID (px_Config p) \<noteq> []" "cfg_JobReceiverReceptorProxyPSK (px_Config p) \<noteq> []"
      "px_AccountNumber p \<noteq> []"
    and job: "wf_any payload" "account \<noteq> []" "recipient \<noteq> []" "directive \<noteq> []" "present payload"
      "\<forall>b. marshalJobRequest account recipient payload directive = Inr b \<longrightarrow> length b \<le> maxBytes"
    and uuid: "\<forall>u. uuid_Parse (uuid_String u) = Some u"
    and conn: "be_GetConnection be account recipient st = (found, st1)"
  shows "proxy_SendMessage net requestId uuid_Parse p account recipient route payload directive st =
    (case found of
       None \<Rightarrow> (Err errDisconnectedNode, st1)
     | Some client \<Rightarrow>
         (case be_SendMessage be client account recipient [recipient] payload directive st1 of
            (Ok u, st2) \<Rightarrow> (if net_body_lost net then Err errUnableToProcessResponse else Ok u, st2)
          | (Err e, st2) \<Rightarrow> (Err (if e = errDisconnectedNode then errDisconnectedNode else errUnableToProcessResponse), st2)
          | (Panic, st2) \<Rightarrow> (Err errUnableToSendMessage, st2)))"
proof -
  obtain b where b: "marshalJobRequest account recipient payload directive = Inr b"
    and dec: "decodeJSON (store_struct jobRequest_fields jobRequest_store) (jobRequest_valid present) (MaxBytesReader b) new_jobRequest =
       Ok \<lparr>jq_Account = account, jq_Recipient = recipient, jq_Payload = payload, jq_Directive = directive\<rparr>"
    using job_request_roundtrip [OF job(1-4), of present] job(5,6) by blast
  obtain req where req: "makeHttpRequest net requestId ''POST'' (generateUrl p ''job'') (px_AccountNumber p) (px_Config p) b st =
      handleJob present uuid_String be req st" "rq_body req = b"
    using gateway_answers [OF cred url] net by metis
  obtain resp st' where r: "handleJob present uuid_String be req st = (resp, st')" by fastforce
  have lost: "unmarshalJobResponse net (writeJSONResponse 201 (jobResponse_json s)) = Inl errUnableToProcessResponse"
    if "net_body_lost net" for s
    using that by (simp add: unmarshalJobResponse_def writeJSONResponse_def decode_body_def)
  note answer = proxy_answer [OF req(1) [unfolded r] b]
  show ?thesis
  proof (cases found)
    case None
    then show ?thesis using r
      by (auto simp: answer handleJob_def req(2) dec conn unmarshalJobResponse_def error_status)
  next
    case (Some client)
    obtain res st2 where s: "be_SendMessage be client account recipient [recipient] payload directive st1 = (res, st2)" by fastforce
    show ?thesis
    proof (cases res)
      case (Ok u)
      then have "(resp, st') = (Some (writeJSONResponse 201 (jobResponse_json (uuid_String u))), st2)"
        using r Some s by (simp add: handleJob_def req(2) dec conn)
      then show ?thesis
        using Some s Ok uuid lost job_response_roundtrip [of net "uuid_String u"]
        by (cases "net_body_lost net") (auto simp: answer)
    next
      case (Err e)
      then show ?thesis
        using r Some s by (auto simp: answer handleJob_def req(2) dec conn unmarshalJobResponse_def error_status)
    next
      case Panic
      then show ?thesis
        using r Some s by (auto simp: answer handleJob_def req(2) dec conn)
    qed
  qed
qed

text \<open>Property C16. A job sent through a proxy reaches the pod's connection unchanged. If the proxy and the pod share the
  key, the pod looks up exactly the account and the node of the call and sends it exactly the payload
  and the directive, and the proxy returns the identifier that the pod's connection returned, or an
  error that tells a missing connection from a failure. If the body of the answer is lost the job has
  been sent and the caller gets an error.\<close>

theorem proxy_job_delivery:
  assumes net: "\<forall>req st. rq_url req = generateUrl p ''job'' \<longrightarrow>
      net_do net req st = serve other (JobReceiver_Routes secrets enforce present uuid_String be) ''/job'' req st"
    and url: "net_url_ok net (generateUrl p ''job'')"
    and cred: "map_of secrets (cfg_JobReceiverReceptorProxyClientID (px_Config p)) =
        Some (AStr (cfg_JobReceiverReceptorProxyPSK (px_Config p)))"
      "cfg_JobReceiverReceptorProxyClientID (px_Config p) \<noteq> []" "cfg_JobReceiverReceptorProxyPSK (px_Config p) \<noteq> []"
      "px_AccountNumber p \<noteq> []"
    and job: "wf_any payload" "account \<noteq> []" "recipient \<noteq> []" "directive \<noteq> []" "present payload"
      "\<forall>b. marshalJobRequest account recipient payload directive = Inr b \<longrightarrow> length b \<le> maxBytes"
    and uuid: "\<forall>u. uuid_Parse (uuid_String u) = Some u"
    and conn: "be_GetConnection be account recipient st = (found, st1)"
  shows "proxy_SendMessage net requestId uuid_Parse p account recipient route payload directive st =
    (case found of
       None \<Rightarrow> (Err errDisconnectedNode, st1)
     | Some client \<Rightarrow>
         (case be_SendMessage be client account recipient [recipient] payload directive st1 of
            (Ok u, st2) \<Rightarrow> (if net_body_lost net then Err errUnableToProcessResponse else Ok u, st2)
          | (Err e, st2) \<Rightarrow> (Err (if e = errDisconnectedNode then errDisconnectedNode else errUnableToProcessResponse), st2)
          | (Panic, st2) \<Rightarrow> (Err errUnableToSendMessage, st2)))"
  using assms by (rule proxy_forwards)

definition sample_proxy :: ReceptorHttpProxy where
  "sample_proxy = \<lparr>px_Hostname = ''10.0.0.1'', px_AccountNumber = ''0002'', px_NodeID = ''node-b'',
     px_Config = (options_config (default_viper defaults))\<lparr>cfg_JobReceiverReceptorProxyPSK := ''key''\<rparr>\<rparr>"

definition sample_network :: "(string \<times> string \<times> string) list network" where
  "sample_network = \<lparr>net_do = serve (\<lambda>r st. (Some (http_Error ''404 page not found'' 404), st)) (JobReceiver_Routes [(''job_receiver'', AStr ''key'')] (\<lambda>r. Inr r) (\<lambda>a. a \<noteq> ANil) (\<lambda>u. u)
       sample_backend) ''/job'', net_url_ok = (\<lambda>u. True), net_body_lost = False\<rparr>"

theorem proxy_job_delivery_witness:
  "proxy_SendMessage sample_network ''r-1'' Some sample_proxy ''0002'' ''node-b'' [''node-b''] (AStr ''run'') ''demo:do'' [] =
     (Ok ''u-1'', [(''0002'', ''node-b'', ''demo:do'')])"
proof -
  have cfg: "cfg_JobReceiverReceptorProxyClientID (px_Config sample_proxy) = ''job_receiver''"
    "cfg_JobReceiverReceptorProxyPSK (px_Config sample_proxy) = ''key''" "px_AccountNumber sample_proxy = ''0002''"
    by (simp_all add: sample_proxy_def options_config_def default_viper_def defaults_def Let_def)
  have size: "\<forall>b. marshalJobRequest ''0002'' ''node-b'' (AStr ''run'') ''demo:do'' = Inr b \<longrightarrow> length b \<le> maxBytes"
    by (simp add: marshalJobRequest_def enc_struct_def html_str_def json_Marshal_def maxBytes_def quote_str_def quote_char_def
        DQ_def BS_def)
  have net: "\<forall>req st. rq_url req = generateUrl sample_proxy ''job'' \<longrightarrow> net_do sample_network req st =
      serve (\<lambda>r st. (Some (http_Error ''404 page not found'' 404), st)) (JobReceiver_Routes [(''job_receiver'', AStr ''key'')] (\<lambda>r. Inr r) (\<lambda>a. a \<noteq> ANil) (\<lambda>u. u) sample_backend) ''/job'' req st"
    by (simp add: sample_network_def)
  have "proxy_SendMessage sample_network ''r-1'' Some sample_proxy ''0002'' ''node-b'' [''node-b''] (AStr ''run'') ''demo:do'' [] =
    (case Some () of
       None \<Rightarrow> (Err errDisconnectedNode, [])
     | Some client \<Rightarrow>
         (case be_SendMessage sample_backend client ''0002'' ''node-b'' [''node-b''] (AStr ''run'') ''demo:do'' [] of
            (Ok u, st2) \<Rightarrow> (if net_body_lost sample_network then Err errUnableToProcessResponse else Ok u, st2)
          | (Err e, st2) \<Rightarrow> (Err (if e = errDisconnectedNode then errDisconnectedNode else errUnableToProcessResponse), st2)
          | (Panic, st2) \<Rightarrow> (Err errUnableToSendMessage, st2)))"
    by (rule proxy_job_delivery [OF net]) (simp_all add: cfg size, simp_all add: sample_network_def sample_backend_def)
  then show ?thesis by (simp add: sample_backend_def sample_network_def)
qed

end
