(* ===== verification/Gateway.thy ===== *)
theory Gateway
  imports Connection_Manager
begin

text \<open>
  The registrar of a gateway pod (\<open>internal/controller/gateway_connection_manager.go\<close>) and the
  active registrars it starts, one goroutine for each connection
  (\<open>internal/controller/active_connection_registrar.go\<close>).

  The state of the process is a record: the local connections, the cancel functions by connection
  key, the contexts made so far and which of them have been cancelled, the active registrars that
  were started, and the clients they have closed. A section under a mutex is one local step.

  \<open>net.LookupHost\<close> is the parameter \<open>dns\<close>; \<open>None\<close> is a failed lookup.
\<close>

subsection \<open>The process state\<close>

record 'c active_registrar =
  ar_ctx :: nat
  ar_account :: string
  ar_nodeID :: string
  ar_receptor :: 'c

record 'c gateway =
  gw_local :: "'c LocalConnectionManager"
  gw_cancelFuncs :: "(string, nat) gomap"
  gw_contexts :: nat
  gw_cancelled :: "nat list"
  gw_registrars :: "'c active_registrar list"
  gw_closed :: "'c list"

definition new_gateway :: "'c gateway" where
  "new_gateway = \<lparr>gw_local = NewLocalConnectionManager, gw_cancelFuncs = [], gw_contexts = 0,
     gw_cancelled = [], gw_registrars = [], gw_closed = []\<rparr>"

definition locally :: "('s \<Rightarrow> 'a \<times> 's) \<Rightarrow> ('s, 'a) prog" where
  "locally f = Local (\<lambda>s. snd (f s)) (\<lambda>s. Ret (fst (f s)))"

lemma run_locally [simp]: "run ex (locally f) s w = (fst (f s), snd (f s), w)"
  by (simp add: locally_def)

subsection \<open>Starting and stopping active registrars\<close>

text \<open>\<open>intn\<close> is \<open>rand.Intn\<close>, which panics unless its argument is positive; the result is in
  nanoseconds.\<close>

definition getTickerInterval :: "(int \<Rightarrow> int) \<Rightarrow> int \<Rightarrow> int \<Rightarrow> (unit, int) outcome" where
  "getTickerInterval intn mn mx =
     (if mx - mn + 1 \<le> 0 then Panic else Ok ((intn (mx - mn + 1) + mn) * 1000000))"

definition buildCancelMapKey :: "string \<Rightarrow> string \<Rightarrow> string" where
  "buildCancelMapKey account nodeID = account @ '':'' @ nodeID"

text \<open>A new context, the goroutine, and then the entry of its cancel function.\<close>

definition StartActiveRegistrar :: "string \<Rightarrow> string \<Rightarrow> 'c \<Rightarrow> ('c gateway, unit) prog" where
  "StartActiveRegistrar account nodeID client =
     pbind (locally (\<lambda>g.
       (gw_contexts g,
        g\<lparr>gw_contexts := Suc (gw_contexts g),
          gw_registrars := gw_registrars g @
            [\<lparr>ar_ctx = gw_contexts g, ar_account = account, ar_nodeID = nodeID, ar_receptor = client\<rparr>]\<rparr>)))
     (\<lambda>cancel. locally (\<lambda>g.
       ((), g\<lparr>gw_cancelFuncs := AList.update (buildCancelMapKey account nodeID) cancel (gw_cancelFuncs g)\<rparr>)))"

text \<open>The result says whether a registrar was found.\<close>

definition StopActiveRegistrar :: "string \<Rightarrow> string \<Rightarrow> ('c gateway, bool) prog" where
  "StopActiveRegistrar account nodeID =
     pbind (locally (\<lambda>g. (map_of (gw_cancelFuncs g) (buildCancelMapKey account nodeID), g))) (\<lambda>found.
       case found of
         None \<Rightarrow> Ret False
       | Some cancel \<Rightarrow>
           pbind (locally (\<lambda>g. ((), g\<lparr>gw_cancelled := cancel # gw_cancelled g\<rparr>))) (\<lambda>_.
           pbind (locally (\<lambda>g. ((), g\<lparr>gw_cancelFuncs :=
               AList.delete (buildCancelMapKey account nodeID) (gw_cancelFuncs g)\<rparr>))) (\<lambda>_.
           Ret True)))"

subsection \<open>GatewayConnectionRegistrar\<close>

definition Gateway_Unregister :: "string \<Rightarrow> string \<Rightarrow> string \<Rightarrow> ('c gateway, unit) prog" where
  "Gateway_Unregister hostname account nodeID =
     pbind (UnregisterWithRedis account nodeID hostname) (\<lambda>_.
     pbind (locally (\<lambda>g. ((), g\<lparr>gw_local := Local_Unregister (gw_local g) account nodeID\<rparr>))) (\<lambda>_.
     pbind (StopActiveRegistrar account nodeID) (\<lambda>_. Ret ())))"

definition local_register :: "string \<Rightarrow> string \<Rightarrow> 'c \<Rightarrow> ('c gateway, conn_error option) prog" where
  "local_register account nodeID client =
     locally (\<lambda>g. case Local_Register (gw_local g) account nodeID client of
       (err, cm) \<Rightarrow> (err, g\<lparr>gw_local := cm\<rparr>))"

definition Gateway_Register ::
  "string \<Rightarrow> string \<Rightarrow> string \<Rightarrow> 'c \<Rightarrow> ('c gateway, conn_error option) prog" where
  "Gateway_Register hostname account nodeID client =
     pbind (ExistsInRedis account nodeID) (\<lambda>found.
       if found then Ret (Some DuplicateConnectionError)
       else pbind (RegisterWithRedis account nodeID hostname) (\<lambda>err.
         case err of
           Some e \<Rightarrow> Ret (Some e)
         | None \<Rightarrow>
             pbind (local_register account nodeID client) (\<lambda>err.
               case err of
                 Some e \<Rightarrow> pbind (Gateway_Unregister hostname account nodeID) (\<lambda>_. Ret (Some e))
               | None \<Rightarrow> pbind (StartActiveRegistrar account nodeID client) (\<lambda>_. Ret None))))"

subsection \<open>The active registrar\<close>

definition getRunningPods :: "(string \<Rightarrow> string list option) \<Rightarrow> string \<Rightarrow> (string, bool) gomap option" where
  "getRunningPods dns dnsName =
     (case dns dnsName of
        None \<Rightarrow> None
      | Some hostnames \<Rightarrow> Some (foldl (\<lambda>m e. AList.update e True m) [] hostnames))"

text \<open>The error of the lookup is dropped, and a nil map has no entries.\<close>

definition isPodRunning :: "(string \<Rightarrow> string list option) \<Rightarrow> string \<Rightarrow> string \<Rightarrow> bool" where
  "isPodRunning dns headlessDNSName podName =
     (let runningPods = (case getRunningPods dns headlessDNSName of None \<Rightarrow> [] | Some m \<Rightarrow> m)
      in map_of runningPods podName \<noteq> None)"

definition closeConnectionDueToDuplication :: "'c \<Rightarrow> ('c gateway, unit) prog" where
  "closeConnectionDueToDuplication receptor =
     locally (\<lambda>g. ((), g\<lparr>gw_closed := receptor # gw_closed g\<rparr>))"

text \<open>The type assertion \<open>err.(*DuplicateConnectionError)\<close>. The errors are values of the struct
  type and not pointers to it, so the dynamic type is never the one asserted.\<close>

fun is_DuplicateConnectionError_pointer :: "conn_error \<Rightarrow> bool" where
  "is_DuplicateConnectionError_pointer DuplicateConnectionError = False"
| "is_DuplicateConnectionError_pointer (RedisError e) = False"

definition registerAndCloseConnectionOnDuplicate ::
  "string \<Rightarrow> string \<Rightarrow> string \<Rightarrow> 'c \<Rightarrow> ('c gateway, conn_error option) prog" where
  "registerAndCloseConnectionOnDuplicate account nodeID hostname receptor =
     pbind (RegisterWithRedis account nodeID hostname) (\<lambda>err.
       if (case err of None \<Rightarrow> False | Some e \<Rightarrow> is_DuplicateConnectionError_pointer e)
       then pbind (closeConnectionDueToDuplication receptor) (\<lambda>_. Ret err)
       else Ret err)"

text \<open>One turn of the loop of \<open>startActiveRegistrar\<close>: the event the \<open>select\<close> statement took. The
  result says whether the loop goes on.\<close>

datatype registrar_event = CtxDone | Tick

definition registrar_turn ::
  "(string \<Rightarrow> string list option) \<Rightarrow> string \<Rightarrow> string \<Rightarrow> string \<Rightarrow> string \<Rightarrow> 'c \<Rightarrow> registrar_event \<Rightarrow>
   ('c gateway, bool) prog" where
  "registrar_turn dns clusterServiceName account nodeID hostname receptor ev =
     (case ev of
        CtxDone \<Rightarrow> Ret False
      | Tick \<Rightarrow>
          pbind (GetRedisConnection account nodeID) (\<lambda>(hostNameFromRedis, err).
            if err \<noteq> None \<and> err \<noteq> Some RedisNil then Ret True
            else if hostNameFromRedis = [] then
              pbind (registerAndCloseConnectionOnDuplicate account nodeID hostname receptor) (\<lambda>_. Ret True)
            else if hostNameFromRedis \<noteq> hostname then
              (if isPodRunning dns clusterServiceName hostNameFromRedis then
                 pbind (closeConnectionDueToDuplication receptor) (\<lambda>_. Ret False)
               else
                 pbind (UnregisterWithRedis account nodeID hostNameFromRedis) (\<lambda>_.
                 pbind (registerAndCloseConnectionOnDuplicate account nodeID hostname receptor) (\<lambda>_. Ret True)))
            else Ret True))"

text \<open>The loop over the events of a run: it ends at the first turn that does not go on.\<close>

fun startActiveRegistrar ::
  "(string \<Rightarrow> string list option) \<Rightarrow> string \<Rightarrow> string \<Rightarrow> string \<Rightarrow> string \<Rightarrow> 'c \<Rightarrow> registrar_event list \<Rightarrow>
   ('c gateway, bool) prog" where
  "startActiveRegistrar dns svc account nodeID hostname receptor [] = Ret True"
| "startActiveRegistrar dns svc account nodeID hostname receptor (ev # evs) =
     pbind (registrar_turn dns svc account nodeID hostname receptor ev) (\<lambda>continue.
       if continue then startActiveRegistrar dns svc account nodeID hostname receptor evs else Ret False)"

subsection \<open>The invariant of a gateway process\<close>

text \<open>An active registrar is live when its context has not been cancelled. The local connections of
  valid accounts are exactly those of the live registrars, each of which can be cancelled through
  the entry of its connection.\<close>

definition live :: "'c gateway \<Rightarrow> 'c active_registrar \<Rightarrow> bool" where
  "live g r \<longleftrightarrow> r \<in> set (gw_registrars g) \<and> ar_ctx r \<notin> set (gw_cancelled g)"

definition gw_ok :: "'c gateway \<Rightarrow> bool" where
  "gw_ok g \<longleftrightarrow>
     lcm_ok (gw_local g) \<and> gomap_ok (gw_cancelFuncs g) \<and>
     distinct (map ar_ctx (gw_registrars g)) \<and>
     (\<forall>r \<in> set (gw_registrars g). ar_ctx r < gw_contexts g \<and> valid_account (ar_account r)) \<and>
     (\<forall>x \<in> set (gw_cancelled g). x < gw_contexts g) \<and>
     (\<forall>r. live g r \<longrightarrow>
        map_of (gw_cancelFuncs g) (buildCancelMapKey (ar_account r) (ar_nodeID r)) = Some (ar_ctx r) \<and>
        Local_GetConnection (gw_local g) (ar_account r) (ar_nodeID r) = Some (ar_receptor r)) \<and>
     (\<forall>k x. map_of (gw_cancelFuncs g) k = Some x \<longrightarrow>
        (\<exists>r. live g r \<and> ar_ctx r = x \<and> k = buildCancelMapKey (ar_account r) (ar_nodeID r))) \<and>
     (\<forall>a n c. valid_account a \<and> Local_GetConnection (gw_local g) a n = Some c \<longrightarrow>
        (\<exists>r. live g r \<and> ar_account r = a \<and> ar_nodeID r = n))"

text \<open>What a registration and an unregistration do to the process.\<close>

definition gw_registered :: "'c gateway \<Rightarrow> string \<Rightarrow> string \<Rightarrow> 'c \<Rightarrow> 'c gateway" where
  "gw_registered g a n c =
     g\<lparr>gw_local := snd (Local_Register (gw_local g) a n c), gw_contexts := Suc (gw_contexts g),
       gw_registrars := gw_registrars g @
         [\<lparr>ar_ctx = gw_contexts g, ar_account = a, ar_nodeID = n, ar_receptor = c\<rparr>],
       gw_cancelFuncs := AList.update (buildCancelMapKey a n) (gw_contexts g) (gw_cancelFuncs g)\<rparr>"

definition gw_unregistered :: "'c gateway \<Rightarrow> string \<Rightarrow> string \<Rightarrow> 'c gateway" where
  "gw_unregistered g a n =
     g\<lparr>gw_local := Local_Unregister (gw_local g) a n,
       gw_cancelled := (case map_of (gw_cancelFuncs g) (buildCancelMapKey a n) of
          None \<Rightarrow> gw_cancelled g | Some x \<Rightarrow> x # gw_cancelled g),
       gw_cancelFuncs := AList.delete (buildCancelMapKey a n) (gw_cancelFuncs g)\<rparr>"

lemma cancel_key_inj:
  "valid_account a \<Longrightarrow> valid_account a' \<Longrightarrow> buildCancelMapKey a n = buildCancelMapKey a' n' \<longleftrightarrow> a = a' \<and> n = n'"
  by (simp add: buildCancelMapKey_def valid_account_chars)

lemma gw_ok_local: "gw_ok g \<Longrightarrow> lcm_ok (gw_local g)"
  by (simp add: gw_ok_def)

lemma gw_ok_new: "gw_ok new_gateway"
  by (simp add: gw_ok_def new_gateway_def lcm_ok_def NewLocalConnectionManager_def live_def Local_GetConnection_def)

lemma gw_okD:
  assumes "gw_ok g"
  shows "live g r \<Longrightarrow> map_of (gw_cancelFuncs g) (buildCancelMapKey (ar_account r) (ar_nodeID r)) = Some (ar_ctx r)"
    "live g r \<Longrightarrow> Local_GetConnection (gw_local g) (ar_account r) (ar_nodeID r) = Some (ar_receptor r)"
    "map_of (gw_cancelFuncs g) k = Some x \<Longrightarrow>
       \<exists>r. live g r \<and> ar_ctx r = x \<and> k = buildCancelMapKey (ar_account r) (ar_nodeID r)"
    "valid_account a \<Longrightarrow> Local_GetConnection (gw_local g) a n = Some c \<Longrightarrow>
       \<exists>r. live g r \<and> ar_account r = a \<and> ar_nodeID r = n"
  using assms unfolding gw_ok_def by blast+

lemma gw_ok_registrars:
  assumes "gw_ok g"
  shows "live g r \<Longrightarrow> valid_account (ar_account r)" "live g r \<Longrightarrow> ar_ctx r < gw_contexts g"
    "live g r \<Longrightarrow> live g r' \<Longrightarrow> ar_ctx r = ar_ctx r' \<Longrightarrow> r = r'"
proof -
  have "\<forall>r \<in> set (gw_registrars g). ar_ctx r < gw_contexts g \<and> valid_account (ar_account r)"
    and inj: "inj_on ar_ctx (set (gw_registrars g))"
    using assms by (simp_all add: gw_ok_def distinct_map)
  then show "live g r \<Longrightarrow> valid_account (ar_account r)" "live g r \<Longrightarrow> ar_ctx r < gw_contexts g"
    by (simp_all add: live_def)
  show "live g r \<Longrightarrow> live g r' \<Longrightarrow> ar_ctx r = ar_ctx r' \<Longrightarrow> r = r'"
    using inj by (auto simp: live_def dest: inj_onD)
qed

lemma gw_ok_registered:
  assumes ok: "gw_ok g" and a: "valid_account a" and free: "Local_GetConnection (gw_local g) a n = None"
  shows "gw_ok (gw_registered g a n c)"
proof -
  let ?g = "gw_registered g a n c"
  let ?r = "\<lparr>ar_ctx = gw_contexts g, ar_account = a, ar_nodeID = n, ar_receptor = c\<rparr>"
  have lcm: "lcm_ok (gw_local g)" using ok by (simp add: gw_ok_def)
  have fresh: "gw_contexts g \<notin> set (gw_cancelled g)" "\<forall>r \<in> set (gw_registrars g). ar_ctx r < gw_contexts g"
    using ok by (auto simp: gw_ok_def)
  have live': "live ?g r \<longleftrightarrow> live g r \<or> r = ?r" for r
    using fresh by (auto simp: live_def gw_registered_def)
  have other: "\<not> (ar_account r = a \<and> ar_nodeID r = n)" "valid_account (ar_account r)" if "live g r" for r
    using gw_okD(2) [OF ok that] gw_ok_registrars(1) [OF ok that] free by auto
  have get: "Local_GetConnection (gw_local ?g) a' n' =
      (if a' = a \<and> n' = n then Some c else Local_GetConnection (gw_local g) a' n')" for a' n'
    using lcm.reg_new [OF lcm free] by (simp add: gw_registered_def)
  have key: "buildCancelMapKey (ar_account r) (ar_nodeID r) \<noteq> buildCancelMapKey a n" if "live g r" for r
    using other [OF that] a by (auto simp: cancel_key_inj)
  have "distinct (map ar_ctx (gw_registrars ?g))" "lcm_ok (gw_local ?g)" "gomap_ok (gw_cancelFuncs ?g)"
    using ok fresh lcm.reg_ok [OF lcm] by (auto simp: gw_ok_def gw_registered_def distinct_update)
  moreover have "\<forall>r \<in> set (gw_registrars ?g). ar_ctx r < gw_contexts ?g \<and> valid_account (ar_account r)"
    "\<forall>x \<in> set (gw_cancelled ?g). x < gw_contexts ?g"
    using ok a by (auto simp: gw_ok_def gw_registered_def)
  moreover have "\<forall>r. live ?g r \<longrightarrow>
        map_of (gw_cancelFuncs ?g) (buildCancelMapKey (ar_account r) (ar_nodeID r)) = Some (ar_ctx r) \<and>
        Local_GetConnection (gw_local ?g) (ar_account r) (ar_nodeID r) = Some (ar_receptor r)"
  proof (intro allI impI)
    fix r
    assume "live ?g r"
    then consider "r = ?r" | "live g r" using live' by blast
    then show "map_of (gw_cancelFuncs ?g) (buildCancelMapKey (ar_account r) (ar_nodeID r)) = Some (ar_ctx r) \<and>
        Local_GetConnection (gw_local ?g) (ar_account r) (ar_nodeID r) = Some (ar_receptor r)"
    proof cases
      case 1
      then show ?thesis by (simp add: get) (simp add: gw_registered_def update_conv')
    next
      case 2
      have "map_of (gw_cancelFuncs ?g) (buildCancelMapKey (ar_account r) (ar_nodeID r)) = Some (ar_ctx r)"
        using gw_okD(1) [OF ok 2] key [OF 2] by (simp add: gw_registered_def update_conv')
      moreover have "Local_GetConnection (gw_local ?g) (ar_account r) (ar_nodeID r) = Some (ar_receptor r)"
        using gw_okD(2) [OF ok 2] other(1) [OF 2] by (auto simp: get)
      ultimately show ?thesis by simp
    qed
  qed
  moreover have "\<forall>k x. map_of (gw_cancelFuncs ?g) k = Some x \<longrightarrow>
        (\<exists>r. live ?g r \<and> ar_ctx r = x \<and> k = buildCancelMapKey (ar_account r) (ar_nodeID r))"
  proof (intro allI impI)
    fix k x
    assume "map_of (gw_cancelFuncs ?g) k = Some x"
    then have k: "((map_of (gw_cancelFuncs g))(buildCancelMapKey a n \<mapsto> gw_contexts g)) k = Some x"
      by (simp add: gw_registered_def update_conv')
    show "\<exists>r. live ?g r \<and> ar_ctx r = x \<and> k = buildCancelMapKey (ar_account r) (ar_nodeID r)"
    proof (cases "k = buildCancelMapKey a n")
      case True
      with k show ?thesis unfolding live' by (intro exI [of _ ?r]) simp
    next
      case False
      with k have "map_of (gw_cancelFuncs g) k = Some x" by (metis fun_upd_other)
      then show ?thesis unfolding live' using gw_okD(3) [OF ok] by blast
    qed
  qed
  moreover have "\<forall>a' n' c'. valid_account a' \<and> Local_GetConnection (gw_local ?g) a' n' = Some c' \<longrightarrow>
        (\<exists>r. live ?g r \<and> ar_account r = a' \<and> ar_nodeID r = n')"
  proof (intro allI impI)
    fix a' n' c'
    assume c': "valid_account a' \<and> Local_GetConnection (gw_local ?g) a' n' = Some c'"
    show "\<exists>r. live ?g r \<and> ar_account r = a' \<and> ar_nodeID r = n'"
    proof (cases "a' = a \<and> n' = n")
      case True
      then show ?thesis unfolding live' by (intro exI [of _ ?r]) simp
    next
      case False
      with c' have "Local_GetConnection (gw_local g) a' n' = Some c'" by (metis get)
      then show ?thesis unfolding live' using gw_okD(4) [OF ok] c' by blast
    qed
  qed
  ultimately show ?thesis unfolding gw_ok_def by blast
qed

lemma gw_ok_unregistered:
  assumes ok: "gw_ok g" and a: "valid_account a"
  shows "gw_ok (gw_unregistered g a n)"
proof -
  let ?g = "gw_unregistered g a n"
  have lcm: "lcm_ok (gw_local g)" using ok by (simp add: gw_ok_def)
  have live': "live ?g r \<longleftrightarrow> live g r \<and> \<not> (ar_account r = a \<and> ar_nodeID r = n)" for r
  proof (cases "live g r")
    case True
    note gw_okD(1) [OF ok True] gw_ok_registrars(1) [OF ok True]
    then have "map_of (gw_cancelFuncs g) (buildCancelMapKey a n) = Some (ar_ctx r) \<longleftrightarrow> ar_account r = a \<and> ar_nodeID r = n"
      using gw_okD(3) [OF ok] gw_ok_registrars(1,3) [OF ok] True a cancel_key_inj by metis
    with True show ?thesis by (auto simp: live_def gw_unregistered_def split: option.splits)
  next
    case False
    then show ?thesis by (auto simp: live_def gw_unregistered_def split: option.splits)
  qed
  have get: "Local_GetConnection (gw_local ?g) a' n' =
      (if a' = a \<and> n' = n then None else Local_GetConnection (gw_local g) a' n')" for a' n'
    using lcm.unreg_get [OF lcm] by (simp add: gw_unregistered_def)
  have key: "buildCancelMapKey (ar_account r) (ar_nodeID r) = buildCancelMapKey a n \<longleftrightarrow> ar_account r = a \<and> ar_nodeID r = n"
    if "live g r" for r
    using gw_ok_registrars(1) [OF ok that] a by (simp add: cancel_key_inj)
  have "distinct (map ar_ctx (gw_registrars ?g))" "lcm_ok (gw_local ?g)" "gomap_ok (gw_cancelFuncs ?g)"
    using ok lcm.unreg_ok [OF lcm] by (auto simp: gw_ok_def gw_unregistered_def distinct_delete)
  moreover have "\<forall>r \<in> set (gw_registrars ?g). ar_ctx r < gw_contexts ?g \<and> valid_account (ar_account r)"
    "\<forall>x \<in> set (gw_cancelled ?g). x < gw_contexts ?g"
    using ok gw_okD(3) [OF ok] gw_ok_registrars(2) [OF ok] unfolding gw_ok_def gw_unregistered_def by (auto split: option.splits)
  moreover have "\<forall>r. live ?g r \<longrightarrow>
        map_of (gw_cancelFuncs ?g) (buildCancelMapKey (ar_account r) (ar_nodeID r)) = Some (ar_ctx r) \<and>
        Local_GetConnection (gw_local ?g) (ar_account r) (ar_nodeID r) = Some (ar_receptor r)"
    using gw_okD(1,2) [OF ok] key unfolding live' get by (auto simp: gw_unregistered_def delete_conv')
  moreover have "\<forall>k x. map_of (gw_cancelFuncs ?g) k = Some x \<longrightarrow>
        (\<exists>r. live ?g r \<and> ar_ctx r = x \<and> k = buildCancelMapKey (ar_account r) (ar_nodeID r))"
  proof (intro allI impI)
    fix k x
    assume "map_of (gw_cancelFuncs ?g) k = Some x"
    then have k: "k \<noteq> buildCancelMapKey a n" "map_of (gw_cancelFuncs g) k = Some x"
      by (auto simp: gw_unregistered_def delete_conv' simp del: map_of_eq_Some_iff split: if_splits)
    then show "\<exists>r. live ?g r \<and> ar_ctx r = x \<and> k = buildCancelMapKey (ar_account r) (ar_nodeID r)"
      unfolding live' using gw_okD(3) [OF ok k(2)] by blast
  qed
  moreover have "\<forall>a' n' c'. valid_account a' \<and> Local_GetConnection (gw_local ?g) a' n' = Some c' \<longrightarrow>
        (\<exists>r. live ?g r \<and> ar_account r = a' \<and> ar_nodeID r = n')"
    using gw_okD(4) [OF ok] unfolding live' get by (fastforce split: if_splits)
  ultimately show ?thesis unfolding gw_ok_def by blast
qed


subsection \<open>The operations on registry and process\<close>

lemma run_StopActiveRegistrar:
  "run ex (StopActiveRegistrar a n) g w =
     (map_of (gw_cancelFuncs g) (buildCancelMapKey a n) \<noteq> None,
      g\<lparr>gw_cancelled := (case map_of (gw_cancelFuncs g) (buildCancelMapKey a n) of
          None \<Rightarrow> gw_cancelled g | Some x \<Rightarrow> x # gw_cancelled g),
        gw_cancelFuncs := AList.delete (buildCancelMapKey a n) (gw_cancelFuncs g)\<rparr>, w)"
proof (cases "map_of (gw_cancelFuncs g) (buildCancelMapKey a n)")
  case None
  then have "AList.delete (buildCancelMapKey a n) (gw_cancelFuncs g) = gw_cancelFuncs g"
    by (auto simp: map_of_eq_None_iff intro: delete_idem)
  with None show ?thesis by (simp add: StopActiveRegistrar_def)
qed (simp add: StopActiveRegistrar_def)

lemma run_StartActiveRegistrar:
  "run ex (StartActiveRegistrar a n c) g w =
     ((), g\<lparr>gw_contexts := Suc (gw_contexts g),
       gw_registrars := gw_registrars g @
         [\<lparr>ar_ctx = gw_contexts g, ar_account = a, ar_nodeID = n, ar_receptor = c\<rparr>],
       gw_cancelFuncs := AList.update (buildCancelMapKey a n) (gw_contexts g) (gw_cancelFuncs g)\<rparr>, w)"
  by (simp add: StartActiveRegistrar_def)

lemma run_local_register:
  "run ex (local_register a n c) g w =
     (fst (Local_Register (gw_local g) a n c), g\<lparr>gw_local := snd (Local_Register (gw_local g) a n c)\<rparr>, w)"
  by (simp add: local_register_def split: prod.splits)

context reliable_redis
begin

lemma run_Gateway_Unregister:
  assumes "registry (view w) R" "valid_account a" "valid_node n" "valid_host host" "R (a, n) \<in> {None, Some host}"
    "run exec (Gateway_Unregister host a n) g w = (u, g', w')"
  shows "g' = gw_unregistered g a n \<and> registry (view w') (R((a, n) := None))"
proof -
  obtain u1 s1 w1 where r: "run exec (UnregisterWithRedis a n host) g w = (u1, s1, w1)" using prod_cases3 by blast
  from run_UnregisterWithRedis [OF r] have v: "s1 = g" "view w1 = unregistered (view w) a n host" by auto
  have "registry (view w1) (R((a, n) := None))"
    using registry_unregistered [OF assms(1)] registry_unregistered_absent [OF assms(1) _ assms(2-4)] assms(5)
    by (auto simp: v(2) fun_upd_idem)
  moreover have "g' = gw_unregistered g a n" "w' = w1"
    using assms(6) r v(1)
    by (auto simp: Gateway_Unregister_def run_StopActiveRegistrar gw_unregistered_def cong: option.case_cong)
  ultimately show ?thesis by simp
qed

lemma run_Gateway_Register:
  assumes "registry (view w) R" "valid_account a" "valid_node n" "valid_host host" "gw_ok g"
    "run exec (Gateway_Register host a n c) g w = (res, g', w')"
  shows "R (a, n) \<noteq> None \<Longrightarrow> res = Some DuplicateConnectionError \<and> g' = g \<and> registry (view w') R"
    "R (a, n) = None \<Longrightarrow> Local_GetConnection (gw_local g) a n = None \<Longrightarrow>
       res = None \<and> g' = gw_registered g a n c \<and> registry (view w') (R((a, n) \<mapsto> host))"
    "R (a, n) = None \<Longrightarrow> Local_GetConnection (gw_local g) a n = Some c' \<Longrightarrow>
       res = Some DuplicateConnectionError \<and> g' = gw_unregistered g a n \<and> registry (view w') R"
proof -
  have key: "view w (getPodIndexVal a n) = map_option VStr (R (a, n))"
    using assms(1-3) by (simp add: registry_def key_defs)
  have lcm: "lcm_ok (gw_local g)" using assms(5) by (simp add: gw_ok_def)
  obtain b s1 w1 where r1: "run exec (ExistsInRedis a n) g w = (b, s1, w1)" using prod_cases3 by blast
  from run_ExistsInRedis [OF r1] key
  have v1: "s1 = g" "view w1 = view w" "b \<longleftrightarrow> R (a, n) \<noteq> None" by auto
  show "R (a, n) \<noteq> None \<Longrightarrow> res = Some DuplicateConnectionError \<and> g' = g \<and> registry (view w') R"
    using assms(1,6) r1 v1 by (auto simp: Gateway_Register_def)
  obtain e s2 w2 where r2: "run exec (RegisterWithRedis a n host) g w1 = (e, s2, w2)" using prod_cases3 by blast
  have v2: "s2 = g" "R (a, n) = None \<Longrightarrow> e = None \<and> registry (view w2) (R((a, n) \<mapsto> host))"
    using run_RegisterWithRedis [OF r2] registry_registered [OF assms(1) _ assms(2-4)] key
    by (auto simp: v1(2) key_defs)
  have rest: "run exec (pbind (local_register a n c) (\<lambda>err. case err of
        Some e \<Rightarrow> pbind (Gateway_Unregister host a n) (\<lambda>_. Ret (Some e))
      | None \<Rightarrow> pbind (StartActiveRegistrar a n c) (\<lambda>_. Ret None))) g w2 = (res, g', w')" if "R (a, n) = None"
    using assms(6) r1 r2 v1 v2 that by (simp add: Gateway_Register_def)
  show "R (a, n) = None \<Longrightarrow> Local_GetConnection (gw_local g) a n = None \<Longrightarrow>
       res = None \<and> g' = gw_registered g a n c \<and> registry (view w') (R((a, n) \<mapsto> host))"
    using rest v2 lcm.reg_new [OF lcm, of a n c]
    by (auto simp: run_local_register run_StartActiveRegistrar gw_registered_def)
  assume free: "R (a, n) = None" and dup: "Local_GetConnection (gw_local g) a n = Some c'"
  obtain u s3 w3 where r3: "run exec (Gateway_Unregister host a n) g w2 = (u, s3, w3)" using prod_cases3 by blast
  have "registry (view w2) (R((a, n) \<mapsto> host))" using v2(2) free by simp
  from run_Gateway_Unregister [OF this assms(2-4) _ r3] free
  have "s3 = gw_unregistered g a n" "registry (view w3) R" by (simp_all add: fun_upd_idem)
  then show "res = Some DuplicateConnectionError \<and> g' = gw_unregistered g a n \<and> registry (view w') R"
    using rest [OF free] lcm.reg_dup [OF lcm dup] r3 by (simp add: run_local_register)
qed

end


text \<open>Programs that only talk to Redis leave the process alone.\<close>

primrec redis_only :: "('s, 'a) prog \<Rightarrow> bool" where
  "redis_only (Ret a) = True"
| "redis_only (Redis c k) = (\<forall>r. redis_only (k r))"
| "redis_only (Local u k) = False"

lemma redis_only_pbind [simp]: "redis_only p \<Longrightarrow> (\<And>a. redis_only (f a)) \<Longrightarrow> redis_only (pbind p f)"
  by (induction p) auto

lemma redis_only_redis [simp]: "redis_only (redis c)"
  by (simp add: redis_def)

lemma run_redis_only: "redis_only p \<Longrightarrow> run ex p s w = (a, s', w') \<Longrightarrow> s' = s"
  by (induction p arbitrary: w rule: prog_induct) (auto split: prod.splits)

lemma redis_only_Tx: "redis_only p \<Longrightarrow> redis_only (TxPipelined p)"
  by (auto simp: TxPipelined_def intro!: redis_only_pbind split: prod.splits option.splits)

lemma redis_only_connector [simp]:
  "redis_only (ExistsInRedis a n)" "redis_only (RegisterWithRedis a n h)" "redis_only (UnregisterWithRedis a n h)"
  "redis_only (GetRedisConnection a n)"
proof -
  show "redis_only (ExistsInRedis a n)" "redis_only (GetRedisConnection a n)"
    by (simp_all add: ExistsInRedis_def GetRedisConnection_def)
  show "redis_only (RegisterWithRedis a n h)"
    by (auto simp: RegisterWithRedis_def addIndexes_def intro!: redis_only_pbind redis_only_Tx split: prod.splits option.splits)
  show "redis_only (UnregisterWithRedis a n h)"
    by (auto simp: UnregisterWithRedis_def removeIndexes_def intro!: redis_only_pbind redis_only_Tx)
qed

lemma run_Gateway_Unregister_state:
  assumes "run ex (Gateway_Unregister host a n) g w = (u, g', w')"
  shows "g' = gw_unregistered g a n"
proof -
  obtain u1 s1 w1 where r: "run ex (UnregisterWithRedis a n host) g w = (u1, s1, w1)" using prod_cases3 by blast
  moreover have "s1 = g" using run_redis_only [OF _ r] by simp
  ultimately show ?thesis
    using assms
    by (auto simp: Gateway_Unregister_def run_StopActiveRegistrar gw_unregistered_def cong: option.case_cong)
qed

lemma run_Gateway_Register_state:
  assumes "run ex (Gateway_Register host a n c) g w = (res, g', w')" and lcm: "lcm_ok (gw_local g)"
  shows "g' = g \<and> res \<noteq> None \<or>
     Local_GetConnection (gw_local g) a n = None \<and> g' = gw_registered g a n c \<and> res = None \<or>
     Local_GetConnection (gw_local g) a n \<noteq> None \<and> g' = gw_unregistered g a n \<and> res \<noteq> None"
proof -
  obtain b s1 w1 where r1: "run ex (ExistsInRedis a n) g w = (b, s1, w1)" using prod_cases3 by blast
  obtain e s2 w2 where r2: "run ex (RegisterWithRedis a n host) g w1 = (e, s2, w2)" using prod_cases3 by blast
  obtain u s3 w3 where r3: "run ex (Gateway_Unregister host a n) g w2 = (u, s3, w3)" using prod_cases3 by blast
  have s: "s1 = g" "s2 = g" using run_redis_only [OF _ r1] run_redis_only [OF _ r2] by simp_all
  show ?thesis
  proof (cases "b \<or> e \<noteq> None")
    case True
    with assms(1) r1 r2 s show ?thesis by (cases b) (auto simp: Gateway_Register_def)
  next
    case False
    then have rest: "run ex (pbind (local_register a n c) (\<lambda>err. case err of
        Some e \<Rightarrow> pbind (Gateway_Unregister host a n) (\<lambda>_. Ret (Some e))
      | None \<Rightarrow> pbind (StartActiveRegistrar a n c) (\<lambda>_. Ret None))) g w2 = (res, g', w')"
      using assms(1) r1 r2 s by (simp add: Gateway_Register_def)
    show ?thesis
    proof (cases "Local_GetConnection (gw_local g) a n")
      case None
      with rest lcm.reg_new [OF lcm None, of c] show ?thesis
        by (auto simp: run_local_register run_StartActiveRegistrar gw_registered_def)
    next
      case (Some c')
      with rest lcm.reg_dup [OF lcm Some] r3 run_Gateway_Unregister_state [OF r3] show ?thesis
        by (auto simp: run_local_register)
    qed
  qed
qed

lemma pbind_Ret: "pbind p Ret = p"
  by (induction p) auto

lemma registerAndClose_eq:
  "registerAndCloseConnectionOnDuplicate a n host c = RegisterWithRedis a n host"
proof -
  have "\<not> is_DuplicateConnectionError_pointer e" for e by (cases e) auto
  then have "(\<lambda>err. if (case err of None \<Rightarrow> False | Some e \<Rightarrow> is_DuplicateConnectionError_pointer e)
      then pbind (closeConnectionDueToDuplication c) (\<lambda>_. Ret err) else Ret err) = Ret"
    by (auto split: option.split)
  then show ?thesis by (simp add: registerAndCloseConnectionOnDuplicate_def pbind_Ret)
qed

lemma run_closeConnection:
  "run ex (closeConnectionDueToDuplication c) g w = ((), g\<lparr>gw_closed := c # gw_closed g\<rparr>, w)"
  by (simp add: closeConnectionDueToDuplication_def)

lemma run_registrar_turn_state:
  assumes "run ex (registrar_turn dns svc a n host c ev) g w = (cont, g', w')"
  shows "g' = g \<or> \<not> cont \<and> g' = g\<lparr>gw_closed := c # gw_closed g\<rparr>"
proof (cases ev)
  case CtxDone
  with assms show ?thesis by (simp add: registrar_turn_def)
next
  case Tick
  obtain hn err s1 w1 where r1: "run ex (GetRedisConnection a n) g w = ((hn, err), s1, w1)" by (metis prod_cases3 surj_pair)
  obtain u s2 w2 where r2: "run ex (UnregisterWithRedis a n hn) g w1 = (u, s2, w2)" using prod_cases3 by blast
  have s: "s1 = g" "s2 = g" using run_redis_only [OF _ r1] run_redis_only [OF _ r2] by simp_all
  obtain e1 s3 w3 where r3: "run ex (RegisterWithRedis a n host) g w1 = (e1, s3, w3)" using prod_cases3 by blast
  obtain e2 s4 w4 where r4: "run ex (RegisterWithRedis a n host) g w2 = (e2, s4, w4)" using prod_cases3 by blast
  have s': "s3 = g" "s4 = g" using run_redis_only [OF _ r3] run_redis_only [OF _ r4] by simp_all
  show ?thesis
    using assms Tick r1 r2 r3 r4 s s'
    by (auto simp: registrar_turn_def registerAndClose_eq run_closeConnection split: if_splits)
qed

context reliable_redis
begin

lemma run_registrar_tick:
  assumes "registry (view w) R" "valid_account a" "valid_node n" "valid_host host"
    "run exec (registrar_turn dns svc a n host c Tick) g w = (cont, g', w')"
  shows "case R (a, n) of
      None \<Rightarrow> cont \<and> g' = g \<and> registry (view w') (R((a, n) \<mapsto> host))
    | Some h \<Rightarrow>
        if h = host then cont \<and> g' = g \<and> registry (view w') R
        else if isPodRunning dns svc h
          then \<not> cont \<and> g' = g\<lparr>gw_closed := c # gw_closed g\<rparr> \<and> registry (view w') R
        else cont \<and> g' = g \<and> registry (view w') (R((a, n) \<mapsto> host))"
proof -
  have key: "view w (getConnectionKey a n) = map_option VStr (R (a, n))"
    using assms(1-3) by (simp add: registry_def)
  obtain hn err s1 w1 where r1: "run exec (GetRedisConnection a n) g w = ((hn, err), s1, w1)" by (metis prod_cases3 surj_pair)
  have v1: "s1 = g" "view w1 = view w" "(hn, err) = (case R (a, n) of None \<Rightarrow> ([], Some RedisNil) | Some h \<Rightarrow> (h, None))"
    using run_GetRedisConnection [OF r1 key] by auto
  have reg1: "registry (view w1) R" using assms(1) v1(2) by simp
  show ?thesis
  proof (cases "R (a, n)")
    case None
    obtain e s2 w2 where r2: "run exec (RegisterWithRedis a n host) g w1 = (e, s2, w2)" using prod_cases3 by blast
    then have "s2 = g" "registry (view w2) (R((a, n) \<mapsto> host))"
      using run_RegisterWithRedis [OF r2] registry_registered [OF reg1 None assms(2-4)] key None v1(2) by auto
    then show ?thesis
      using assms(5) r1 v1 r2 None by (auto simp: registrar_turn_def registerAndClose_eq)
  next
    case (Some h)
    have "valid_host h" using assms(1) Some unfolding registry_def valid_registry_def by blast
    then have h: "valid_host h" "h \<noteq> []" by (auto simp: valid_host_def)
    show ?thesis
    proof (cases "h = host \<or> isPodRunning dns svc h")
      case True
      then show ?thesis
        using assms(5) r1 v1 Some h reg1 by (auto simp: registrar_turn_def run_closeConnection)
    next
      case False
      obtain u s2 w2 where r2: "run exec (UnregisterWithRedis a n h) g w1 = (u, s2, w2)" using prod_cases3 by blast
      then have v2: "s2 = g" "registry (view w2) (R((a, n) := None))"
        using run_UnregisterWithRedis [OF r2] registry_unregistered [OF reg1 Some] by auto
      then have "view w2 (getConnectionKey a n) = None" using assms(2,3) by (simp add: registry_def)
      moreover obtain e s3 w3 where r3: "run exec (RegisterWithRedis a n host) g w2 = (e, s3, w3)" using prod_cases3 by blast
      ultimately have "s3 = g" "registry (view w3) (R((a, n) \<mapsto> host))"
        using run_RegisterWithRedis [OF r3] registry_registered [OF v2(2) _ assms(2-4)] by auto
      then show ?thesis
        using assms(5) r1 v1 r2 v2(1) r3 Some h False by (auto simp: registrar_turn_def registerAndClose_eq)
    qed
  qed
qed

end


lemma gw_ok_closed [simp]: "gw_ok (g\<lparr>gw_closed := cs\<rparr>) = gw_ok g"
  by (simp add: gw_ok_def live_def)

lemma registrar_loop_ok:
  "gw_ok g \<Longrightarrow> run ex (startActiveRegistrar dns svc a n host c evs) g w = (cont, g', w') \<Longrightarrow> gw_ok g'"
proof (induction evs arbitrary: g w)
  case (Cons ev evs)
  obtain b g1 w1 where r: "run ex (registrar_turn dns svc a n host c ev) g w = (b, g1, w1)" using prod_cases3 by blast
  have "gw_ok g1" using run_registrar_turn_state [OF r] Cons.prems(1) by auto
  with Cons r show ?case by (auto split: if_splits)
qed simp

lemma pods_lookup:
  "map_of (foldl (\<lambda>m e. AList.update e True m) [] hosts) h = None \<longleftrightarrow> h \<notin> set hosts"
proof -
  have "dom (map_of (foldl (\<lambda>m e. AList.update e True m) m hosts)) = dom (map_of m) \<union> set hosts" for m
    by (induction hosts arbitrary: m) (auto simp: update_conv')
  from this [of "[]"] have "h \<in> dom (map_of (foldl (\<lambda>m e. AList.update e True m) [] hosts)) \<longleftrightarrow> h \<in> set hosts"
    by simp
  then show ?thesis unfolding domIff by blast
qed

lemma isPodRunning_iff:
  "isPodRunning dns svc h \<longleftrightarrow> (\<exists>hosts. dns svc = Some hosts \<and> h \<in> set hosts)"
  by (simp add: isPodRunning_def getRunningPods_def pods_lookup del: not_None_eq split: option.split)

subsection \<open>Properties\<close>

text \<open>Property C19. On a server that answers, the gateway's \<open>Register\<close> has three outcomes. A node that
  is registered anywhere is a duplicate and nothing changes. A node that is new both in Redis and in
  this process is registered in both and its active registrar is started. A node that is new in Redis
  but present in this process is reported as a duplicate: the registry is as before, and the
  connection that was present is dropped and its active registrar cancelled.\<close>

theorem gateway_register_refines:
  assumes "reliable_redis ex view" "registry (view w) R" "valid_account a" "valid_node n" "valid_host host"
    "gw_ok g" "run ex (Gateway_Register host a n c) g w = (res, g', w')"
  shows "if R (a, n) \<noteq> None then res = Some DuplicateConnectionError \<and> g' = g \<and> registry (view w') R
    else if Local_GetConnection (gw_local g) a n = None
      then res = None \<and> g' = gw_registered g a n c \<and> registry (view w') (R((a, n) \<mapsto> host))
    else res = Some DuplicateConnectionError \<and> g' = gw_unregistered g a n \<and> registry (view w') R"
  using reliable_redis.run_Gateway_Register [OF assms(1-7)] by auto

theorem gateway_register_refines_witness:
  "\<exists>w'. run mem_exec (Gateway_Register ''10.0.0.1'' ''01'' ''node-a'' ''conn'') new_gateway [] =
      (None, gw_registered new_gateway ''01'' ''node-a'' ''conn'', w') \<and>
    registry (mem_view w') sample_R"
proof -
  obtain res g' w' where r: "run mem_exec (Gateway_Register ''10.0.0.1'' ''01'' ''node-a'' ''conn'') new_gateway [] = (res, g', w')"
    using prod_cases3 by blast
  have "Local_GetConnection (gw_local (new_gateway :: string gateway)) ''01'' ''node-a'' = None"
    by (simp add: new_gateway_def NewLocalConnectionManager_def Local_GetConnection_def)
  then show ?thesis
    using gateway_register_refines [OF mem.reliable_redis_axioms registry_empty sample_valid(1,2,4) gw_ok_new r] r
    by (simp add: sample_R_def)
qed

text \<open>On a server that answers, \<open>Unregister\<close> of a connection this pod holds, or nobody
  holds, removes it from the registry and from the process and cancels its active registrar.\<close>

lemma gateway_unregister_refines:
  assumes "reliable_redis ex view" "registry (view w) R" "valid_account a" "valid_node n" "valid_host host"
    "R (a, n) \<in> {None, Some host}" "run ex (Gateway_Unregister host a n) g w = (u, g', w')"
  shows "registry (view w') (R((a, n) := None)) \<and> g' = gw_unregistered g a n"
  using reliable_redis.run_Gateway_Unregister [OF assms] by simp

lemma gateway_unregister_refines_example:
  "\<exists>w'. run mem_exec (Gateway_Unregister ''10.0.0.1'' ''01'' ''node-a'') (new_gateway :: string gateway) sample_world =
      ((), gw_unregistered new_gateway ''01'' ''node-a'', w') \<and> registry (mem_view w') Map.empty"
proof -
  obtain u g' w' where r: "run mem_exec (Gateway_Unregister ''10.0.0.1'' ''01'' ''node-a'') (new_gateway :: string gateway)
      sample_world = (u, g', w')" using prod_cases3 by blast
  have "sample_R (''01'', ''node-a'') \<in> {None, Some ''10.0.0.1''}" "sample_R((''01'', ''node-a'') := None) = Map.empty"
    by (simp_all add: sample_R_def)
  with r gateway_unregister_refines [OF mem.reliable_redis_axioms sample_registry sample_valid(1,2,4) _ r]
  show ?thesis by auto
qed



text \<open>A tick of the active registrar repairs the registry when the server answers: a
  missing entry is put back; an entry of this pod is left; for an entry of another pod that is
  running the connection is closed and the registrar ends; an entry of a pod that is not running is
  replaced by this pod's.\<close>

lemma registrar_tick_refines:
  assumes "reliable_redis ex view" "registry (view w) R" "valid_account a" "valid_node n" "valid_host host"
    "run ex (registrar_turn dns svc a n host c Tick) g w = (cont, g', w')"
  shows "case R (a, n) of
      None \<Rightarrow> cont \<and> g' = g \<and> registry (view w') (R((a, n) \<mapsto> host))
    | Some h \<Rightarrow>
        if h = host then cont \<and> g' = g \<and> registry (view w') R
        else if \<exists>hosts. dns svc = Some hosts \<and> h \<in> set hosts
          then \<not> cont \<and> g' = g\<lparr>gw_closed := c # gw_closed g\<rparr> \<and> registry (view w') R
        else cont \<and> g' = g \<and> registry (view w') (R((a, n) \<mapsto> host))"
  using reliable_redis.run_registrar_tick [OF assms] unfolding isPodRunning_iff .

lemma registrar_tick_refines_example:
  "\<exists>w'. run mem_exec (registrar_turn (\<lambda>_. Some [''10.0.0.1'']) ''svc'' ''01'' ''node-a'' ''10.0.0.2'' ''conn'' Tick)
      new_gateway sample_world = (False, new_gateway\<lparr>gw_closed := [''conn'']\<rparr>, w') \<and> registry (mem_view w') sample_R"
proof -
  obtain cont g' w' where r: "run mem_exec (registrar_turn (\<lambda>_. Some [''10.0.0.1'']) ''svc'' ''01'' ''node-a''
      ''10.0.0.2'' ''conn'' Tick) new_gateway sample_world = (cont, g', w')" using prod_cases3 by blast
  have "sample_R (''01'', ''node-a'') = Some ''10.0.0.1''" by (simp add: sample_R_def)
  with r registrar_tick_refines [OF mem.reliable_redis_axioms sample_registry sample_valid(1,2,5) r]
  show ?thesis by (simp add: new_gateway_def)
qed

text \<open>When the lookup of the running pods fails, a tick takes the connection over from a pod that may well
  be running: its entry is replaced and the connection stays open.\<close>

lemma registrar_lookup_failure:
  assumes "reliable_redis ex view" "registry (view w) R" "valid_account a" "valid_node n" "valid_host host"
    "R (a, n) = Some h" "h \<noteq> host" "dns svc = None"
    "run ex (registrar_turn dns svc a n host c Tick) g w = (cont, g', w')"
  shows "cont \<and> g' = g \<and> registry (view w') (R((a, n) \<mapsto> host))"
  using reliable_redis.run_registrar_tick [OF assms(1-5,9)] assms(6-8) by (simp add: isPodRunning_iff)

text \<open>\<open>registerAndCloseConnectionOnDuplicate\<close> does not close the connection when the
  registration reports a duplicate.\<close>

lemma duplicate_not_closed:
  assumes "run ex (registerAndCloseConnectionOnDuplicate a n host c) g w = (Some DuplicateConnectionError, g', w')"
  shows "gw_closed g' = gw_closed g"
  using run_redis_only [OF _ assms] by (simp add: registerAndClose_eq)

lemma duplicate_not_closed_example:
  "\<exists>w'. run mem_exec (registerAndCloseConnectionOnDuplicate ''01'' ''node-a'' ''10.0.0.2'' ''conn'') new_gateway sample_world =
      (Some DuplicateConnectionError, new_gateway, w') \<and> gw_closed (new_gateway :: string gateway) = []"
proof -
  obtain res g' w' where r: "run mem_exec (RegisterWithRedis ''01'' ''node-a'' ''10.0.0.2'') (new_gateway :: string gateway)
      sample_world = (res, g', w')" using prod_cases3 by blast
  have "mem_view sample_world (getConnectionKey ''01'' ''node-a'') = Some (VStr ''10.0.0.1'')"
    using sample_registry sample_valid by (simp add: registry_def sample_R_def)
  with mem.run_RegisterWithRedis [OF r] r
  have "run mem_exec (registerAndCloseConnectionOnDuplicate ''01'' ''node-a'' ''10.0.0.2'' ''conn'') new_gateway sample_world =
      (Some DuplicateConnectionError, new_gateway, w')" by (simp add: registerAndClose_eq)
  with duplicate_not_closed [OF this] show ?thesis by (simp add: new_gateway_def)
qed

end
