(* ===== verification/Platform.thy ===== *)
theory Platform
  imports Http_Proxy Gateway
begin

text \<open>
  What the services are assembled from: the Kafka configuration (\<open>internal/platform/queue\<close>), the job
  dispatcher (\<open>controller/dispatcher.go\<close>, not started at present), the metrics middleware, the remaining
  handlers of the API, the settings of the logger and the parts of the two \<open>main\<close> functions that decide
  something. The Kafka and TLS libraries, the file system and the name lookup are parameters.
\<close>

subsection \<open>Kafka configuration\<close>

record SaslConfig =
  sc_SaslMechanism :: string
  sc_SaslUsername :: string
  sc_SaslPassword :: string
  sc_KafkaCA :: string

record ProducerConfig =
  pc_Brokers :: "string list"
  pc_SaslConfig :: "SaslConfig option"
  pc_Topic :: string
  pc_BatchSize :: int
  pc_BatchBytes :: int
  pc_Balancer :: string

record ConsumerConfig =
  cc_Brokers :: "string list"
  cc_SaslConfig :: "SaslConfig option"
  cc_Topic :: string
  cc_GroupID :: string
  cc_ConsumerOffset :: int

definition SaslConfig_String :: "SaslConfig \<Rightarrow> string" where
  "SaslConfig_String c = ''SaslMechanism: '' @ sc_SaslMechanism c @ [CHR 0x0A]"

text \<open>\<open>%s\<close> of a pointer to the struct; a nil pointer is printed as \<open><nil>\<close>.\<close>

definition sasl_text :: "SaslConfig option \<Rightarrow> string" where
  "sasl_text c = (case c of None \<Rightarrow> ''<nil>'' | Some s \<Rightarrow> SaslConfig_String s)"

definition text_line :: "string \<Rightarrow> string \<Rightarrow> string" where
  "text_line k v = k @ '': '' @ v @ [CHR 0x0A]"

definition ProducerConfig_String :: "ProducerConfig \<Rightarrow> string" where
  "ProducerConfig_String c =
     text_line ''Brokers'' (strings_text (pc_Brokers c)) @ text_line ''SaslConfig'' (sasl_text (pc_SaslConfig c)) @
     text_line ''Topic'' (pc_Topic c) @ text_line ''BatchSize'' (int_text (pc_BatchSize c)) @
     text_line ''BatchBytes'' (int_text (pc_BatchBytes c)) @ text_line ''Balancer'' (pc_Balancer c)"

definition ConsumerConfig_String :: "ConsumerConfig \<Rightarrow> string" where
  "ConsumerConfig_String c =
     text_line ''Brokers'' (strings_text (cc_Brokers c)) @ text_line ''SaslConfig'' (sasl_text (cc_SaslConfig c)) @
     text_line ''Topic'' (cc_Topic c) @ text_line ''GroupID'' (cc_GroupID c) @
     text_line ''ConsumerOffset'' (int_text (cc_ConsumerOffset c))"

datatype sasl_mechanism = PlainMechanism string string | Scram512 string string | Scram256 string string

text \<open>\<open>scram\<close> is the error of building a SCRAM mechanism, if any.\<close>

definition createSaslMechanism ::
  "(string \<Rightarrow> string \<Rightarrow> string option) \<Rightarrow> string \<Rightarrow> string \<Rightarrow> string \<Rightarrow> string + sasl_mechanism" where
  "createSaslMechanism scram saslMechanismName username password =
     (let name = to_lower saslMechanismName in
      if name = ''plain'' then Inr (PlainMechanism username password)
      else if name = ''scram-sha-512'' then
        (case scram username password of
           Some e \<Rightarrow> Inl (''unable to create scram-sha-512 mechanism: '' @ e)
         | None \<Rightarrow> Inr (Scram512 username password))
      else if name = ''scram-sha-256'' then
        (case scram username password of
           Some e \<Rightarrow> Inl (''unable to create scram-sha-256 mechanism: '' @ e)
         | None \<Rightarrow> Inr (Scram256 username password))
      else Inl (''unable to configure sasl mechanism ('' @ saslMechanismName @ '')''))"

record tls_config =
  tls_MinVersion :: string
  tls_RootCAs :: "bytes option"

text \<open>The certificates in the file are added to a new pool; whether any was found is not checked.\<close>

definition createTLSConfig :: "(string \<Rightarrow> string + bytes) \<Rightarrow> string \<Rightarrow> string + tls_config" where
  "createTLSConfig readFile pathToCert =
     (let tlsConfig = \<lparr>tls_MinVersion = ''TLS12'', tls_RootCAs = None\<rparr> in
      if pathToCert = [] then Inr tlsConfig
      else (case readFile pathToCert of
          Inl e \<Rightarrow> Inl (''unable to open cert file ('' @ pathToCert @ ''): '' @ e)
        | Inr caCert \<Rightarrow> Inr (tlsConfig\<lparr>tls_RootCAs := Some caCert\<rparr>)))"

datatype dialer = DefaultDialer | CustomDialer int sasl_mechanism tls_config

definition createDialer ::
  "(string \<Rightarrow> string + bytes) \<Rightarrow> (string \<Rightarrow> string \<Rightarrow> string option) \<Rightarrow> SaslConfig option \<Rightarrow> string + dialer" where
  "createDialer readFile scram cfg =
     (case cfg of
        None \<Rightarrow> Inr DefaultDialer
      | Some c \<Rightarrow>
          (case createTLSConfig readFile (sc_KafkaCA c) of
             Inl e \<Rightarrow> Inl e
           | Inr tlsConfig \<Rightarrow>
               (case createSaslMechanism scram (sc_SaslMechanism c) (sc_SaslUsername c) (sc_SaslPassword c) of
                  Inl e \<Rightarrow> Inl e
                | Inr saslMechanism \<Rightarrow> Inr (CustomDialer (10 * Second) saslMechanism tlsConfig))))"

record kafka_writer =
  kw_Brokers :: "string list"
  kw_Topic :: string
  kw_BatchSize :: int
  kw_BatchBytes :: int
  kw_Dialer :: dialer
  kw_hash :: bool

definition StartProducer ::
  "(string \<Rightarrow> string + bytes) \<Rightarrow> (string \<Rightarrow> string \<Rightarrow> string option) \<Rightarrow> ProducerConfig \<Rightarrow> string + kafka_writer" where
  "StartProducer readFile scram cfg =
     (case createDialer readFile scram (pc_SaslConfig cfg) of
        Inl e \<Rightarrow> Inl (''unable to create kafka dialer: '' @ e)
      | Inr kafkaDialer \<Rightarrow>
          Inr \<lparr>kw_Brokers = pc_Brokers cfg, kw_Topic = pc_Topic cfg, kw_BatchSize = pc_BatchSize cfg,
               kw_BatchBytes = pc_BatchBytes cfg, kw_Dialer = kafkaDialer, kw_hash = (pc_Balancer cfg = ''hash'')\<rparr>)"

record kafka_reader =
  kr_Brokers :: "string list"
  kr_Topic :: string
  kr_GroupID :: string
  kr_StartOffset :: int
  kr_Dialer :: dialer

definition StartConsumer ::
  "(string \<Rightarrow> string + bytes) \<Rightarrow> (string \<Rightarrow> string \<Rightarrow> string option) \<Rightarrow> ConsumerConfig \<Rightarrow> string + kafka_reader" where
  "StartConsumer readFile scram cfg =
     (case createDialer readFile scram (cc_SaslConfig cfg) of
        Inl e \<Rightarrow> Inl (''unable to create kafka dialer: '' @ e)
      | Inr kafkaDialer \<Rightarrow>
          Inr \<lparr>kr_Brokers = cc_Brokers cfg, kr_Topic = cc_Topic cfg, kr_GroupID = cc_GroupID cfg,
               kr_StartOffset = cc_ConsumerOffset cfg, kr_Dialer = kafkaDialer\<rparr>)"

subsection \<open>The job dispatcher\<close>

record 'u dispatch_message =
  dm_MessageID :: 'u
  dm_Recipient :: string
  dm_RouteList :: "string list option"
  dm_Payload :: goany
  dm_Directive :: string

definition dispatch_store ::
  "(string \<Rightarrow> 'u option) \<Rightarrow> string \<Rightarrow> json \<Rightarrow> 'u dispatch_message \<Rightarrow> 'u dispatch_message option" where
  "dispatch_store uuid_Parse f j m =
     (if f = ''MessageID'' then
        (case j of JNull \<Rightarrow> Some m
         | JStr s \<Rightarrow> map_option (\<lambda>u. m\<lparr>dm_MessageID := u\<rparr>) (uuid_Parse (unquote s))
         | _ \<Rightarrow> None)
      else if f = ''Recipient'' then map_option (\<lambda>s. m\<lparr>dm_Recipient := s\<rparr>) (store_str j (dm_Recipient m))
      else if f = ''RouteList'' then map_option (\<lambda>l. m\<lparr>dm_RouteList := l\<rparr>) (store_slice (\<lambda>j. store_str j []) j)
      else if f = ''Payload'' then Some (m\<lparr>dm_Payload := json_any j\<rparr>)
      else map_option (\<lambda>s. m\<lparr>dm_Directive := s\<rparr>) (store_str j (dm_Directive m)))"

record MessageDispatcher =
  md_account :: string
  md_nodeID :: string

definition GetKey :: "MessageDispatcher \<Rightarrow> string" where
  "GetKey md = md_account md @ '':'' @ md_nodeID md"

text \<open>The loop over what the reader returns, an error or a key and a value, up to the first error: the
  messages it sends on the channel.\<close>

fun StartDispatchingMessages ::
  "(bytes \<Rightarrow> 'm option) \<Rightarrow> MessageDispatcher \<Rightarrow> (string \<times> bytes) option list \<Rightarrow> 'm list" where
  "StartDispatchingMessages unmarshal md [] = []"
| "StartDispatchingMessages unmarshal md (None # reads) = []"
| "StartDispatchingMessages unmarshal md (Some (key, value) # reads) =
     (if key = GetKey md then
        (case unmarshal value of
           None \<Rightarrow> StartDispatchingMessages unmarshal md reads
         | Some w \<Rightarrow> w # StartDispatchingMessages unmarshal md reads)
      else StartDispatchingMessages unmarshal md reads)"

definition unmarshal_dispatch :: "(string \<Rightarrow> 'u option) \<Rightarrow> 'u \<Rightarrow> bytes \<Rightarrow> 'u dispatch_message option" where
  "unmarshal_dispatch uuid_Parse nil_uuid b =
     (case json_Unmarshal (store_struct [''MessageID'', ''Recipient'', ''RouteList'', ''Payload'', ''Directive'']
              (dispatch_store uuid_Parse)) b
              \<lparr>dm_MessageID = nil_uuid, dm_Recipient = [], dm_RouteList = None, dm_Payload = ANil, dm_Directive = []\<rparr> of
        Inl e \<Rightarrow> None | Inr m \<Rightarrow> Some m)"

definition NewDispatcher ::
  "(string \<Rightarrow> string + bytes) \<Rightarrow> (string \<Rightarrow> string \<Rightarrow> string option) \<Rightarrow> ConsumerConfig \<Rightarrow> string \<Rightarrow> string \<Rightarrow>
   string + MessageDispatcher \<times> kafka_reader" where
  "NewDispatcher readFile scram readerConfig account nodeID =
     (case StartConsumer readFile scram readerConfig of
        Inl e \<Rightarrow> Inl e
      | Inr r \<Rightarrow> Inr (\<lparr>md_account = account, md_nodeID = nodeID\<rparr>, r))"

subsection \<open>Middleware and handlers without state\<close>

text \<open>The counter of status codes; a handler that panics is not counted.\<close>

definition RecordHTTPMetrics :: "'st handler \<Rightarrow> ('st \<times> (string, nat) gomap) handler" where
  "RecordHTTPMetrics next req s =
     (case s of (st, counters) \<Rightarrow>
        (case next req st of
           (None, st') \<Rightarrow> (None, (st', counters))
         | (Some resp, st') \<Rightarrow>
             (let code = nat_text (rsp_status resp);
                  n = (case map_of counters code of None \<Rightarrow> 0 | Some n \<Rightarrow> n)
              in (Some resp, (st', AList.update code (n + 1) counters)))))"

definition handleLiveness :: "'st handler" where
  "handleLiveness req st = (Some \<lparr>rsp_status = 200, rsp_headers = [], rsp_body = []\<rparr>, st)"

definition handleReadiness :: "'st handler" where
  "handleReadiness req st = (Some \<lparr>rsp_status = 200, rsp_headers = [], rsp_body = []\<rparr>, st)"

definition handleApiSpec :: "(string \<Rightarrow> string + bytes) \<Rightarrow> string \<Rightarrow> 'st handler" where
  "handleApiSpec readFile specFileName req st =
     (case readFile specFileName of
        Inl err \<Rightarrow> (Some \<lparr>rsp_status = 404, rsp_headers = [], rsp_body = []\<rparr>, st)
      | Inr file \<Rightarrow>
          (Some \<lparr>rsp_status = 200, rsp_headers = header_set ''Content-Type'' ''text/plain; charset=utf-8'' [],
                 rsp_body = file\<rparr>, st))"

definition ApiSpecServer_Routes :: "(string \<Rightarrow> string + bytes) \<Rightarrow> string \<Rightarrow> 'st route list" where
  "ApiSpecServer_Routes readFile specFileName =
     [(Some ''GET'', (\<lambda>p. p = ''/openapi.json''), (\<lambda>p. handleApiSpec readFile specFileName))]"

text \<open>\<open>metrics\<close> and \<open>debug\<close> are the handlers of the Prometheus library and of \<open>net/http/pprof\<close>.\<close>

definition MonitoringServer_Routes :: "Config \<Rightarrow> 'st handler \<Rightarrow> 'st handler \<Rightarrow> 'st route list" where
  "MonitoringServer_Routes config metrics debug =
     [(Some ''GET'', (\<lambda>p. p = ''/metrics''), (\<lambda>p. metrics)),
      (Some ''GET'', (\<lambda>p. p = ''/liveness''), (\<lambda>p. handleLiveness)),
      (Some ''GET'', (\<lambda>p. p = ''/readiness''), (\<lambda>p. handleReadiness))] @
     (if cfg_Profile config then [(None, prefix ''/debug'', (\<lambda>p. debug))] else [])"

subsection \<open>The logger\<close>

definition to_upper :: "string \<Rightarrow> string" where
  "to_upper = map (\<lambda>c. let n = of_char c :: nat in if 97 \<le> n \<and> n \<le> 122 then char_of (n - 32) else c)"

datatype log_format = TextFormatter | CloudwatchFormatter string

text \<open>\<open>hostname\<close> is the result of \<open>os.Hostname\<close>.\<close>

definition NewCloudwatchFormatter :: "string option \<Rightarrow> log_format" where
  "NewCloudwatchFormatter hostname =
     CloudwatchFormatter (case hostname of None \<Rightarrow> ''unknown'' | Some h \<Rightarrow> h)"

definition buildFormatter :: "string option \<Rightarrow> string \<Rightarrow> log_format" where
  "buildFormatter hostname format =
     (if to_upper format = ''TEXT'' then TextFormatter else NewCloudwatchFormatter hostname)"

datatype log_level = TraceLevel | DebugLevel | ErrorLevel | InfoLevel | FatalLevel

definition init_level :: "string \<Rightarrow> bool \<Rightarrow> log_level" where
  "init_level level testing =
     (let l = to_upper level;
          logLevel = (if l = ''TRACE'' then TraceLevel else if l = ''DEBUG'' then DebugLevel
                      else if l = ''ERROR'' then ErrorLevel else InfoLevel)
      in if testing then FatalLevel else logLevel)"

text \<open>\<open>InitLogger\<close>: \<open>getString\<close> is viper's reading of a setting with the defaults it is given, \<open>hostname\<close> the host
  name or the empty string, \<open>clowder\<close> the CloudWatch settings of Clowder where that is enabled (none there is a
  nil pointer) and \<open>testing\<close> whether the flag of the test runner is defined. The hook is added also if the
  library reported an error.\<close>

record cloudwatch =
  cw_AccessKeyId :: string
  cw_SecretAccessKey :: string
  cw_Region :: string
  cw_LogGroup :: string

record cloudwatch_hook = cloudwatch +
  cw_stream :: string

record logger_settings =
  lg_Level :: log_level
  lg_Formatter :: log_format
  lg_Hook :: "cloudwatch_hook option"

definition logger_defaults :: "string \<Rightarrow> (string, string) gomap" where
  "logger_defaults hostname =
     [(''LOG_LEVEL'', ''INFO''), (''LOG_GROUP'', ''platform-dev''), (''AWS_REGION'', ''us-east-1''),
      (''LOG_STREAM'', hostname), (''LOG_FORMAT'', ''json'')]"

definition InitLogger ::
  "((string, string) gomap \<Rightarrow> string \<Rightarrow> string) \<Rightarrow> string option \<Rightarrow> cloudwatch option option \<Rightarrow> bool \<Rightarrow>
   (unit, logger_settings) outcome" where
  "InitLogger viper_getString hostname clowder testing =
     (let getString = viper_getString (logger_defaults (case hostname of None \<Rightarrow> [] | Some h \<Rightarrow> h));
          own = \<lparr>cw_AccessKeyId = getString ''CW_AWS_ACCESS_KEY_ID'', cw_SecretAccessKey = getString ''CW_AWS_SECRET_ACCESS_KEY'',
            cw_Region = getString ''AWS_REGION'', cw_LogGroup = getString ''LOG_GROUP''\<rparr>
      in case clowder of
           Some None \<Rightarrow> Panic
         | _ \<Rightarrow>
             (let cw = (case clowder of Some (Some cfg) \<Rightarrow> cfg | _ \<Rightarrow> own)
              in Ok \<lparr>lg_Level = init_level (getString ''LOG_LEVEL'') testing,
                lg_Formatter = buildFormatter hostname (getString ''LOG_FORMAT''),
                lg_Hook = (if cw_AccessKeyId cw \<noteq> [] then Some (cloudwatch.extend cw \<lparr>cw_stream = getString ''LOG_STREAM''\<rparr>)
                           else None)\<rparr>))"

text \<open>A field of an entry: an error, a value with its own log form, any other value.\<close>

datatype log_value = LogError string | LogMarshaler goany | LogAny goany

fun log_any :: "log_value \<Rightarrow> goany" where
  "log_any (LogError e) = AStr e"
| "log_any (LogMarshaler m) = m"
| "log_any (LogAny v) = v"

record log_entry =
  le_Message :: string
  le_Level :: string
  le_Caller :: string
  le_Data :: "(string, log_value) gomap"

text \<open>\<open>hostname\<close> is the result of \<open>os.Hostname\<close>, which replaces the formatter's name, and \<open>timestamp\<close> the formatted
  time. A field with the name of a fixed one replaces it.\<close>

definition Cloudwatch_Format :: "string option \<Rightarrow> string \<Rightarrow> string \<Rightarrow> log_entry \<Rightarrow> bytes option \<times> string" where
  "Cloudwatch_Format hostname timestamp f_Hostname entry =
     (let f_Hostname = (case hostname of None \<Rightarrow> f_Hostname | Some h \<Rightarrow> h);
          data = foldl (\<lambda>m (k, v). put_entry k v m) []
            [(''@timestamp'', AStr timestamp), (''@version'', ANum ''1''), (''message'', AStr (le_Message entry)),
             (''levelname'', AStr (le_Level entry)), (''source_host'', AStr f_Hostname), (''app'', AStr ''receptor-controller''),
             (''caller'', AStr (le_Caller entry))];
          data = foldl (\<lambda>m (k, v). put_entry k (log_any v) m) data (le_Data entry)
      in (json_Marshal (any_json True (AMap data)), f_Hostname))"

text \<open>The entry of a request in the access log.\<close>

definition logrusAccessLogAdapter :: "string \<Rightarrow> string \<Rightarrow> string \<Rightarrow> http_request \<Rightarrow> nat \<Rightarrow> nat \<Rightarrow> log_entry" where
  "logrusAccessLogAdapter proto remoteAddr caller req statusCode written =
     (let request = rq_method req @ '' '' @ rq_url req @ '' '' @ proto;
          requestID = header_get (rq_headers req) ''X-Rh-Insights-Request-Id''
      in \<lparr>le_Message = ''access'', le_Level = ''info'', le_Caller = caller,
          le_Data = [(''remote_addr'', LogAny (AStr remoteAddr)), (''request'', LogAny (AStr request)),
                     (''request_id'', LogAny (AStr requestID)), (''status'', LogAny (ANum (nat_text statusCode))),
                     (''size'', LogAny (ANum (nat_text written)))]\<rparr>)"

subsection \<open>The main programs\<close>

definition buildKafkaSaslConfig :: "Config \<Rightarrow> SaslConfig option" where
  "buildKafkaSaslConfig cfg =
     (if cfg_KafkaSaslMechanism cfg = [] then None
      else Some \<lparr>sc_SaslMechanism = cfg_KafkaSaslMechanism cfg, sc_SaslUsername = cfg_KafkaSaslUsername cfg,
                 sc_SaslPassword = cfg_KafkaSaslPassword cfg, sc_KafkaCA = cfg_KafkaCAPath cfg\<rparr>)"

text \<open>The Kafka settings of the gateway; without a balancer the writer keeps the library's.\<close>

definition gateway_producer :: "Config \<Rightarrow> ProducerConfig" where
  "gateway_producer cfg =
     \<lparr>pc_Brokers = cfg_KafkaBrokers cfg, pc_SaslConfig = buildKafkaSaslConfig cfg, pc_Topic = cfg_KafkaResponsesTopic cfg,
      pc_BatchSize = cfg_KafkaResponsesBatchSize cfg, pc_BatchBytes = cfg_KafkaResponsesBatchBytes cfg, pc_Balancer = []\<rparr>"

definition gateway_consumer :: "Config \<Rightarrow> ConsumerConfig" where
  "gateway_consumer cfg =
     \<lparr>cc_Brokers = cfg_KafkaBrokers cfg, cc_SaslConfig = buildKafkaSaslConfig cfg, cc_Topic = cfg_KafkaJobsTopic cfg,
      cc_GroupID = cfg_KafkaGroupID cfg, cc_ConsumerOffset = cfg_KafkaConsumerOffset cfg\<rparr>"

text \<open>The tool that prints the responses: its reader, without the SASL settings, and the lines it prints for what
  the reader returns.\<close>

definition response_consumer_reader :: "string \<Rightarrow> Config \<Rightarrow> kafka_reader" where
  "response_consumer_reader groupID cfg =
     \<lparr>kr_Brokers = cfg_KafkaBrokers cfg, kr_Topic = cfg_KafkaResponsesTopic cfg, kr_GroupID = groupID,
      kr_StartOffset = cfg_KafkaConsumerOffset cfg, kr_Dialer = DefaultDialer\<rparr>"

fun response_consumer_loop :: "(string + int \<times> int \<times> string \<times> string) list \<Rightarrow> string list" where
  "response_consumer_loop [] = []"
| "response_consumer_loop (Inl err # reads) = [''Got an error: '' @ err]"
| "response_consumer_loop (Inr (offset, part, key, val) # reads) =
     (''message at offset '' @ int_text offset @ '', partition '' @ int_text part @ '': '' @ key @ '' = '' @ val)
     # response_consumer_loop reads"

text \<open>\<open>net.IP.To4\<close> and \<open>IP.String\<close> of an IPv4 address; the first address of the host that is one.\<close>

definition To4 :: "nat list \<Rightarrow> nat list option" where
  "To4 ip =
     (if length ip = 4 then Some ip
      else if length ip = 16 \<and> take 10 ip = replicate 10 0 \<and> ip ! 10 = 255 \<and> ip ! 11 = 255 then Some (drop 12 ip)
      else None)"

fun GetIPAddress :: "nat list list \<Rightarrow> nat list option" where
  "GetIPAddress [] = None"
| "GetIPAddress (addr # addrs) = (case To4 addr of None \<Rightarrow> GetIPAddress addrs | Some ipv4 \<Rightarrow> Some ipv4)"

fun ip_text :: "nat list \<Rightarrow> string" where
  "ip_text [] = []"
| "ip_text [n] = nat_text n"
| "ip_text (n # ns) = nat_text n @ ''.'' @ ip_text ns"

datatype registrar_choice = UseLocal | UseGateway string

text \<open>\<open>redis_up\<close>: the ping of Redis succeeds. An error ends the process.\<close>

definition configureConnectionRegistrar :: "bool \<Rightarrow> nat list list \<Rightarrow> Config \<Rightarrow> string + registrar_choice" where
  "configureConnectionRegistrar redis_up addrs cfg =
     (let impl = to_lower (cfg_GatewayConnectionRegistrarImpl cfg) in
      if impl = ''redis'' then
        (if \<not> redis_up then Inl ''Unable to connect to redis''
         else (case GetIPAddress addrs of
             None \<Rightarrow> Inl ''Unable to determine IP address''
           | Some ipAddr \<Rightarrow> Inr (UseGateway (ip_text ipAddr))))
      else if impl = ''local'' then Inr UseLocal
      else Inl (''Invalid configuration value for '' @ key_name GATEWAY_CONNECTION_REGISTRAR_IMPL @ ''!''))"

text \<open>On shutdown every connection of the process is closed; \<open>close\<close> is the client's \<open>Close\<close>.\<close>

definition closeConnections :: "('c \<Rightarrow> 'st \<Rightarrow> 'st) \<Rightarrow> 'c LocalConnectionManager \<Rightarrow> 'st \<Rightarrow> 'st" where
  "closeConnections close cm st =
     foldl (\<lambda>st (_, conn). foldl (\<lambda>st (_, client). close client st) st conn) st (Local_GetAllConnections cm)"

definition verifyConfiguration :: "Config \<Rightarrow> string option" where
  "verifyConfiguration cfg =
     (if cfg_JobReceiverReceptorProxyClientID cfg = []
      then Some (key_name JOB_RECEIVER_RECEPTOR_PROXY_CLIENT_ID @ '' configuration missing'')
      else if cfg_JobReceiverReceptorProxyPSK cfg = []
      then Some (key_name JOB_RECEIVER_RECEPTOR_PROXY_PSK @ '' configuration missing'')
      else None)"

text \<open>\<open>ping\<close> is the error of pinging the server with the options of a client.\<close>

record redis_options =
  ro_Addr :: string
  ro_Password :: string
  ro_DB :: int

definition initRedis :: "(redis_options \<Rightarrow> string option) \<Rightarrow> Config \<Rightarrow> string + redis_options" where
  "initRedis ping cfg =
     (let client = \<lparr>ro_Addr = cfg_RedisHost cfg @ '':'' @ cfg_RedisPort cfg, ro_Password = cfg_RedisPassword cfg, ro_DB = cfg_RedisDB cfg\<rparr>
      in case ping client of Some err \<Rightarrow> Inl err | None \<Rightarrow> Inr client)"

text \<open>The start of the two services up to the HTTP servers: the addresses they listen on, which Clowder's ports
  replace, and what they need, or the message they end with.\<close>

definition listen_addr :: "int option \<Rightarrow> string \<Rightarrow> string" where
  "listen_addr clowderPort addr = (case clowderPort of None \<Rightarrow> addr | Some port \<Rightarrow> '':'' @ int_text port)"

definition job_receiver_start ::
  "string \<Rightarrow> int option \<Rightarrow> (redis_options \<Rightarrow> string option) \<Rightarrow> Config \<Rightarrow> string + string \<times> redis_options" where
  "job_receiver_start mgmtAddr privatePort ping cfg =
     (case verifyConfiguration cfg of
        Some err \<Rightarrow> Inl (''Configuration error encountered during startup: '' @ err)
      | None \<Rightarrow>
          (case initRedis ping cfg of
             Inl err \<Rightarrow> Inl (''Unable to connect to Redis: '' @ err)
           | Inr redisClient \<Rightarrow> Inr (listen_addr privatePort mgmtAddr, redisClient)))"

definition gateway_start ::
  "(string \<Rightarrow> string + bytes) \<Rightarrow> (string \<Rightarrow> string \<Rightarrow> string option) \<Rightarrow> bool \<Rightarrow> nat list list \<Rightarrow> string \<Rightarrow> string \<Rightarrow>
   (int \<times> int) option \<Rightarrow> Config \<Rightarrow> string + string \<times> string \<times> kafka_writer \<times> ConsumerConfig \<times> registrar_choice" where
  "gateway_start readFile scram redis_up addrs wsAddr mgmtAddr ports cfg =
     (case StartProducer readFile scram (gateway_producer cfg) of
        Inl err \<Rightarrow> Inl (''Unable to start kafka producer: '' @ err)
      | Inr kw \<Rightarrow>
          (case configureConnectionRegistrar redis_up addrs cfg of
             Inl err \<Rightarrow> Inl err
           | Inr gatewayCR \<Rightarrow>
               Inr (listen_addr (map_option fst ports) wsAddr, listen_addr (map_option snd ports) mgmtAddr, kw,
                 gateway_consumer cfg, gatewayCR)))"

text \<open>The routes of the gateway's management port and of the job receiver, which share the handlers and
  differ in the connections they see.\<close>

definition gateway_routes ::
  "(string \<Rightarrow> string + bytes) \<Rightarrow> string \<Rightarrow> Config \<Rightarrow> (http_request \<Rightarrow> http_response + http_request) \<Rightarrow> (goany \<Rightarrow> bool) \<Rightarrow>
   ('u \<Rightarrow> string) \<Rightarrow> ('c, 'u, 'st) backend \<Rightarrow> 'st handler \<Rightarrow> 'st handler \<Rightarrow> 'st route list" where
  "gateway_routes readFile spec cfg enforce present uuid_String localCM metrics debug =
     ApiSpecServer_Routes readFile spec @
     ManagementServer_Routes (cfg_ServiceToServiceCredentials cfg) enforce localCM @
     JobReceiver_Routes (cfg_ServiceToServiceCredentials cfg) enforce present uuid_String localCM @
     MonitoringServer_Routes cfg metrics debug"

definition job_receiver_routes ::
  "Config \<Rightarrow> (http_request \<Rightarrow> http_response + http_request) \<Rightarrow> (goany \<Rightarrow> bool) \<Rightarrow> ('u \<Rightarrow> string) \<Rightarrow>
   ('c, 'u, 'st) backend \<Rightarrow> 'st handler \<Rightarrow> 'st handler \<Rightarrow> 'st route list" where
  "job_receiver_routes cfg enforce present uuid_String connectionLocator metrics debug =
     MonitoringServer_Routes cfg metrics debug @
     ManagementServer_Routes (cfg_ServiceToServiceCredentials cfg) enforce connectionLocator @
     JobReceiver_Routes (cfg_ServiceToServiceCredentials cfg) enforce present uuid_String connectionLocator"

subsection \<open>Facts\<close>

text \<open>The texts that are logged at start do not depend on the user name and password of the broker.\<close>

lemma ProducerConfig_String_hides:
  "ProducerConfig_String (c\<lparr>pc_SaslConfig := Some (s\<lparr>sc_SaslUsername := u, sc_SaslPassword := p\<rparr>)\<rparr>) =
   ProducerConfig_String (c\<lparr>pc_SaslConfig := Some s\<rparr>)"
  by (simp add: ProducerConfig_String_def sasl_text_def SaslConfig_String_def)

lemma ConsumerConfig_String_hides:
  "ConsumerConfig_String (c\<lparr>cc_SaslConfig := Some (s\<lparr>sc_SaslUsername := u, sc_SaslPassword := p\<rparr>)\<rparr>) =
   ConsumerConfig_String (c\<lparr>cc_SaslConfig := Some s\<rparr>)"
  by (simp add: ConsumerConfig_String_def sasl_text_def SaslConfig_String_def)

text \<open>The dispatcher sends the decodable messages under its key up to the first error of the reader, in
  their order.\<close>

lemma StartDispatchingMessages_eq:
  "StartDispatchingMessages unmarshal md reads =
   List.map_filter (\<lambda>r. case r of Some (key, value) \<Rightarrow> if key = GetKey md then unmarshal value else None | None \<Rightarrow> None)
     (takeWhile (\<lambda>r. r \<noteq> None) reads)"
  by (induction unmarshal md reads rule: StartDispatchingMessages.induct) (auto simp: List.map_filter_def split: option.splits)

text \<open>A registrar with Redis always has the text of an IPv4 address as its name.\<close>

lemma GetIPAddress_Some: "GetIPAddress addrs = Some ip \<Longrightarrow> length ip = 4"
  by (induction addrs) (auto simp: To4_def split: option.splits if_splits)

text \<open>The counting middleware changes neither the response nor the state of the handler.\<close>

lemma RecordHTTPMetrics_transparent:
  "map_prod id fst (RecordHTTPMetrics next req (st, counters)) = next req st"
  by (simp add: RecordHTTPMetrics_def Let_def split: prod.split option.split)

text \<open>A gateway that starts with Redis has an IPv4 address as its host name, and its Kafka writer uses SASL exactly
  if a mechanism is configured.\<close>

lemma gateway_start_ok:
  assumes "gateway_start readFile scram redis_up addrs wsAddr mgmtAddr ports cfg = Inr (ws, mgmt, kw, kc, choice)"
  shows "(choice = UseLocal \<and> to_lower (cfg_GatewayConnectionRegistrarImpl cfg) = ''local'' \<or>
      (\<exists>ip. choice = UseGateway (ip_text ip) \<and> length ip = 4 \<and> redis_up)) \<and>
    (kw_Dialer kw = DefaultDialer \<longleftrightarrow> cfg_KafkaSaslMechanism cfg = [])"
  using assms GetIPAddress_Some
  by (auto simp: gateway_start_def configureConnectionRegistrar_def StartProducer_def createDialer_def gateway_producer_def
      buildKafkaSaslConfig_def Let_def split: sum.splits if_splits option.splits)

text \<open>A job receiver that starts has both parts of the credentials it presents to the gateways.\<close>

lemma job_receiver_start_ok:
  assumes "job_receiver_start mgmtAddr privatePort ping cfg = Inr x"
  shows "cfg_JobReceiverReceptorProxyClientID cfg \<noteq> [] \<and> cfg_JobReceiverReceptorProxyPSK cfg \<noteq> []"
  using assms by (auto simp: job_receiver_start_def verifyConfiguration_def split: if_splits)

text \<open>The closing of connections reaches every client the manager holds.\<close>

lemma closeConnections_eq:
  "closeConnections (\<lambda>c cs. cs @ [c]) cm [] = concat (map (\<lambda>(_, nodes). map snd nodes) (Local_GetAllConnections cm))"
proof -
  have inner: "foldl (\<lambda>st (_, client). st @ [client]) st conn = st @ map snd conn" for st :: "'a list" and conn :: "(string \<times> 'a) list"
    by (induction conn arbitrary: st) auto
  have "foldl (\<lambda>st (_, conn). foldl (\<lambda>st (_, client). st @ [client]) st conn) st m =
      st @ concat (map (\<lambda>(_, nodes). map snd nodes) m)"
    for st :: "'a list" and m :: "(string \<times> (string \<times> 'a) list) list"
    by (induction m arbitrary: st) (auto simp: inner)
  then show ?thesis by (simp add: closeConnections_def)
qed

lemma Local_GetConnection_iff:
  assumes "lcm_ok cm"
  shows "Local_GetConnection cm a n = Some c \<longleftrightarrow> (\<exists>nodes. (a, nodes) \<in> set (connections cm) \<and> (n, c) \<in> set nodes)"
proof -
  have inner: "map_of nodes n = Some c \<longleftrightarrow> (n, c) \<in> set nodes" if "(a, nodes) \<in> set (connections cm)" for nodes
    using assms that gomap_range [of nodes n c] by (auto simp: lcm_ok_def)
  have outer: "map_of (connections cm) a = Some nodes \<longleftrightarrow> (a, nodes) \<in> set (connections cm)" for nodes
    using assms gomap_range [of "connections cm" a nodes] by (simp add: lcm_ok_def)
  have "Local_GetConnection cm a n = Some c \<longleftrightarrow> (\<exists>nodes. map_of (connections cm) a = Some nodes \<and> map_of nodes n = Some c)"
    by (simp add: Local_GetConnection_def split: option.split)
  then show ?thesis using inner outer by metis
qed

lemma closeConnections_all:
  assumes "lcm_ok cm"
  shows "c \<in> set (closeConnections (\<lambda>c cs. cs @ [c]) cm []) \<longleftrightarrow> (\<exists>a n. Local_GetConnection cm a n = Some c)"
proof -
  have "c \<in> set (closeConnections (\<lambda>c cs. cs @ [c]) cm []) \<longleftrightarrow>
      (\<exists>p \<in> set (connections cm). c \<in> snd ` set (snd p))"
    by (auto simp: closeConnections_eq Local_GetAllConnections_eq [OF assms] split_beta)
  also have "\<dots> \<longleftrightarrow> (\<exists>a nodes n. (a, nodes) \<in> set (connections cm) \<and> (n, c) \<in> set nodes)"
    by (simp add: image_iff Bex_def)
  finally show ?thesis unfolding Local_GetConnection_iff [OF assms] by blast
qed

end
