(* ===== verification/Cleaner.thy ===== *)
theory Cleaner
  imports Gateway
begin

text \<open>
  The two command line programs on the registry: the connection cleaner
  (\<open>cmd/connection_cleaner/main.go\<close>), a periodic job that removes the connections of pods that are
  gone, and \<open>cmd/connection_util/main.go\<close>, which registers, unregisters or looks up one connection.
  Printing and the push of the metric are left out; the cleaner returns the value of its counter.
\<close>

subsection \<open>The cleaner\<close>

definition cleaner_getRunningPods :: "(string \<Rightarrow> string list option) \<Rightarrow> string \<Rightarrow> (string, bool) gomap option" where
  "cleaner_getRunningPods dns dnsName =
     (case dns dnsName of
        None \<Rightarrow> None
      | Some hostnames \<Rightarrow> Some (foldl (\<lambda>m e. AList.update e True m) [] hostnames))"

text \<open>The result says whether the counter was incremented.\<close>

definition processConnection ::
  "bool \<Rightarrow> (string, bool) gomap \<Rightarrow> string \<Rightarrow> string \<Rightarrow> string \<Rightarrow> ('s, bool) prog" where
  "processConnection dryRun runningPods account nodeID podName =
     (if map_of runningPods podName = None then
        (if \<not> dryRun then pbind (UnregisterWithRedis account nodeID podName) (\<lambda>_. Ret True)
         else Ret False)
      else Ret False)"

fun cleaner_nodes ::
  "bool \<Rightarrow> (string, bool) gomap \<Rightarrow> string \<Rightarrow> (string, string) gomap \<Rightarrow> nat \<Rightarrow> ('s, nat) prog" where
  "cleaner_nodes dryRun runningPods account [] count = Ret count"
| "cleaner_nodes dryRun runningPods account ((nodeID, podName) # rest) count =
     pbind (processConnection dryRun runningPods account nodeID podName) (\<lambda>inc.
       cleaner_nodes dryRun runningPods account rest (if inc then Suc count else count))"

fun cleaner_accounts ::
  "bool \<Rightarrow> (string, bool) gomap \<Rightarrow> (string, (string, string) gomap) gomap \<Rightarrow> nat \<Rightarrow> ('s, nat) prog" where
  "cleaner_accounts dryRun runningPods [] count = Ret count"
| "cleaner_accounts dryRun runningPods ((account, value) # rest) count =
     pbind (cleaner_nodes dryRun runningPods account value count) (\<lambda>count.
       cleaner_accounts dryRun runningPods rest count)"

definition cleaner_main ::
  "(string \<Rightarrow> string list option) \<Rightarrow> string \<Rightarrow> bool \<Rightarrow> ('s, (string, nat) outcome) prog" where
  "cleaner_main dns podName dryRun =
     (case cleaner_getRunningPods dns podName of
        None \<Rightarrow> Ret (Err ''Unable to locate running pods'')
      | Some runningPods \<Rightarrow>
          pbind GetAllRedisConnections (\<lambda>all.
            case all of
              Err e \<Rightarrow> Ret (Err ''Error getting connection list from redis'')
            | Panic \<Rightarrow> Ret Panic
            | Ok allConnections \<Rightarrow>
                pbind (cleaner_accounts dryRun runningPods allConnections 0) (\<lambda>count. Ret (Ok count))))"

subsection \<open>The utility\<close>

text \<open>\<open>Err\<close> is the fatal exit for a missing parameter; a lookup prints its result.\<close>

definition connection_util ::
  "string \<Rightarrow> string \<Rightarrow> string \<Rightarrow> string \<Rightarrow> ('s, (string, (string \<times> redis_err option) option) outcome) prog" where
  "connection_util action accountNumber nodeID ipAddr =
     (if action = ''register'' then
        (if accountNumber = [] \<or> nodeID = [] \<or> ipAddr = [] then Ret (Err ''Required parameters: account, node-id, ip'')
         else pbind (RegisterWithRedis accountNumber nodeID ipAddr) (\<lambda>_. Ret (Ok None)))
      else if action = ''unregister'' then
        (if accountNumber = [] \<or> nodeID = [] \<or> ipAddr = [] then Ret (Err ''Required parameters: account, node-id, ip'')
         else pbind (UnregisterWithRedis accountNumber nodeID ipAddr) (\<lambda>_. Ret (Ok None)))
      else if action = ''list'' then
        (if accountNumber = [] \<or> nodeID = [] then Ret (Err ''Required parameters: account, node-id'')
         else pbind (GetRedisConnection accountNumber nodeID) (\<lambda>r. Ret (Ok (Some r))))
      else Ret (Ok None))"

subsection \<open>The cleaner's loops\<close>

text \<open>The two loops visit the entries of a list.\<close>

fun clean_entries ::
  "bool \<Rightarrow> (string, bool) gomap \<Rightarrow> (string \<times> string \<times> string) list \<Rightarrow> nat \<Rightarrow> ('s, nat) prog" where
  "clean_entries dry pods [] count = Ret count"
| "clean_entries dry pods ((a, n, h) # es) count =
     pbind (processConnection dry pods a n h) (\<lambda>inc. clean_entries dry pods es (if inc then Suc count else count))"

definition entries :: "(string, (string, string) gomap) gomap \<Rightarrow> (string \<times> string \<times> string) list" where
  "entries m = concat (map (\<lambda>(a, nodes). map (\<lambda>(n, h). (a, n, h)) nodes) m)"

lemma clean_entries_append:
  "clean_entries dry pods (es @ es') count =
     pbind (clean_entries dry pods es count) (\<lambda>count. clean_entries dry pods es' count)"
  by (induction es arbitrary: count) (auto simp: pbind_assoc)

lemma cleaner_nodes_eq:
  "cleaner_nodes dry pods a nodes count = clean_entries dry pods (map (\<lambda>(n, h). (a, n, h)) nodes) count"
  by (induction nodes arbitrary: count) auto

lemma cleaner_accounts_eq: "cleaner_accounts dry pods m = clean_entries dry pods (entries m)"
proof (induction m)
  case (Cons x m)
  show ?case
    by (rule ext, cases x) (simp add: Cons.IH entries_def cleaner_nodes_eq clean_entries_append)
qed (auto simp: entries_def)

lemma run_clean_entries_dry: "run ex (clean_entries True pods es k) s w = (k, s, w)"
  by (induction es) (auto simp: processConnection_def)

text \<open>What is left of a registry when the entries of a list that are at pods which are not running are
  removed.\<close>

definition cleaned :: "string set \<Rightarrow> (string \<times> string \<times> string) list \<Rightarrow> registry_spec \<Rightarrow> registry_spec" where
  "cleaned hosts es R = (\<lambda>(a, n). if \<exists>h. (a, n, h) \<in> set es \<and> h \<notin> hosts then None else R (a, n))"

context reliable_redis
begin

lemma run_clean_entries:
  assumes "registry (view w) R" "\<forall>(a, n, h) \<in> set es. R (a, n) = Some h" "distinct (map (\<lambda>(a, n, h). (a, n)) es)"
    "\<forall>h. map_of pods h = None \<longleftrightarrow> h \<notin> hosts"
    "run exec (clean_entries False pods es k) s w = (k', s', w')"
  shows "s' = s \<and> k' = k + length (filter (\<lambda>(a, n, h). h \<notin> hosts) es) \<and> registry (view w') (cleaned hosts es R)"
  using assms(1-3,5)
proof (induction es arbitrary: R k w)
  case Nil
  have "cleaned hosts [] R = R" by (auto simp: cleaned_def)
  with Nil show ?case by simp
next
  case (Cons e es)
  obtain a n h where e: "e = (a, n, h)" by (cases e)
  have R: "R (a, n) = Some h" using Cons.prems(2) by (simp add: e)
  have notin: "(a, n, h') \<notin> set es" for h' using Cons.prems(3) by (force simp: e)
  show ?case
  proof (cases "h \<in> hosts")
    case True
    then have "cleaned hosts (e # es) R = cleaned hosts es R" using notin by (intro ext) (auto simp: cleaned_def e)
    moreover have "run exec (clean_entries False pods es k) s w = (k', s', w')"
      using Cons.prems(4) True assms(4) by (simp add: e processConnection_def)
    ultimately show ?thesis
      using Cons.IH [of w R k] Cons.prems(1-3) True by (simp add: e)
  next
    case False
    obtain u s1 w1 where r: "run exec (UnregisterWithRedis a n h) s w = (u, s1, w1)" using prod_cases3 by blast
    have w1: "s1 = s" "registry (view w1) (R((a, n) := None))"
      using run_UnregisterWithRedis [OF r] registry_unregistered [OF Cons.prems(1) R] by auto
    have cl: "cleaned hosts (e # es) R = cleaned hosts es (R((a, n) := None))"
      using False by (intro ext) (auto simp: cleaned_def e)
    have run: "run exec (clean_entries False pods es (Suc k)) s w1 = (k', s', w')"
      using Cons.prems(4) False assms(4) r w1(1) by (simp add: e processConnection_def)
    have es: "\<forall>(a', n', h') \<in> set es. (R((a, n) := None)) (a', n') = Some h'"
      using Cons.prems(2) notin by (auto simp: e)
    have "distinct (map (\<lambda>(a, n, h). (a, n)) es)" using Cons.prems(3) by simp
    from Cons.IH [OF w1(2) es this run] show ?thesis using False unfolding cl by (simp add: e fun_upd_def)
  qed
qed

end

text \<open>The listing the cleaner works on has each key once.\<close>

definition listing_ok :: "(string, (string, string) gomap) gomap \<Rightarrow> bool" where
  "listing_ok m \<longleftrightarrow> gomap_ok m \<and> (\<forall>(a, nodes) \<in> set m. gomap_ok nodes)"

lemma listing_ok_update:
  assumes "listing_ok m" "gomap_ok nodes"
  shows "listing_ok (AList.update a nodes m)"
proof -
  have "set (AList.update a nodes m) \<subseteq> insert (a, nodes) (set m)"
    by (induction m) auto
  with assms show ?thesis unfolding listing_ok_def by (fastforce simp: distinct_update)
qed

lemma allConnectionsMap_ok: "allConnectionsMap l m0 = Ok m \<Longrightarrow> listing_ok m0 \<Longrightarrow> listing_ok m"
proof (induction l arbitrary: m0)
  case (Cons x l)
  have inner: "gomap_ok nodes" if "map_of m0 a = Some nodes" for a nodes
    using Cons.prems(2) map_of_SomeD [OF that] by (auto simp: listing_ok_def)
  from Cons.prems obtain a n h rest where x: "split_on (CHR '':'') x = a # n # h # rest"
    by (auto split: list.splits)
  show ?case
  proof (cases "map_of m0 a")
    case None
    have "listing_ok (AList.update a [(n, h)] m0)" using Cons.prems(2) by (simp add: listing_ok_update)
    with Cons None x show ?thesis by simp
  next
    case (Some nodes)
    have "listing_ok (AList.update a (AList.update n h nodes) m0)"
      using Cons.prems(2) inner [OF Some] by (simp add: listing_ok_update distinct_update)
    with Cons Some x show ?thesis by simp
  qed
qed simp

lemma entries_lookup:
  "listing_ok m \<Longrightarrow> (a, n, h) \<in> set (entries m) \<longleftrightarrow> nested_lookup m (a, n) = Some h"
proof -
  assume ok: "listing_ok m"
  have "(a, n, h) \<in> set (entries m) \<longleftrightarrow> (\<exists>nodes. (a, nodes) \<in> set m \<and> (n, h) \<in> set nodes)"
    by (auto simp: entries_def)
  also have "\<dots> \<longleftrightarrow> nested_lookup m (a, n) = Some h"
    using ok by (fastforce simp: listing_ok_def nested_lookup_pair split: option.splits)
  finally show ?thesis .
qed

lemma entries_distinct: "listing_ok m \<Longrightarrow> distinct (map (\<lambda>(a, n, h). (a, n)) (entries m))"
proof (induction m)
  case (Cons x m)
  obtain a nodes where x: "x = (a, nodes)" by (cases x)
  have keys: "map (\<lambda>(a, n, h). (a, n)) (map (\<lambda>(n, h). (a, n, h)) nodes) = map (Pair a) (map fst nodes)"
    by (auto simp: comp_def)
  have "distinct (map fst nodes)" using Cons.prems by (simp add: listing_ok_def x)
  then have "distinct (map (\<lambda>(a, n, h). (a, n)) (map (\<lambda>(n, h). (a, n, h)) nodes))"
    unfolding keys by (subst distinct_map) (simp add: inj_on_def)
  moreover have "a' \<noteq> a" if "(a', n', h') \<in> set (entries m)" for a' n' h'
    using that Cons.prems by (force simp: entries_def listing_ok_def x)
  moreover have "distinct (map (\<lambda>(a, n, h). (a, n)) (entries m))"
    using Cons by (simp add: listing_ok_def)
  ultimately show ?case by (fastforce simp: entries_def x)
qed (simp add: entries_def)

subsection \<open>Properties\<close>

lemma cleaned_all:
  "listing_ok m \<Longrightarrow> nested_lookup m = R \<Longrightarrow>
   cleaned hosts (entries m) R = (\<lambda>p. case R p of Some h \<Rightarrow> if h \<in> hosts then Some h else None | None \<Rightarrow> None)"
  by (auto simp: cleaned_def entries_lookup fun_eq_iff split: option.splits)

context reliable_redis
begin

lemma run_GetAll_listing:
  assumes "registry (view w) R"
  obtains m w1 where "run exec GetAllRedisConnections s w = (Ok m, s, w1)" "view w1 = view w"
    "nested_lookup m = R" "listing_ok m"
proof -
  obtain r w0 where e: "exec w (SMembers allConnectionsKey) = (r, w0)" by fastforce
  obtain res s1 w1 where run: "run exec GetAllRedisConnections s w = (res, s1, w1)" using prod_cases3 by blast
  have "valid_registry R" "set_at (view w) allConnectionsKey = Some (all_index R)"
    using assms by (auto simp: registry_def)
  from run_GetAllRedisConnections [OF this run] obtain m
    where m: "s1 = s" "view w1 = view w" "res = Ok m" "nested_lookup m = R" by blast
  have "allConnectionsMap (fst (list_Result r)) [] = Ok m"
    using run e m(3) by (auto simp: GetAllRedisConnections_def split: prod.splits option.splits)
  then have "listing_ok m" by (rule allConnectionsMap_ok) (simp add: listing_ok_def)
  with m run that show thesis by blast
qed

end

text \<open>Property C25. When the pods are known and the server answers, the cleaner leaves in the registry
  exactly the connections at running pods, in key, value and indexes, and counts the ones it
  removed. A dry run changes nothing.\<close>

theorem cleaner_removes_stale:
  assumes "reliable_redis ex view" "registry (view w) R" "dns pod = Some hosts"
    "run ex (cleaner_main dns pod dryRun) s w = (res, s', w')"
  shows "if dryRun then res = Ok 0 \<and> registry (view w') R
    else (\<exists>k. res = Ok k) \<and>
      registry (view w') (\<lambda>p. case R p of Some h \<Rightarrow> if h \<in> set hosts then Some h else None | None \<Rightarrow> None)"
proof -
  obtain m w1 where m: "run ex GetAllRedisConnections s w = (Ok m, s, w1)" "view w1 = view w"
    "nested_lookup m = R" "listing_ok m"
    by (rule reliable_redis.run_GetAll_listing [OF assms(1,2)])
  obtain pods where pods: "cleaner_getRunningPods dns pod = Some pods" "\<forall>h. map_of pods h = None \<longleftrightarrow> h \<notin> set hosts"
    using assms(3) by (simp add: cleaner_getRunningPods_def pods_lookup)
  obtain k s2 w2 where run: "run ex (clean_entries dryRun pods (entries m) 0) s w1 = (k, s2, w2)" using prod_cases3 by blast
  then have res: "res = Ok k" "w' = w2"
    using assms(4) m(1) pods(1) by (auto simp: cleaner_main_def cleaner_accounts_eq)
  show ?thesis
  proof (cases dryRun)
    case True
    with run have "k = 0" "w2 = w1" by (auto simp: run_clean_entries_dry)
    with res m(2) assms(2) True show ?thesis by simp
  next
    case False
    have w1: "registry (view w1) R" "\<forall>(a, n, h) \<in> set (entries m). R (a, n) = Some h"
      using assms(2) m entries_lookup by auto
    have run': "run ex (clean_entries False pods (entries m) 0) s w1 = (k, s2, w2)" using run False by simp
    have "registry (view w2) (cleaned (set hosts) (entries m) R)"
      using reliable_redis.run_clean_entries [OF assms(1) w1 entries_distinct [OF m(4)] pods(2) run'] by simp
    then show ?thesis using res False cleaned_all [OF m(4,3), of "set hosts"] by simp
  qed
qed

theorem cleaner_removes_stale_witness:
  "\<exists>k w'. run mem_exec (cleaner_main (\<lambda>_. Some [''10.0.0.2'']) ''pods'' False) () sample_world = (Ok k, (), w') \<and>
     registry (mem_view w') Map.empty"
proof -
  obtain res w' where r: "run mem_exec (cleaner_main (\<lambda>_. Some [''10.0.0.2'']) ''pods'' False) () sample_world = (res, (), w')"
    by (cases "run mem_exec (cleaner_main (\<lambda>_. Some [''10.0.0.2'']) ''pods'' False) () sample_world") auto
  have "(\<lambda>p. case sample_R p of Some h \<Rightarrow> if h \<in> set [''10.0.0.2''] then Some h else None | None \<Rightarrow> None) = Map.empty"
    by (auto simp: sample_R_def fun_eq_iff)
  with cleaner_removes_stale [OF mem.reliable_redis_axioms sample_registry _ r, of "[''10.0.0.2'']"] r
  show ?thesis by auto
qed

definition colon_world :: mem_redis where
  "colon_world =
     snd (snd (run mem_exec
       (pbind (RegisterWithRedis ''01'' ''x:y'' ''10.0.0.1'') (\<lambda>_. RegisterWithRedis ''01'' ''x'' ''10.0.0.1'')) () []))"

text \<open>A node id with a colon is split in the wrong place. Two nodes of one account, \<open>x\<close>
  and \<open>x:y\<close>, are connected to the only pod, which is running; the cleaner takes the second for node
  \<open>x\<close> at pod \<open>y\<close> and removes the connection of the first.\<close>

lemma cleaner_removes_live_connection:
  "mem_present colon_world (getConnectionKey ''01'' ''x'') \<and>
   (case run mem_exec (cleaner_main (\<lambda>_. Some [''10.0.0.1'']) ''pods'' False) () colon_world of
      (res, s, w) \<Rightarrow> res = Ok 1 \<and> \<not> mem_present w (getConnectionKey ''01'' ''x''))"
  by code_simp

end
