(* ===== verification/Pod.thy ===== *)
theory Pod
  imports Reactor Cleaner
begin

text \<open>
  A gateway pod as a whole. The handlers of its connections use the registrar that keeps connections
  in the process and in Redis; the first part shows that it keeps the promises the reactor needs, however
  Redis behaves. The second part is the cluster: pods that come and go, register, unregister and refresh
  connections in one Redis, and the cleaner. Its invariant is that a pod that holds a connection is the
  one the registry names.
\<close>

subsection \<open>Reactors over the gateway registrar\<close>

text \<open>The state is that of the process and that of the outside world.\<close>

definition pod_Register ::
  "'w redis_exec \<Rightarrow> string \<Rightarrow> 'c gateway \<times> 'w \<Rightarrow> string \<Rightarrow> string \<Rightarrow> 'c \<Rightarrow> conn_error option \<times> 'c gateway \<times> 'w" where
  "pod_Register ex host s a n c = (case s of (g, w) \<Rightarrow> run ex (Gateway_Register host a n c) g w)"

definition pod_Unregister :: "'w redis_exec \<Rightarrow> string \<Rightarrow> 'c gateway \<times> 'w \<Rightarrow> string \<Rightarrow> string \<Rightarrow> 'c gateway \<times> 'w" where
  "pod_Unregister ex host s a n = (case s of (g, w) \<Rightarrow> snd (run ex (Gateway_Unregister host a n) g w))"

definition pod_get :: "'c gateway \<times> 'w \<Rightarrow> string \<Rightarrow> string \<Rightarrow> 'c option" where
  "pod_get s a n = Local_GetConnection (gw_local (fst s)) a n"

definition pod_env ::
  "'w redis_exec \<Rightarrow> string \<Rightarrow> (Message \<Rightarrow> string) \<Rightarrow> (goany list option list option \<Rightarrow> string) \<Rightarrow>
   (string list option \<Rightarrow> string) \<Rightarrow> (string \<Rightarrow> 'u option) \<Rightarrow> ('u, client gateway \<times> 'w) environment" where
  "pod_env ex host fmt fmt_edges fmt_seen uuid_Parse =
     \<lparr>env_fmt = fmt, env_fmt_edges = fmt_edges, env_fmt_seen = fmt_seen, env_uuid_Parse = uuid_Parse,
      env_reg = pod_Register ex host, env_unreg = pod_Unregister ex host\<rparr>"

lemma gw_registered_get:
  assumes "lcm_ok (gw_local g)" "Local_GetConnection (gw_local g) a n = None"
  shows "Local_GetConnection (gw_local (gw_registered g a n c)) a' n' =
    (if a' = a \<and> n' = n then Some c else Local_GetConnection (gw_local g) a' n')"
  using lcm.reg_new [OF assms] by (simp add: gw_registered_def)

lemma gw_unregistered_get:
  assumes "lcm_ok (gw_local g)"
  shows "Local_GetConnection (gw_local (gw_unregistered g a n)) a' n' =
    (if a' = a \<and> n' = n then None else Local_GetConnection (gw_local g) a' n')"
  using lcm.unreg_get [OF assms] by (simp add: gw_unregistered_def)

lemma gw_local_ok:
  assumes "lcm_ok (gw_local g)"
  shows "lcm_ok (gw_local (gw_registered g a n c))" "lcm_ok (gw_local (gw_unregistered g a n))"
  using lcm.reg_ok [OF assms] lcm.unreg_ok [OF assms] by (simp_all add: gw_registered_def gw_unregistered_def)

text \<open>However Redis behaves, the gateway's registrar keeps the contract.\<close>

interpretation pod: registrar "pod_Register ex host" "pod_Unregister ex host" pod_get "\<lambda>s. lcm_ok (gw_local (fst s))"
  for ex :: "'w redis_exec" and host :: string
proof unfold_locales
  fix s :: "'c gateway \<times> 'w" and a n c a' n' c'
  assume ok: "lcm_ok (gw_local (fst s))"
  obtain g w where s: "s = (g, w)" by fastforce
  obtain res g1 w1 where r: "run ex (Gateway_Register host a n c) g w = (res, g1, w1)" using prod_cases3 by blast
  obtain u g2 w2 where r2: "run ex (Gateway_Unregister host a n) g w = (u, g2, w2)" using prod_cases3 by blast
  note st = run_Gateway_Register_state [OF r ok [unfolded s fst_conv]] run_Gateway_Unregister_state [OF r2]
  show "lcm_ok (gw_local (fst (snd (pod_Register ex host s a n c))))"
    using st(1) ok by (auto simp: pod_Register_def s r gw_local_ok)
  show "lcm_ok (gw_local (fst (pod_Unregister ex host s a n)))"
    using st(2) ok by (simp add: pod_Unregister_def s r2 gw_local_ok)
  show "pod_get (pod_Unregister ex host s a n) a' n' = (if a' = a \<and> n' = n then None else pod_get s a' n')"
    using st(2) ok by (simp add: pod_Unregister_def pod_get_def s r2 gw_unregistered_get)
  assume "pod_get (snd (pod_Register ex host s a n c)) a' n' = Some c'" "pod_get s a' n' \<noteq> Some c'"
  then show "a' = a \<and> n' = n \<and> c' = c \<and> fst (pod_Register ex host s a n c) = None"
    using st(1) ok by (auto simp: pod_Register_def pod_get_def s r gw_registered_get gw_unregistered_get split: if_splits)
qed

interpretation pod_rx: reactor_manager "pod_env ex host fmt fmt_edges fmt_seen uuid_Parse" pod_get
    "\<lambda>s. lcm_ok (gw_local (fst s))"
  for ex host fmt fmt_edges fmt_seen uuid_Parse
  unfolding reactor_manager_def pod_env_def environment.simps by (rule pod.registrar_axioms)

text \<open>Property C11. With the registrar that also uses Redis, and however Redis and the other connections of the pod
  behave, a connection whose peer announces one node id has at most the entry for that node among the
  pod's connections, and none once its reactor has returned.\<close>

theorem pod_reactor_unregisters:
  assumes "(rx_step (pod_env ex host fmt fmt_edges fmt_seen uuid_Parse) pod_get peer hh)\<^sup>*\<^sup>* (new_rx t (g, w)) (pc, rd)"
    and "lcm_ok (gw_local g)" "\<forall>a n k. Local_GetConnection (gw_local g) a n \<noteq> Some (hh_conn hh, k)"
    and "\<forall>hi. peer (MHi hi) \<longrightarrow> hi_ID hi = n"
    and "Local_GetConnection (gw_local (fst (rx_mgr rd))) a' n' = Some (hh_conn hh, k)"
  shows "a' = hh_AccountNumber hh \<and> n' = n \<and> pc \<noteq> RxReturned"
proof -
  have "rx_inv pod_get (\<lambda>s. lcm_ok (gw_local (fst s))) hh n (pc, rd)"
    by (rule pod_rx.rx_inv_reachable [OF assms(1)]) (use assms(2-4) in \<open>auto simp: pod_get_def\<close>)
  with assms(5) show ?thesis unfolding rx_inv_def fst_conv snd_conv pod_get_def by blast
qed

definition sample_pod_env :: "(string, client gateway \<times> mem_redis) environment" where
  "sample_pod_env = pod_env mem_exec ''10.0.0.1'' (\<lambda>_. []) (\<lambda>_. []) (\<lambda>_. []) Some"

definition sample_pod_start :: "rx_pc \<times> (string, client gateway \<times> mem_redis) rx" where
  "sample_pod_start = new_rx sample_transport (new_gateway, [])"

definition sample_pod_done :: "rx_pc \<times> (string, client gateway \<times> mem_redis) rx" where
  "sample_pod_done = hd (Run_message sample_pod_env sample_hh None (sample_hi ''a'') (snd sample_pod_start))"

lemma sample_pod_runs:
  "Run_message sample_pod_env sample_hh None (sample_hi ''a'') (snd sample_pod_start) \<noteq> []"
  "tr_Ctx (rx_transport (snd sample_pod_start)) = None" "fst sample_pod_start = RxLoop" "fst sample_pod_done = RxLoop"
  "Local_GetConnection (gw_local (fst (rx_mgr (snd sample_pod_done)))) ''0001'' ''a'' = Some (7, 0)"
  by code_simp+

theorem pod_reactor_unregisters_witness:
  "\<exists>rd. (rx_step sample_pod_env pod_get (\<lambda>m. m = sample_hi ''a'') sample_hh)\<^sup>*\<^sup>* sample_pod_start (RxLoop, rd) \<and>
     Local_GetConnection (gw_local (fst (rx_mgr rd))) ''0001'' ''a'' = Some (hh_conn sample_hh, 0) \<and> RxLoop \<noteq> RxReturned"
proof -
  obtain rd where x: "sample_pod_done = (RxLoop, rd)" using sample_pod_runs(4) by (metis prod.collapse)
  have start: "sample_pod_start = (RxLoop, snd sample_pod_start)" using sample_pod_runs(3) by (metis prod.collapse)
  have "sample_pod_done \<in> set (Run_message sample_pod_env sample_hh None (sample_hi ''a'') (snd sample_pod_start))"
    unfolding sample_pod_done_def using sample_pod_runs(1) by simp
  then have "rx_step sample_pod_env pod_get (\<lambda>m. m = sample_hi ''a'') sample_hh sample_pod_start (RxLoop, rd)"
    using start x sample_pod_runs(2) rx_step.recv [of "\<lambda>m. m = sample_hi ''a''" "sample_hi ''a''" "snd sample_pod_start" None]
    by metis
  then have st: "(rx_step sample_pod_env pod_get (\<lambda>m. m = sample_hi ''a'') sample_hh)\<^sup>*\<^sup>* sample_pod_start (RxLoop, rd)" by blast
  have new: "lcm_ok (gw_local new_gateway)" "\<forall>a n k. Local_GetConnection (gw_local new_gateway) a n \<noteq> Some (hh_conn sample_hh, k)"
    "\<forall>hi. MHi hi = sample_hi ''a'' \<longrightarrow> hi_ID hi = ''a''"
    by (auto simp: new_gateway_def lcm_ok_def NewLocalConnectionManager_def Local_GetConnection_def sample_hi_def)
  have g: "Local_GetConnection (gw_local (fst (rx_mgr rd))) ''0001'' ''a'' = Some (hh_conn sample_hh, 0)"
    using sample_pod_runs(5) unfolding x by (simp add: sample_hh_def)
  from pod_reactor_unregisters [OF st [unfolded sample_pod_env_def sample_pod_start_def] new g] st g show ?thesis by blast
qed

subsection \<open>The cluster\<close>

text \<open>The pods that run, by their host name, and the outside world. A pod unregisters only what it holds; the
  active registrar of a connection ticks while it lives; the cleaner processes an entry of the
  registry with a list of pods that has every running one. A pod may end at any time and leave its
  entries behind, and one with the same name may start again.\<close>

type_synonym ('c, 'w) cluster = "(string \<rightharpoonup> 'c gateway) \<times> 'w"

inductive cluster_step :: "'w redis_exec \<Rightarrow> ('w \<Rightarrow> redis_view) \<Rightarrow> ('c, 'w) cluster \<Rightarrow> ('c, 'w) cluster \<Rightarrow> bool"
  for ex :: "'w redis_exec" and view :: "'w \<Rightarrow> redis_view" where
  pod_starts: "P h = None \<Longrightarrow> valid_host h \<Longrightarrow> cluster_step ex view (P, w) (P(h \<mapsto> new_gateway), w)"
| pod_ends: "cluster_step ex view (P, w) (P(h := None), w)"
| registers: "\<lbrakk>P h = Some g; valid_account a; valid_node n; run ex (Gateway_Register h a n c) g w = (res, g', w')\<rbrakk>
    \<Longrightarrow> cluster_step ex view (P, w) (P(h \<mapsto> g'), w')"
| unregisters: "\<lbrakk>P h = Some g; Local_GetConnection (gw_local g) a n \<noteq> None;
      run ex (Gateway_Unregister h a n) g w = (u, g', w')\<rbrakk>
    \<Longrightarrow> cluster_step ex view (P, w) (P(h \<mapsto> g'), w')"
| ticks: "\<lbrakk>P h = Some g; live g r;
      run ex (registrar_turn dns svc (ar_account r) (ar_nodeID r) h (ar_receptor r) Tick) g w = (cont, g', w')\<rbrakk>
    \<Longrightarrow> cluster_step ex view (P, w) (P(h \<mapsto> g'), w')"
| cleans: "\<lbrakk>\<forall>h'. P h' \<noteq> None \<longrightarrow> map_of pods h' \<noteq> None; valid_account a; valid_node n;
      view w (getConnectionKey a n) = Some (VStr h); run ex (processConnection dryRun pods a n h) () w = (b, u, w')\<rbrakk>
    \<Longrightarrow> cluster_step ex view (P, w) (P, w')"

text \<open>What a pod holds, the registry has under its name.\<close>

definition holds :: "(string \<rightharpoonup> 'c gateway) \<Rightarrow> registry_spec \<Rightarrow> bool" where
  "holds P R \<longleftrightarrow> (\<forall>h g. P h = Some g \<longrightarrow> valid_host h \<and> gw_ok g \<and>
     (\<forall>a n. Local_GetConnection (gw_local g) a n \<noteq> None \<longrightarrow> R (a, n) = Some h))"

definition cluster_inv :: "('w \<Rightarrow> redis_view) \<Rightarrow> ('c, 'w) cluster \<Rightarrow> bool" where
  "cluster_inv view s \<longleftrightarrow> (\<exists>R. registry (view (snd s)) R \<and> holds (fst s) R)"

lemma new_gateway_get: "Local_GetConnection (gw_local new_gateway) a n = None"
  by (simp add: new_gateway_def NewLocalConnectionManager_def Local_GetConnection_def)

lemma holds_update:
  assumes "holds P R" "P h = Some g" "gw_ok g'"
    and "\<And>a n. Local_GetConnection (gw_local g') a n \<noteq> None \<Longrightarrow> R' (a, n) = Some h"
    and "\<And>a n h'. h' \<noteq> h \<Longrightarrow> R (a, n) = Some h' \<Longrightarrow> R' (a, n) = Some h'"
  shows "holds (P(h \<mapsto> g')) R'"
  using assms unfolding holds_def by auto

lemma holdsD:
  assumes "holds P R" "P h = Some g"
  shows "valid_host h" "gw_ok g" "Local_GetConnection (gw_local g) a n \<noteq> None \<Longrightarrow> R (a, n) = Some h"
  using assms unfolding holds_def by blast+

context reliable_redis
begin

lemma cluster_registers:
  assumes "registry (view w) R" "holds P R" "P h = Some g" "valid_account a" "valid_node n"
    "run exec (Gateway_Register h a n c) g w = (res, g', w')"
  shows "cluster_inv view (P(h \<mapsto> g'), w')"
proof -
  note g = holdsD(1,2) [OF assms(2,3)]
  note reg = run_Gateway_Register [OF assms(1,4,5) g assms(6)]
  show ?thesis
  proof (cases "R (a, n)")
    case (Some h')
    then show ?thesis using reg(1) assms(2,3) by (auto simp: cluster_inv_def fun_upd_idem)
  next
    case None
    then have free: "Local_GetConnection (gw_local g) a n = None" using holdsD(3) [OF assms(2,3)] by force
    note new = reg(2) [OF None free]
    have "holds (P(h \<mapsto> gw_registered g a n c)) (R((a, n) \<mapsto> h))"
      using None gw_registered_get [OF gw_ok_local [OF g(2)] free] holdsD(3) [OF assms(2,3)]
      by (intro holds_update [OF assms(2,3) gw_ok_registered [OF g(2) assms(4) free]]) (auto split: if_splits)
    with new show ?thesis by (auto simp: cluster_inv_def)
  qed
qed

lemma cluster_unregisters:
  assumes "registry (view w) R" "holds P R" "P h = Some g" "Local_GetConnection (gw_local g) a n \<noteq> None"
    "run exec (Gateway_Unregister h a n) g w = (u, g', w')"
  shows "cluster_inv view (P(h \<mapsto> g'), w')"
proof -
  note g = holdsD(1,2) [OF assms(2,3)]
  have R: "R (a, n) = Some h" by (rule holdsD(3) [OF assms(2-4)])
  then have v: "valid_account a" "valid_node n" using assms(1) unfolding registry_def valid_registry_def by blast+
  have new: "g' = gw_unregistered g a n" "registry (view w') (R((a, n) := None))"
    using run_Gateway_Unregister [OF assms(1) v g(1) _ assms(5)] R by simp_all
  have "holds (P(h \<mapsto> gw_unregistered g a n)) (R((a, n) := None))"
    using R gw_unregistered_get [OF gw_ok_local [OF g(2)]] holdsD(3) [OF assms(2,3)]
    by (intro holds_update [OF assms(2,3) gw_ok_unregistered [OF g(2) v(1)]]) (auto split: if_splits)
  with new show ?thesis by (auto simp: cluster_inv_def)
qed

lemma ticks_leaves:
  assumes "registry (view w) R" "holds P R" "P h1 = Some g" "live g r"
    "run exec (registrar_turn dns svc (ar_account r) (ar_nodeID r) h1 (ar_receptor r) Tick) g w = (cont, g', w')"
  shows "registry (view w') R \<and> g' = g"
proof -
  note g = holdsD(1,2) [OF assms(2,3)]
  have R: "R (ar_account r, ar_nodeID r) = Some h1"
    using gw_okD(2) [OF g(2) assms(4)] by (intro holdsD(3) [OF assms(2,3)]) simp
  then have v: "valid_account (ar_account r)" "valid_node (ar_nodeID r)"
    using assms(1) unfolding registry_def valid_registry_def by blast+
  show ?thesis using run_registrar_tick [OF assms(1) v g(1) assms(5)] R by simp
qed

lemma cluster_ticks:
  assumes "registry (view w) R" "holds P R" "P h = Some g" "live g r"
    "run exec (registrar_turn dns svc (ar_account r) (ar_nodeID r) h (ar_receptor r) Tick) g w = (cont, g', w')"
  shows "cluster_inv view (P(h \<mapsto> g'), w')"
  using ticks_leaves [OF assms] assms(2,3) by (auto simp: cluster_inv_def fun_upd_idem)

lemma cluster_cleans:
  assumes "registry (view w) R" "holds P R" "\<forall>h'. P h' \<noteq> None \<longrightarrow> map_of pods h' \<noteq> None" "valid_account a" "valid_node n"
    "view w (getConnectionKey a n) = Some (VStr h)" "run exec (processConnection dryRun pods a n h) u0 w = (b, u, w')"
  shows "cluster_inv view (P, w')"
proof (cases "map_of pods h = None \<and> \<not> dryRun")
  case True
  have R: "R (a, n) = Some h" using assms(1,4-6) unfolding registry_def by auto
  obtain u1 s1 w1 where r: "run exec (UnregisterWithRedis a n h) u0 w = (u1, s1, w1)" using prod_cases3 by blast
  have "w' = w1" using assms(7) True r by (simp add: processConnection_def)
  then have "registry (view w') (R((a, n) := None))"
    using run_UnregisterWithRedis [OF r] registry_unregistered [OF assms(1) R] by simp
  moreover have "P h = None" using assms(3) True by blast
  then have "holds P (R((a, n) := None))" using assms(2) R unfolding holds_def by fastforce
  ultimately show ?thesis by (auto simp: cluster_inv_def)
next
  case False
  then show ?thesis using assms(1,2,7) by (auto simp: processConnection_def cluster_inv_def split: if_splits)
qed

lemma cluster_inv_step:
  assumes "cluster_step exec view s s'" "cluster_inv view s"
  shows "cluster_inv view s'"
proof -
  obtain R where R: "registry (view (snd s)) R" "holds (fst s) R" using assms(2) by (auto simp: cluster_inv_def)
  from assms(1) show ?thesis
  proof cases
    case (pod_starts P h w)
    have "holds (P(h \<mapsto> new_gateway)) R" using R(2) pod_starts by (auto simp: holds_def gw_ok_new new_gateway_get)
    with R pod_starts show ?thesis by (auto simp: cluster_inv_def)
  next
    case (pod_ends P w h)
    then have "holds (P(h := None)) R" using R(2) by (auto simp: holds_def)
    with R pod_ends show ?thesis by (auto simp: cluster_inv_def)
  next
    case (registers P h g a n c w res g' w')
    then show ?thesis using cluster_registers R by simp
  next
    case (unregisters P h g a n w u g' w')
    then show ?thesis using cluster_unregisters R by simp
  next
    case (ticks P h g r dns svc w cont g' w')
    then show ?thesis using cluster_ticks R by simp
  next
    case (cleans P pods a n w h dryRun b u w')
    then show ?thesis using cluster_cleans R by simp
  qed
qed

lemma cluster_inv_reachable:
  assumes "(cluster_step exec view)\<^sup>*\<^sup>* s s'" "cluster_inv view s"
  shows "cluster_inv view s'"
  using assms by (induction rule: rtranclp_induct) (auto intro: cluster_inv_step)

end



end
