(* ===== verification/Job_Flow.thy ===== *)
theory Job_Flow
  imports Platform Pod
begin

text \<open>
  The two services put together. The handlers of the API reach connections through the interfaces
  \<open>ConnectionLocator\<close> and \<open>Receptor\<close>, here the record \<open>backend\<close>. The gateway provides them with its local
  manager and the receptor services of its connections, the job receiver with the registry in Redis and
  proxies to the pods. A job posted to the job receiver ends in the send queue of the node's connection.
\<close>

subsection \<open>What the gateway provides\<close>

record 'u pod_api =
  pa_local :: "client LocalConnectionManager"
  pa_services :: "client \<Rightarrow> 'u ReceptorService"

text \<open>The circumstances of a call: the new identifier, the time, the caller's context, which of the ready
  communications the \<open>select\<close> statement takes, and the effect of a ping (theory \<open>Ping\<close>). A call with nothing
  ready lasts until its timeout.\<close>

record 'u circumstances =
  ci_newID :: "'u option"
  ci_now :: gotime
  ci_ctx :: ctx
  ci_select :: nat
  ci_ping :: "client \<Rightarrow> string \<Rightarrow> string \<Rightarrow> string list \<Rightarrow> 'u pod_api \<Rightarrow> (goany \<times> api_error option) \<times> 'u pod_api"

definition service_outcome :: "(service_error, 'a) outcome \<Rightarrow> (api_error, 'a) outcome" where
  "service_outcome res = (case res of Ok a \<Rightarrow> Ok a | Err e \<Rightarrow> Err (errService e) | Panic \<Rightarrow> Panic)"

definition pod_SendMessage ::
  "('u \<Rightarrow> string) \<Rightarrow> 'u circumstances \<Rightarrow> client \<Rightarrow> string \<Rightarrow> string \<Rightarrow> string list \<Rightarrow> goany \<Rightarrow> string \<Rightarrow> 'u pod_api \<Rightarrow>
   (api_error, 'u) outcome \<times> 'u pod_api" where
  "pod_SendMessage uuid_String ci c account recipient route payload directive s =
     (case drop (ci_select ci) (SendMessage uuid_String (ci_newID ci) (ci_now ci) (pa_services s c) (ci_ctx ci) account recipient
             (Some route) payload directive) of
        [] \<Rightarrow> (Err (errService requestTimedOut), s)
      | (res, r) # _ \<Rightarrow> (service_outcome res, s\<lparr>pa_services := (pa_services s)(c := r)\<rparr>))"

definition gateway_backend :: "('u \<Rightarrow> string) \<Rightarrow> 'u circumstances \<Rightarrow> (client, 'u, 'u pod_api) backend" where
  "gateway_backend uuid_String ci =
     \<lparr>be_GetConnection = (\<lambda>a n s. (Local_GetConnection (pa_local s) a n, s)),
      be_GetConnectionsByAccount = (\<lambda>a s.
        (Some (map (map_prod id Some) (Local_GetConnectionsByAccount (pa_local s) a)), s)),
      be_GetAllConnections = (\<lambda>s.
        (Some (map (map_prod id (map (map_prod id Some))) (Local_GetAllConnections (pa_local s))), s)),
      be_SendMessage = pod_SendMessage uuid_String ci,
      be_Ping = ci_ping ci,
      be_Close = (\<lambda>c s. s\<lparr>pa_services := (pa_services s)(c := snd (Close (pa_services s c)))\<rparr>),
      be_GetCapabilities = (\<lambda>c s. ((GetCapabilities (pa_services s c), None), s))\<rparr>"

subsection \<open>What the job receiver provides\<close>

text \<open>The state: that of the network with the pods behind it, and that of Redis.\<close>

definition locator_backend ::
  "'w redis_exec \<Rightarrow> 'st network \<Rightarrow> string \<Rightarrow> (string \<Rightarrow> 'u option) \<Rightarrow> Config \<Rightarrow> (ReceptorHttpProxy, 'u, 'st \<times> 'w) backend" where
  "locator_backend ex net requestId uuid_Parse cfg =
     \<lparr>be_GetConnection = (\<lambda>a n (st, w).
        case run ex (locator_GetConnection cfg a n) () w of (p, _, w') \<Rightarrow> (p, st, w')),
      be_GetConnectionsByAccount = (\<lambda>a (st, w).
        case run ex (locator_GetConnectionsByAccount cfg a) () w of
          (Ok m, _, w') \<Rightarrow> (Some m, st, w') | (_, _, w') \<Rightarrow> (None, st, w')),
      be_GetAllConnections = (\<lambda>(st, w).
        case run ex (locator_GetAllConnections cfg) () w of
          (Ok m, _, w') \<Rightarrow> (Some m, st, w') | (_, _, w') \<Rightarrow> (None, st, w')),
      be_SendMessage = (\<lambda>p a n route payload directive (st, w).
        case proxy_SendMessage net requestId uuid_Parse p a n route payload directive st of (res, st') \<Rightarrow> (res, st', w)),
      be_Ping = (\<lambda>p a n route (st, w).
        case proxy_Ping net requestId p a n route st of (res, st') \<Rightarrow> (res, st', w)),
      be_Close = (\<lambda>p (st, w). (snd (proxy_Close net requestId p st), w)),
      be_GetCapabilities = (\<lambda>p (st, w).
        case proxy_GetCapabilities net requestId p st of (res, st') \<Rightarrow> (res, st', w))\<rparr>"

subsection \<open>A job from the job receiver to the node's connection\<close>

lemma debug_path: "\<not> prefix ''/debug'' ''/job''"
  by simp

lemma serves_jobs:
  "serve other (gateway_routes readFile spec cfg enforce present uuid_String be metrics debug) ''/job'' =
     serve other (JobReceiver_Routes (cfg_ServiceToServiceCredentials cfg) enforce present uuid_String be) ''/job''"
  "serve other (job_receiver_routes cfg enforce present uuid_String be' metrics debug) ''/job'' =
     serve other (JobReceiver_Routes (cfg_ServiceToServiceCredentials cfg) enforce present uuid_String be') ''/job''"
  by (simp_all add: fun_eq_iff serve_def gateway_routes_def job_receiver_routes_def ApiSpecServer_Routes_def
      ManagementServer_Routes_def JobReceiver_Routes_def account_path_def MonitoringServer_Routes_def)

lemma locator_finds:
  assumes "reliable_redis ex view" "registry (view w) R" "R (a, n) = h" "valid_account a" "valid_node n"
    "run ex (locator_GetConnection cfg a n) s w = (p, s', w')"
  shows "registry (view w') R \<and>
    p = (case h of None \<Rightarrow> None
         | Some host \<Rightarrow> Some \<lparr>px_Hostname = host, px_AccountNumber = a, px_NodeID = n, px_Config = cfg\<rparr>)"
proof -
  obtain res s1 w1 where r: "run ex (GetRedisConnection a n) s w = (res, s1, w1)" using prod_cases3 by blast
  have "view w (getConnectionKey a n) = map_option VStr h" using assms(2-5) by (simp add: registry_def)
  note found = reliable_redis.run_GetRedisConnection [OF assms(1) r this]
  have "host \<noteq> []" if "h = Some host" for host
    using assms(2,3) that unfolding registry_def valid_registry_def valid_host_def by force
  then show ?thesis
    using assms(2,6) r found by (auto simp: locator_GetConnection_def split: option.splits)
qed

lemma pod_sends:
  assumes "rs_AccountNumber (pa_services s c) = account" "rs_Transport (pa_services s c) = Some t" "can_send (tr_Send t)"
    "ci_newID ci = Some u" "ci_select ci = 0"
  shows "pod_SendMessage uuid_String ci c account recipient route payload directive s =
    (Ok u, s\<lparr>pa_services := (pa_services s)(c := (pa_services s c)\<lparr>rs_Transport := Some (t\<lparr>tr_Send := push
       \<lparr>rmsg_AccountNumber = account, rmsg_Message = BuildPayloadMessage (ci_now ci) (uuid_String u)
          (rs_NodeID (pa_services s c)) recipient (Some route) ''directive'' directive payload\<rparr> (tr_Send t)\<rparr>)\<rparr>)\<rparr>)"
  using assms by (simp add: pod_SendMessage_def SendMessage_def service_sendMessage_def sendMessage_def service_outcome_def)

lemma decodeJSON_valid: "decodeJSON store valid body data = Ok q \<Longrightarrow> valid q"
  by (auto simp: decodeJSON_def split: option.splits json.splits if_splits)

text \<open>The proxy of a node whose connection is at a host.\<close>

abbreviation proxy_for :: "Config \<Rightarrow> string \<Rightarrow> jobRequest \<Rightarrow> ReceptorHttpProxy" where
  "proxy_for cfg host q \<equiv>
     \<lparr>px_Hostname = host, px_AccountNumber = jq_Account q, px_NodeID = jq_Recipient q, px_Config = cfg\<rparr>"

text \<open>The job receiver's handler, once the caller is known and the body is decoded.\<close>

lemma receiver_forwards:
  assumes redis: "reliable_redis ex view" "registry (view w) R" "R (jq_Account q, jq_Recipient q) = h"
    "valid_account (jq_Account q)" "valid_node (jq_Recipient q)"
    and caller: "rq_method r = ''POST''" "header_get (rq_headers r) identityHeader = []"
      "presents_key (cfg_ServiceToServiceCredentials jc) r"
      "decodeJSON (store_struct jobRequest_fields jobRequest_store) (jobRequest_valid present) (MaxBytesReader (rq_body r))
         new_jobRequest = Ok q"
  shows "\<exists>w'. registry (view w') R \<and>
    serve other (job_receiver_routes jc enforce present uuid_String (locator_backend ex net requestId uuid_Parse jc) metrics debug)
      ''/job'' r (st, w) =
    (case h of
       None \<Rightarrow> (Some writeConnectionFailureResponse, st, w')
     | Some host \<Rightarrow>
         (case proxy_SendMessage net requestId uuid_Parse (proxy_for jc host q) (jq_Account q) (jq_Recipient q) [jq_Recipient q]
                 (jq_Payload q) (jq_Directive q) st of
            (Panic, st') \<Rightarrow> (None, st', w')
          | (Err err, st') \<Rightarrow>
              if err = errDisconnectedNode then (Some writeConnectionFailureResponse, st', w')
              else (Some (error_response ''Error passing message to receptor'' 500 (api_error_text err)), st', w')
          | (Ok u, st') \<Rightarrow> (Some (writeJSONResponse 201 (jobResponse_json (uuid_String u))), st', w')))"
proof -
  obtain p s' w' where l: "run ex (locator_GetConnection jc (jq_Account q) (jq_Recipient q)) () w = (p, s', w')"
    using prod_cases3 by blast
  note found = locator_finds [OF redis l]
  have "be_GetConnection (locator_backend ex net requestId uuid_Parse jc) (jq_Account q) (jq_Recipient q) (st, w) = (p, st, w')"
    by (simp add: locator_backend_def l)
  with found show ?thesis
    using caller
    by (intro exI [of _ w'])
      (auto simp: serves_jobs job_serve Authenticate_token handleJob_def locator_backend_def l
        split: option.splits outcome.splits prod.splits)
qed

lemma job_unknown_node:
  assumes "reliable_redis ex view" "registry (view w) R" "R (jq_Account q, jq_Recipient q) = None"
    "valid_account (jq_Account q)" "valid_node (jq_Recipient q)"
    and "rq_method r = ''POST''" "header_get (rq_headers r) identityHeader = []"
      "presents_key (cfg_ServiceToServiceCredentials jc) r"
      "decodeJSON (store_struct jobRequest_fields jobRequest_store) (jobRequest_valid present) (MaxBytesReader (rq_body r))
         new_jobRequest = Ok q"
  shows "\<exists>w'. registry (view w') R \<and>
    serve other (job_receiver_routes jc enforce present uuid_String (locator_backend ex net requestId uuid_Parse jc) metrics debug)
      ''/job'' r (st, w) = (Some writeConnectionFailureResponse, st, w')"
  using receiver_forwards [OF assms] by simp


definition flow_job :: jobRequest where
  "flow_job = \<lparr>jq_Account = ''0002'', jq_Recipient = ''node-b'', jq_Payload = AStr ''run'', jq_Directive = ''demo:do''\<rparr>"

definition flow_config :: Config where
  "flow_config = (options_config (default_viper defaults))\<lparr>cfg_JobReceiverReceptorProxyPSK := ''psk'',
     cfg_ServiceToServiceCredentials := [(''tower'', AStr ''key''), (''job_receiver'', AStr ''psk'')]\<rparr>"

definition flow_pod :: "string pod_api" where
  "flow_pod = \<lparr>pa_local = snd (Local_Register NewLocalConnectionManager ''0002'' ''node-b'' (0, 0)),
     pa_services = (\<lambda>c. RegisterConnection (NewReceptorService ''0002'' ''gateway'') ''node-b'' ANil sample_transport)\<rparr>"

definition flow_call :: "string circumstances" where
  "flow_call = \<lparr>ci_newID = Some ''u-1'', ci_now = zero_time, ci_ctx = None, ci_select = 0,
     ci_ping = (\<lambda>c a n route s. ((ANil, None), s))\<rparr>"

definition not_found :: "'st handler" where
  "not_found r st = (Some (http_Error ''404 page not found'' 404), st)"

definition flow_network :: "string pod_api network" where
  "flow_network = \<lparr>net_do = serve not_found (gateway_routes (\<lambda>f. Inl []) [] flow_config (\<lambda>r. Inr r) (\<lambda>a. a \<noteq> ANil) (\<lambda>u. u)
       (gateway_backend (\<lambda>u. u) flow_call) not_found not_found) ''/job'', net_url_ok = (\<lambda>u. True), net_body_lost = False\<rparr>"

definition flow_world :: mem_redis where
  "flow_world = snd (snd (run mem_exec (RegisterWithRedis ''0002'' ''node-b'' ''10.0.0.1'') () []))"

lemma flow_registry: "registry (mem_view flow_world) (Map.empty((''0002'', ''node-b'') \<mapsto> ''10.0.0.1''))"
proof -
  obtain res s' w' where r: "run mem_exec (RegisterWithRedis ''0002'' ''node-b'' ''10.0.0.1'') () [] = (res, s', w')"
    using prod_cases3 by blast
  have "valid_account ''0002''" "valid_node ''node-b''" by (simp_all add: valid_account_def valid_node_def)
  from registry_registered [OF registry_empty _ this sample_valid(4)] mem.run_RegisterWithRedis [OF r] r
  show ?thesis by (simp add: flow_world_def mem_view_def)
qed

lemma flow_config_fields:
  "cfg_JobReceiverReceptorProxyClientID flow_config = ''job_receiver''" "cfg_JobReceiverReceptorProxyPSK flow_config = ''psk''"
  "cfg_ServiceToServiceCredentials flow_config = [(''tower'', AStr ''key''), (''job_receiver'', AStr ''psk'')]"
  by (simp_all add: flow_config_def options_config_def default_viper_def defaults_def Let_def)

lemma flow_pod_fields:
  "Local_GetConnection (pa_local flow_pod) ''0002'' ''node-b'' = Some (0, 0)"
  "rs_AccountNumber (pa_services flow_pod c) = ''0002''" "rs_Transport (pa_services flow_pod c) = Some sample_transport"
  "can_send (tr_Send sample_transport)"
  by code_simp+


end
