(* ===== verification/Proxy_Probes.thy ===== *)
theory Proxy_Probes
  imports Http_Proxy
begin

text \<open>
  The instrumentation of the HTTP proxy (\<open>api/receptor_http_proxy_instrumentation.go\<close>): a probe for each call,
  whose methods count in Prometheus counters and log. The calls of the proxy are repeated here with the
  probe's methods where the code has them; the logging is left out. Dropping the counters gives the
  functions of theory \<open>Http_Proxy\<close>.
\<close>

subsection \<open>Counters and probes\<close>

text \<open>A counter vector: the counts by label. Of the durations only their number is kept.\<close>

record receptorHttpProxyMetrics =
  mx_calls :: "(string, nat) gomap"
  mx_failures :: "(string, nat) gomap"
  mx_status :: "(string \<times> string, nat) gomap"
  mx_durations :: "(string, nat) gomap"

definition newMetrics :: receptorHttpProxyMetrics where
  "newMetrics = \<lparr>mx_calls = [], mx_failures = [], mx_status = [], mx_durations = []\<rparr>"

definition label_count :: "('k, nat) gomap \<Rightarrow> 'k \<Rightarrow> nat" where
  "label_count m k = (case map_of m k of None \<Rightarrow> 0 | Some n \<Rightarrow> n)"

definition Inc :: "'k \<Rightarrow> ('k, nat) gomap \<Rightarrow> ('k, nat) gomap" where
  "Inc k m = AList.update k (label_count m k + 1) m"

record receptorHttpProxyProbe =
  probe_account :: string
  probe_request_id :: string
  probe_operationName :: string

definition createProbe :: "http_request \<Rightarrow> string \<Rightarrow> string \<Rightarrow> receptorHttpProxyProbe" where
  "createProbe req requestId operationName =
     \<lparr>probe_account = GetAccount (fst (GetPrincipal req)), probe_request_id = requestId, probe_operationName = operationName\<rparr>"

definition failedToMarshalPayload :: "receptorHttpProxyProbe \<Rightarrow> receptorHttpProxyMetrics \<Rightarrow> receptorHttpProxyMetrics" where
  "failedToMarshalPayload p m = m\<lparr>mx_failures := Inc (probe_operationName p) (mx_failures m)\<rparr>"

definition failedToMakeHttpRequest :: "receptorHttpProxyProbe \<Rightarrow> receptorHttpProxyMetrics \<Rightarrow> receptorHttpProxyMetrics" where
  "failedToMakeHttpRequest p m = m\<lparr>mx_failures := Inc (probe_operationName p) (mx_failures m)\<rparr>"

definition recordHttpStatusCode :: "receptorHttpProxyProbe \<Rightarrow> nat \<Rightarrow> receptorHttpProxyMetrics \<Rightarrow> receptorHttpProxyMetrics" where
  "recordHttpStatusCode p statusCode m = m\<lparr>mx_status := Inc (probe_operationName p, nat_text statusCode) (mx_status m)\<rparr>"

definition invalidHttpStatusCode :: "receptorHttpProxyProbe \<Rightarrow> nat \<Rightarrow> receptorHttpProxyMetrics \<Rightarrow> receptorHttpProxyMetrics" where
  "invalidHttpStatusCode p statusCode m = m\<lparr>mx_status := Inc (probe_operationName p, nat_text statusCode) (mx_status m)\<rparr>"

definition failedToUnmarshalResponse :: "receptorHttpProxyProbe \<Rightarrow> receptorHttpProxyMetrics \<Rightarrow> receptorHttpProxyMetrics" where
  "failedToUnmarshalResponse p m = m\<lparr>mx_failures := Inc (probe_operationName p) (mx_failures m)\<rparr>"

definition messageSent :: "receptorHttpProxyMetrics \<Rightarrow> receptorHttpProxyMetrics" where
  "messageSent m = m\<lparr>mx_calls := Inc ''message'' (mx_calls m)\<rparr>"

definition pingMessageSent :: "receptorHttpProxyMetrics \<Rightarrow> receptorHttpProxyMetrics" where
  "pingMessageSent m = m\<lparr>mx_calls := Inc ''ping'' (mx_calls m)\<rparr>"

definition connectionClosed :: "receptorHttpProxyMetrics \<Rightarrow> receptorHttpProxyMetrics" where
  "connectionClosed m = m\<lparr>mx_calls := Inc ''close_connection'' (mx_calls m)\<rparr>"

definition retrievedCapabilities :: "receptorHttpProxyMetrics \<Rightarrow> receptorHttpProxyMetrics" where
  "retrievedCapabilities m = m\<lparr>mx_calls := Inc ''get_capabilities'' (mx_calls m)\<rparr>"

definition recordRemoteCallDuration :: "receptorHttpProxyProbe \<Rightarrow> receptorHttpProxyMetrics \<Rightarrow> receptorHttpProxyMetrics" where
  "recordRemoteCallDuration p m = m\<lparr>mx_durations := Inc (probe_operationName p) (mx_durations m)\<rparr>"

subsection \<open>The calls with their probes\<close>

text \<open>A request with an invalid URL is not timed.\<close>

definition probed_request ::
  "receptorHttpProxyProbe \<Rightarrow> 'st network \<Rightarrow> string \<Rightarrow> string \<Rightarrow> string \<Rightarrow> string \<Rightarrow> Config \<Rightarrow> bytes \<Rightarrow>
   'st \<times> receptorHttpProxyMetrics \<Rightarrow> http_response option \<times> 'st \<times> receptorHttpProxyMetrics" where
  "probed_request probe net requestId method url accountNumber config body s =
     (case s of (st, m) \<Rightarrow>
        (case makeHttpRequest net requestId method url accountNumber config body st of (resp, st') \<Rightarrow>
           (resp, st', if net_url_ok net url then recordRemoteCallDuration probe m else m)))"

text \<open>The three functions that check the status and decode the body; \<open>good\<close> is the status they expect.\<close>

definition probed_unmarshal ::
  "receptorHttpProxyProbe \<Rightarrow> nat \<Rightarrow> http_response \<Rightarrow> api_error + 'a \<Rightarrow> receptorHttpProxyMetrics \<Rightarrow> receptorHttpProxyMetrics" where
  "probed_unmarshal probe good resp result m =
     (if rsp_status resp \<noteq> good then invalidHttpStatusCode probe (rsp_status resp) m
      else (case result of Inl err \<Rightarrow> failedToUnmarshalResponse probe m | Inr _ \<Rightarrow> m))"

definition probed_SendMessage ::
  "http_request \<Rightarrow> 'st network \<Rightarrow> string \<Rightarrow> (string \<Rightarrow> 'u option) \<Rightarrow> ReceptorHttpProxy \<Rightarrow> string \<Rightarrow> string \<Rightarrow> string list \<Rightarrow>
   goany \<Rightarrow> string \<Rightarrow> 'st \<times> receptorHttpProxyMetrics \<Rightarrow> (api_error, 'u) outcome \<times> 'st \<times> receptorHttpProxyMetrics" where
  "probed_SendMessage caller net requestId uuid_Parse rhp accountNumber recipient route payload directive s =
     (let probe = createProbe caller requestId ''send_message'' in
      case s of (st, m) \<Rightarrow>
      (case marshalJobRequest accountNumber recipient payload directive of
         Inl err \<Rightarrow> (Err err, st, failedToMarshalPayload probe m)
       | Inr jsonBytes \<Rightarrow>
           (case probed_request probe net requestId ''POST'' (generateUrl rhp ''job'') (px_AccountNumber rhp) (px_Config rhp)
                   jsonBytes (st, m) of
              (None, st1, m1) \<Rightarrow> (Err errUnableToSendMessage, st1, failedToMakeHttpRequest probe m1)
            | (Some resp, st1, m1) \<Rightarrow>
                (let m2 = recordHttpStatusCode probe (rsp_status resp) m1;
                     m3 = probed_unmarshal probe 201 resp (unmarshalJobResponse net resp) m2
                 in case unmarshalJobResponse net resp of
                      Inl err \<Rightarrow> (Err err, st1, m3)
                    | Inr jobID \<Rightarrow>
                        (case uuid_Parse jobID of
                           None \<Rightarrow> (Err errUnableToProcessResponse, st1, failedToUnmarshalResponse probe m3)
                         | Some messageID \<Rightarrow> (Ok messageID, st1, messageSent m3))))))"

definition probed_Ping ::
  "http_request \<Rightarrow> 'st network \<Rightarrow> string \<Rightarrow> ReceptorHttpProxy \<Rightarrow> string \<Rightarrow> string \<Rightarrow> string list \<Rightarrow>
   'st \<times> receptorHttpProxyMetrics \<Rightarrow> (goany \<times> api_error option) \<times> 'st \<times> receptorHttpProxyMetrics" where
  "probed_Ping caller net requestId rhp accountNumber recipient route s =
     (let probe = createProbe caller requestId ''ping'' in
      case s of (st, m) \<Rightarrow>
      (case marshalConnectionKey accountNumber recipient of
         None \<Rightarrow> ((ANil, Some (errOther ''json'')), st, failedToMarshalPayload probe m)
       | Some jsonBytes \<Rightarrow>
           (case probed_request probe net requestId ''POST'' (generateUrl rhp ''connection/ping'') (px_AccountNumber rhp)
                   (px_Config rhp) jsonBytes (st, m) of
              (None, st1, m1) \<Rightarrow> ((ANil, Some errUnableToSendMessage), st1, failedToMakeHttpRequest probe m1)
            | (Some resp, st1, m1) \<Rightarrow>
                (let m2 = recordHttpStatusCode probe (rsp_status resp) m1;
                     m3 = probed_unmarshal probe 200 resp (unmarshalConnectionPingResponse net resp) m2
                 in case unmarshalConnectionPingResponse net resp of
                      Inl err \<Rightarrow> ((ANil, Some err), st1, m3)
                    | Inr pingResponse \<Rightarrow>
                        (if cp_Status pingResponse = DISCONNECTED_STATUS
                         then ((ANil, Some errDisconnectedNode), st1, pingMessageSent m3)
                         else ((cp_Payload pingResponse, None), st1, pingMessageSent m3))))))"

definition probed_Close ::
  "http_request \<Rightarrow> 'st network \<Rightarrow> string \<Rightarrow> ReceptorHttpProxy \<Rightarrow>
   'st \<times> receptorHttpProxyMetrics \<Rightarrow> api_error option \<times> 'st \<times> receptorHttpProxyMetrics" where
  "probed_Close caller net requestId rhp s =
     (let probe = createProbe caller requestId ''close_connection'' in
      case s of (st, m) \<Rightarrow>
      (case marshalConnectionKey (px_AccountNumber rhp) (px_NodeID rhp) of
         None \<Rightarrow> (Some (errOther ''json''), st, failedToMarshalPayload probe m)
       | Some jsonBytes \<Rightarrow>
           (case probed_request probe net requestId ''POST'' (generateUrl rhp ''connection/disconnect'') (px_AccountNumber rhp)
                   (px_Config rhp) jsonBytes (st, m) of
              (None, st1, m1) \<Rightarrow> (Some errUnableToSendMessage, st1, failedToMakeHttpRequest probe m1)
            | (Some resp, st1, m1) \<Rightarrow>
                (let m2 = recordHttpStatusCode probe (rsp_status resp) m1
                 in if rsp_status resp \<noteq> 200 then (None, st1, invalidHttpStatusCode probe (rsp_status resp) m2)
                    else (None, st1, connectionClosed m2)))))"

definition probed_GetCapabilities ::
  "http_request \<Rightarrow> 'st network \<Rightarrow> string \<Rightarrow> ReceptorHttpProxy \<Rightarrow>
   'st \<times> receptorHttpProxyMetrics \<Rightarrow> (goany \<times> api_error option) \<times> 'st \<times> receptorHttpProxyMetrics" where
  "probed_GetCapabilities caller net requestId rhp s =
     (let probe = createProbe caller requestId ''get_capabilities'' in
      case s of (st, m) \<Rightarrow>
      (case marshalConnectionKey (px_AccountNumber rhp) (px_NodeID rhp) of
         None \<Rightarrow> ((ANil, Some (errOther ''json'')), st, failedToMarshalPayload probe m)
       | Some jsonBytes \<Rightarrow>
           (case probed_request probe net requestId ''POST'' (generateUrl rhp ''connection/status'') (px_AccountNumber rhp)
                   (px_Config rhp) jsonBytes (st, m) of
              (None, st1, m1) \<Rightarrow> ((ANil, Some errUnableToSendMessage), st1, failedToMakeHttpRequest probe m1)
            | (Some resp, st1, m1) \<Rightarrow>
                (let m2 = recordHttpStatusCode probe (rsp_status resp) m1;
                     m3 = probed_unmarshal probe 200 resp (unmarshalConnectionStatusResponse net resp) m2
                 in case unmarshalConnectionStatusResponse net resp of
                      Inl err \<Rightarrow> ((ANil, Some err), st1, m3)
                    | Inr statusResponse \<Rightarrow>
                        (if cs_Status statusResponse = DISCONNECTED_STATUS
                         then ((ANil, Some errDisconnectedNode), st1, retrievedCapabilities m3)
                         else ((cs_Capabilities statusResponse, None), st1, retrievedCapabilities m3))))))"

subsection \<open>Properties\<close>

text \<open>What a call leaves of its result and of the world when the counters are dropped.\<close>

definition forget :: "'r \<times> 'st \<times> receptorHttpProxyMetrics \<Rightarrow> 'r \<times> 'st" where
  "forget x = (case x of (r, st, m) \<Rightarrow> (r, st))"

lemma label_count_Inc: "label_count (Inc k m) k' = label_count m k' + (if k' = k then 1 else 0)"
  by (simp add: label_count_def Inc_def update_conv' split: option.split)

lemmas probe_defs = failedToMarshalPayload_def failedToMakeHttpRequest_def recordHttpStatusCode_def invalidHttpStatusCode_def
  failedToUnmarshalResponse_def messageSent_def pingMessageSent_def connectionClosed_def retrievedCapabilities_def
  recordRemoteCallDuration_def probed_unmarshal_def


text \<open>The response that a call of \<open>SendMessage\<close> gets.\<close>

definition send_response ::
  "'st network \<Rightarrow> string \<Rightarrow> ReceptorHttpProxy \<Rightarrow> string \<Rightarrow> string \<Rightarrow> goany \<Rightarrow> string \<Rightarrow> 'st \<Rightarrow> http_response option" where
  "send_response net requestId p a n payload directive st =
     (case marshalJobRequest a n payload directive of
        Inl err \<Rightarrow> None
      | Inr b \<Rightarrow> fst (makeHttpRequest net requestId ''POST'' (generateUrl p ''job'') (px_AccountNumber p) (px_Config p) b st))"

text \<open>What a call of \<open>SendMessage\<close> counts. A message is counted exactly when the call returns an
  identifier. Without a response a failure is counted and no status. A response with the expected
  status counts that status once, and a failure if its body could not be used. A response with any
  other status counts the status twice and no failure.\<close>

lemma send_message_counted:
  "case probed_SendMessage caller net requestId uuid_Parse p a n route payload directive (st, m) of (res, st', m') \<Rightarrow>
     (\<forall>op. label_count (mx_calls m') op =
        label_count (mx_calls m) op + (if op = ''message'' \<and> (\<exists>u. res = Ok u) then 1 else 0)) \<and>
     (\<forall>op. label_count (mx_failures m') op = label_count (mx_failures m) op +
        (if op = ''send_message'' \<and> (case send_response net requestId p a n payload directive st of
           None \<Rightarrow> True | Some resp \<Rightarrow> rsp_status resp = 201 \<and> (\<forall>u. res \<noteq> Ok u)) then 1 else 0)) \<and>
     (\<forall>op code. label_count (mx_status m') (op, code) = label_count (mx_status m) (op, code) +
        (case send_response net requestId p a n payload directive st of
           None \<Rightarrow> 0
         | Some resp \<Rightarrow> if op = ''send_message'' \<and> code = nat_text (rsp_status resp)
             then (if rsp_status resp = 201 then 1 else 2) else 0))"
proof -
  have good: "rsp_status resp = 201" if "unmarshalJobResponse net resp = Inr j" for resp j
    using that by (simp add: unmarshalJobResponse_def split: if_splits)
  show ?thesis
    by (auto simp: probed_SendMessage_def send_response_def probed_request_def probe_defs createProbe_def Let_def label_count_Inc
        dest: good split: sum.splits prod.splits option.splits if_splits)
qed

end
