(* ===== verification/Mesh_Router.thy ===== *)
theory Mesh_Router
  imports Prelude "HOL-Library.Multiset"
begin

text \<open>
  The mesh router (\<open>internal/receptor/mesh_router\<close>): the edges of the receptor network with their costs,
  and the heap of paths by cost. \<open>PathHeap\<close> provides the interface of the package \<open>container/heap\<close>,
  whose functions are modelled as the library has them. A route is not computed yet:
  \<open>GetRouteToNode\<close> returns nil.
\<close>

subsection \<open>The heap of paths\<close>

record Path =
  path_Cost :: int
  path_Nodes :: "string list"

type_synonym PathHeap = "Path list"

definition heap_Len :: "PathHeap \<Rightarrow> nat" where
  "heap_Len h = length h"

definition heap_Less :: "PathHeap \<Rightarrow> nat \<Rightarrow> nat \<Rightarrow> bool" where
  "heap_Less h i j \<longleftrightarrow> path_Cost (h ! i) < path_Cost (h ! j)"

definition heap_Swap :: "PathHeap \<Rightarrow> nat \<Rightarrow> nat \<Rightarrow> PathHeap" where
  "heap_Swap h i j = h[i := h ! j, j := h ! i]"

definition PathHeap_Push :: "PathHeap \<Rightarrow> Path \<Rightarrow> PathHeap" where
  "PathHeap_Push h x = h @ [x]"

text \<open>Taking from an empty slice panics.\<close>

definition PathHeap_Pop :: "PathHeap \<Rightarrow> (Path \<times> PathHeap) option" where
  "PathHeap_Pop h = (if h = [] then None else Some (h ! (length h - 1), take (length h - 1) h))"

text \<open>The functions \<open>up\<close>, \<open>down\<close>, \<open>Push\<close> and \<open>Pop\<close> of \<open>container/heap\<close>. The parent of index 0 is 0, as
  Go's division truncates.\<close>

function heap_up :: "PathHeap \<Rightarrow> nat \<Rightarrow> PathHeap" where
  "heap_up h j =
     (let i = (j - 1) div 2 in
      if i = j \<or> \<not> heap_Less h j i then h else heap_up (heap_Swap h i j) i)"
  by auto
termination by (relation "measure snd") auto

function heap_down :: "PathHeap \<Rightarrow> nat \<Rightarrow> nat \<Rightarrow> PathHeap" where
  "heap_down h i n =
     (let j1 = 2 * i + 1 in
      if j1 \<ge> n then h
      else (let j2 = j1 + 1; j = (if j2 < n \<and> heap_Less h j2 j1 then j2 else j1) in
            if \<not> heap_Less h j i then h else heap_down (heap_Swap h i j) j n))"
  by auto
termination by (relation "measure (\<lambda>(h, i, n). n - i)") (auto simp: Let_def split: if_splits)

declare heap_up.simps [simp del] heap_down.simps [simp del]

definition heap_Push :: "PathHeap \<Rightarrow> Path \<Rightarrow> PathHeap" where
  "heap_Push h x = (let h' = PathHeap_Push h x in heap_up h' (heap_Len h' - 1))"

definition heap_Pop :: "PathHeap \<Rightarrow> (Path \<times> PathHeap) option" where
  "heap_Pop h =
     (if heap_Len h = 0 then None
      else (let n = heap_Len h - 1 in PathHeap_Pop (heap_down (heap_Swap h 0 n) 0 n)))"

text \<open>Popping until the heap is empty.\<close>

function drain :: "PathHeap \<Rightarrow> Path list" where
  "drain h = (case heap_Pop h of None \<Rightarrow> [] | Some (x, h') \<Rightarrow> if length h' < length h then x # drain h' else [x])"
  by auto
termination by (relation "measure length") auto

declare drain.simps [simp del]

subsection \<open>Edges\<close>

record EdgeKey =
  ek_Left :: string
  ek_Right :: string

record MeshRouter =
  mr_edges :: "(EdgeKey, int) gomap"
  mr_nodes :: "(string, string) gomap"

definition NewMeshRouter :: MeshRouter where
  "NewMeshRouter = \<lparr>mr_edges = [], mr_nodes = []\<rparr>"

definition GetRouteToNode :: "MeshRouter \<Rightarrow> string \<Rightarrow> string \<Rightarrow> string list option" where
  "GetRouteToNode mr from_node to_node = None"

definition AddEdge :: "MeshRouter \<Rightarrow> string \<Rightarrow> string \<Rightarrow> int \<Rightarrow> MeshRouter" where
  "AddEdge mr left right cost =
     (let edge_key = \<lparr>ek_Left = left, ek_Right = right\<rparr> in
      case map_of (mr_edges mr) edge_key of
        None \<Rightarrow> mr\<lparr>mr_edges := AList.update edge_key cost (mr_edges mr)\<rparr>
      | Some existing_cost \<Rightarrow>
          if cost < existing_cost then mr\<lparr>mr_edges := AList.update edge_key cost (mr_edges mr)\<rparr> else mr)"

definition add_edges :: "(string \<times> string \<times> int) list \<Rightarrow> MeshRouter \<Rightarrow> MeshRouter" where
  "add_edges es mr = foldl (\<lambda>mr (l, r, c). AddEdge mr l r c) mr es"

subsection \<open>The heap order\<close>

abbreviation cost :: "PathHeap \<Rightarrow> nat \<Rightarrow> int" where
  "cost h k \<equiv> path_Cost (h ! k)"

abbreviation par :: "nat \<Rightarrow> nat" where
  "par k \<equiv> (k - 1) div 2"

definition heap_upto :: "PathHeap \<Rightarrow> nat \<Rightarrow> bool" where
  "heap_upto h n \<longleftrightarrow> (\<forall>k. 0 < k \<and> k < n \<longrightarrow> cost h (par k) \<le> cost h k)"

text \<open>The order with a hole: at \<open>j\<close> above, while an element moves up; at the children of \<open>i\<close>, while one
  moves down.\<close>

definition up_inv :: "PathHeap \<Rightarrow> nat \<Rightarrow> nat \<Rightarrow> bool" where
  "up_inv h n j \<longleftrightarrow> j < n \<and> n \<le> length h \<and>
     (\<forall>k. 0 < k \<and> k < n \<and> k \<noteq> j \<longrightarrow> cost h (par k) \<le> cost h k) \<and>
     (\<forall>k. 0 < k \<and> k < n \<and> par k = j \<and> 0 < j \<longrightarrow> cost h (par j) \<le> cost h k)"

definition down_inv :: "PathHeap \<Rightarrow> nat \<Rightarrow> nat \<Rightarrow> bool" where
  "down_inv h n i \<longleftrightarrow> n \<le> length h \<and>
     (\<forall>k. 0 < k \<and> k < n \<and> par k \<noteq> i \<longrightarrow> cost h (par k) \<le> cost h k) \<and>
     (\<forall>k. 0 < k \<and> k < n \<and> par k = i \<and> 0 < i \<longrightarrow> cost h (par i) \<le> cost h k)"

lemma par_less: "0 < k \<Longrightarrow> par k < k"
  by simp

lemma swap_nth:
  "i < length h \<Longrightarrow> j < length h \<Longrightarrow> heap_Swap h i j ! k = (if k = j then h ! i else if k = i then h ! j else h ! k)"
  by (auto simp: heap_Swap_def nth_list_update)

lemma swap_length [simp]: "length (heap_Swap h i j) = length h"
  by (simp add: heap_Swap_def)

lemma swap_mset: "i < length h \<Longrightarrow> j < length h \<Longrightarrow> mset (heap_Swap h i j) = mset h"
  unfolding heap_Swap_def by (rule mset_swap)

lemma up_inv_swap:
  assumes "up_inv h n j" "0 < j" "heap_Less h j (par j)"
  shows "up_inv (heap_Swap h (par j) j) n (par j)"
proof -
  have j: "j < n" "n \<le> length h" "par j < j" "par j < length h" "j < length h"
    using assms(1,2) by (auto simp: up_inv_def)
  have lt: "cost h j < cost h (par j)" using assms(3) by (simp add: heap_Less_def)
  have A: "cost h (par k) \<le> cost h k" if "0 < k" "k < n" "k \<noteq> j" for k using assms(1) that by (simp add: up_inv_def)
  have B: "cost h (par j) \<le> cost h k" if "0 < k" "k < n" "par k = j" for k using assms(1,2) that by (simp add: up_inv_def)
  show ?thesis
    unfolding up_inv_def
  proof (intro conjI allI impI)
    fix k
    assume k: "0 < k \<and> k < n \<and> k \<noteq> par j"
    show "cost (heap_Swap h (par j) j) (par k) \<le> cost (heap_Swap h (par j) j) k"
    proof (cases "k = j")
      case True
      then show ?thesis using j lt by (simp add: swap_nth)
    next
      case False
      then show ?thesis using k j lt A [of k] B [of k] by (auto simp: swap_nth)
    qed
  next
    fix k
    assume k: "0 < k \<and> k < n \<and> par k = par j \<and> 0 < par j"
    have up: "cost h (par (par j)) \<le> cost h (par j)" using A [of "par j"] k j by simp
    have ne: "par (par j) \<noteq> j" "par (par j) \<noteq> par j" using par_less [of "par j"] k j by linarith+
    show "cost (heap_Swap h (par j) j) (par (par j)) \<le> cost (heap_Swap h (par j) j) k"
    proof (cases "k = j")
      case True
      then show ?thesis using j up ne by (simp add: swap_nth)
    next
      case False
      have "k \<noteq> par j" using k par_less [of k] by linarith
      moreover have "cost h (par j) \<le> cost h k" using A [of k] k False by metis
      ultimately show ?thesis using j(4,5) up ne False by (simp add: swap_nth)
    qed
  qed (use j in auto)
qed

lemma heap_up_ok:
  assumes "up_inv h n j"
  shows "heap_upto (heap_up h j) n \<and> mset (heap_up h j) = mset h \<and> length (heap_up h j) = length h"
  using assms
proof (induction h j rule: heap_up.induct)
  case (1 h j)
  show ?case
  proof (cases "par j = j \<or> \<not> heap_Less h j (par j)")
    case True
    then have "heap_up h j = h" by (subst heap_up.simps) (auto simp: Let_def)
    moreover have "heap_upto h n"
    proof -
      have "j = 0 \<or> cost h (par j) \<le> cost h j" using True by (cases "j = 0") (auto simp: heap_Less_def)
      then show ?thesis using 1(2) by (auto simp: heap_upto_def up_inv_def)
    qed
    ultimately show ?thesis by simp
  next
    case False
    then have j: "0 < j" "heap_Less h j (par j)" by auto
    have inv: "up_inv (heap_Swap h (par j) j) n (par j)" by (rule up_inv_swap [OF 1(2) j])
    have "heap_up h j = heap_up (heap_Swap h (par j) j) (par j)"
      using False by (subst heap_up.simps) (simp add: Let_def)
    moreover have "mset (heap_Swap h (par j) j) = mset h" using 1(2) by (intro swap_mset) (auto simp: up_inv_def)
    ultimately show ?thesis using 1(1) [OF refl False inv] by simp
  qed
qed

lemma down_inv_swap:
  assumes inv: "down_inv h n i" and j: "0 < j" "j < n" "par j = i" "heap_Less h j i"
    and least: "\<And>k. 0 < k \<Longrightarrow> k < n \<Longrightarrow> par k = i \<Longrightarrow> cost h j \<le> cost h k"
  shows "down_inv (heap_Swap h i j) n j"
proof -
  have b: "n \<le> length h" "i < j" "i < length h" "j < length h"
    using inv j par_less [of j] by (auto simp: down_inv_def)
  have lt: "cost h j < cost h i" using j(4) by (simp add: heap_Less_def)
  have A: "cost h (par k) \<le> cost h k" if "0 < k" "k < n" "par k \<noteq> i" for k using inv that by (simp add: down_inv_def)
  have B: "cost h (par i) \<le> cost h k" if "0 < k" "k < n" "par k = i" "0 < i" for k using inv that by (simp add: down_inv_def)
  show ?thesis
    unfolding down_inv_def
  proof (intro conjI allI impI)
    fix k
    assume k: "0 < k \<and> k < n \<and> par k \<noteq> j"
    consider "k = i" | "k = j" | "k \<noteq> i" "k \<noteq> j" "par k = i" | "k \<noteq> i" "k \<noteq> j" "par k \<noteq> i" by blast
    then show "cost (heap_Swap h i j) (par k) \<le> cost (heap_Swap h i j) k"
    proof cases
      case 1
      then have "par i \<noteq> i" "par i \<noteq> j" using k par_less [of i] b by linarith+
      then show ?thesis using 1 k b B [of j] j by (simp add: swap_nth)
    next
      case 2
      then show ?thesis using b lt j by (simp add: swap_nth)
    next
      case 3
      then show ?thesis using b least [of k] k by (simp add: swap_nth)
    next
      case 4
      then show ?thesis using b A [of k] k by (simp add: swap_nth)
    qed
  next
    fix k
    assume k: "0 < k \<and> k < n \<and> par k = j \<and> 0 < j"
    then have ne: "k \<noteq> i" "k \<noteq> j" using par_less [of k] b by linarith+
    show "cost (heap_Swap h i j) (par j) \<le> cost (heap_Swap h i j) k"
      using A [of k] k ne b j by (simp add: swap_nth)
  qed (use b in auto)
qed

lemma children: "par k = i \<and> 0 < k \<longleftrightarrow> k = 2 * i + 1 \<or> k = 2 * i + 2"
  by presburger

text \<open>The child that \<open>down\<close> compares with is the cheaper one.\<close>

definition least_child :: "PathHeap \<Rightarrow> nat \<Rightarrow> nat \<Rightarrow> nat" where
  "least_child h i n = (if 2 * i + 2 < n \<and> heap_Less h (2 * i + 2) (2 * i + 1) then 2 * i + 2 else 2 * i + 1)"

lemma heap_down_unfold:
  "heap_down h i n =
     (if 2 * i + 1 \<ge> n \<or> \<not> heap_Less h (least_child h i n) i then h
      else heap_down (heap_Swap h i (least_child h i n)) (least_child h i n) n)"
  by (subst heap_down.simps) (simp add: least_child_def Let_def)

lemma least_child_props:
  assumes "2 * i + 1 < n"
  shows "0 < least_child h i n" "least_child h i n < n" "par (least_child h i n) = i"
    "0 < k \<Longrightarrow> k < n \<Longrightarrow> par k = i \<Longrightarrow> cost h (least_child h i n) \<le> cost h k"
proof -
  show "0 < least_child h i n" "least_child h i n < n" "par (least_child h i n) = i"
    using assms by (auto simp: least_child_def)
  assume k: "0 < k" "k < n" "par k = i"
  then have "k = 2 * i + 1 \<or> k = 2 * i + 2" using children [of k i] by blast
  then show "cost h (least_child h i n) \<le> cost h k"
    using k(2) by (auto simp: least_child_def heap_Less_def)
qed

lemma heap_down_ok:
  assumes "down_inv h n i"
  shows "heap_upto (heap_down h i n) n \<and> mset (heap_down h i n) = mset h \<and>
    length (heap_down h i n) = length h \<and> (\<forall>k \<ge> n. heap_down h i n ! k = h ! k)"
  using assms
proof (induction "n - i" arbitrary: h i rule: less_induct)
  case less
  let ?j = "least_child h i n"
  show ?case
  proof (cases "2 * i + 1 \<ge> n \<or> \<not> heap_Less h ?j i")
    case True
    have "cost h i \<le> cost h k" if "0 < k" "k < n" "par k = i" for k
    proof -
      have "2 * i + 1 < n" using that children [of k i] by linarith
      then have "cost h i \<le> cost h ?j" "cost h ?j \<le> cost h k"
        using True least_child_props(4) [OF _ that] by (auto simp: heap_Less_def)
      then show ?thesis by simp
    qed
    then have "heap_upto h n" using less.prems unfolding heap_upto_def down_inv_def by blast
    moreover have "heap_down h i n = h" using True by (subst heap_down_unfold) auto
    ultimately show ?thesis by simp
  next
    case False
    then have ch: "2 * i + 1 < n" "heap_Less h ?j i" by auto
    note j = least_child_props(1-3) [OF ch(1), of h]
    have inv: "down_inv (heap_Swap h i ?j) n ?j"
      by (rule down_inv_swap [OF less.prems j ch(2) least_child_props(4) [OF ch(1)]])
    have b: "i < ?j" "?j < length h" "i < length h" using j par_less [of ?j] less.prems by (auto simp: down_inv_def)
    have eq: "heap_down h i n = heap_down (heap_Swap h i ?j) ?j n"
      using False by (subst heap_down_unfold) auto
    have "heap_Swap h i ?j ! k = h ! k" if "k \<ge> n" for k using that j b by (simp add: swap_nth)
    moreover have "mset (heap_Swap h i ?j) = mset h" using b by (intro swap_mset)
    ultimately show ?thesis using less.hyps [OF _ inv] j b by (simp add: eq diff_less_mono2)
  qed
qed

abbreviation path_heap :: "PathHeap \<Rightarrow> bool" where
  "path_heap h \<equiv> heap_upto h (length h)"

lemma heap_Push_ok:
  assumes "path_heap h"
  shows "path_heap (heap_Push h x) \<and> mset (heap_Push h x) = add_mset x (mset h)"
proof -
  have "up_inv (h @ [x]) (length (h @ [x])) (length h)"
    unfolding up_inv_def
  proof (intro conjI allI impI)
    fix k
    assume k: "0 < k \<and> k < length (h @ [x]) \<and> k \<noteq> length h"
    then have "k < length h" "par k < length h" using par_less [of k] by auto
    then show "cost (h @ [x]) (par k) \<le> cost (h @ [x]) k"
      using assms k by (simp add: heap_upto_def nth_append)
  next
    fix k
    assume "0 < k \<and> k < length (h @ [x]) \<and> par k = length h \<and> 0 < length h"
    then show "cost (h @ [x]) (par (length h)) \<le> cost (h @ [x]) k" using par_less [of k] by simp
  qed simp_all
  from heap_up_ok [OF this] show ?thesis
    by (simp add: heap_Push_def PathHeap_Push_def heap_Len_def)
qed

lemma root_least: "heap_upto h n \<Longrightarrow> k < n \<Longrightarrow> cost h 0 \<le> cost h k"
proof (induction k rule: less_induct)
  case (less k)
  show ?case
  proof (cases "k = 0")
    case False
    then have "cost h 0 \<le> cost h (par k)" using less by simp
    moreover have "cost h (par k) \<le> cost h k" using less False by (simp add: heap_upto_def)
    ultimately show ?thesis by simp
  qed simp
qed

lemma heap_Pop_ok:
  assumes "path_heap h" "h \<noteq> []"
  shows "\<exists>x h'. heap_Pop h = Some (x, h') \<and> mset h = add_mset x (mset h') \<and> path_heap h' \<and>
    (\<forall>y \<in> set h. path_Cost x \<le> path_Cost y) \<and> length h = Suc (length h')"
proof -
  define n where "n = length h - 1"
  have n: "length h = Suc n" using assms(2) by (simp add: n_def)
  define h1 where "h1 = heap_Swap h 0 n"
  have h1: "length h1 = Suc n" "mset h1 = mset h" "h1 ! n = h ! 0"
    using n by (auto simp: h1_def swap_nth intro!: swap_mset)
  have "down_inv h1 n 0"
    using assms(1) n by (auto simp: down_inv_def heap_upto_def h1_def swap_nth)
  from heap_down_ok [OF this] have d: "heap_upto (heap_down h1 0 n) n" "mset (heap_down h1 0 n) = mset h"
    "length (heap_down h1 0 n) = Suc n" "heap_down h1 0 n ! n = h ! 0"
    using h1 by auto
  define h2 where "h2 = heap_down h1 0 n"
  have pop: "heap_Pop h = Some (h2 ! n, take n h2)"
    using n d(3) by (auto simp: heap_Pop_def heap_Len_def PathHeap_Pop_def h2_def h1_def)
  have split: "h2 = take n h2 @ [h2 ! n]" using d(3) by (simp add: h2_def flip: take_Suc_conv_app_nth)
  have "mset h2 = add_mset (h2 ! n) (mset (take n h2))"
    by (subst split) (simp del: take_append)
  moreover have "path_heap (take n h2)" using d(1,3) by (auto simp: heap_upto_def h2_def)
  moreover have "path_Cost (h ! 0) \<le> path_Cost y" if "y \<in> set h" for y
    using root_least [OF assms(1)] that by (metis in_set_conv_nth)
  ultimately show ?thesis using pop d n by (simp add: h2_def)
qed

lemma drain_sorted: "path_heap h \<Longrightarrow> mset (drain h) = mset h \<and> sorted_wrt (\<lambda>x y. path_Cost x \<le> path_Cost y) (drain h)"
proof (induction "length h" arbitrary: h)
  case 0
  then show ?case by (simp add: drain.simps heap_Pop_def heap_Len_def)
next
  case (Suc m)
  then obtain x h' where p: "heap_Pop h = Some (x, h')" "mset h = add_mset x (mset h')" "path_heap h'"
    "\<forall>y \<in> set h. path_Cost x \<le> path_Cost y" "length h = Suc (length h')"
    using heap_Pop_ok [of h] by (metis length_0_conv nat.distinct(1))
  have "drain h = x # drain h'" using p(1,5) by (subst drain.simps) simp
  moreover have "set (drain h') \<subseteq> set h"
    using Suc(1) [of h'] Suc(2) p by (metis mset_subset_eqD mset_subset_eq_add_right nat.inject set_mset_mset subsetI add_mset_add_single union_commute)
  ultimately show ?case using Suc(1) [of h'] Suc(2) p by auto
qed

subsection \<open>Properties\<close>

text \<open>Property C31. Paths pushed onto the heap in any order come off it in order of their cost, none lost and none
  duplicated.\<close>

theorem path_heap_sorts:
  "mset (drain (foldl heap_Push [] ps)) = mset ps \<and>
   sorted_wrt (\<lambda>x y. path_Cost x \<le> path_Cost y) (drain (foldl heap_Push [] ps))"
proof -
  have "path_heap (foldl heap_Push h ps) \<and> mset (foldl heap_Push h ps) = mset h + mset ps" if "path_heap h" for h
    using that by (induction ps arbitrary: h) (simp_all add: heap_Push_ok)
  from this [of "[]"] have "path_heap (foldl heap_Push [] ps)" "mset (foldl heap_Push [] ps) = mset ps"
    by (simp_all add: heap_upto_def)
  then show ?thesis using drain_sorted [of "foldl heap_Push [] ps"] by simp
qed

lemma AddEdge_lookup:
  "map_of (mr_edges (AddEdge mr l r c)) k =
    (if k = \<lparr>ek_Left = l, ek_Right = r\<rparr>
     then Some (case map_of (mr_edges mr) k of None \<Rightarrow> c | Some c' \<Rightarrow> min c c')
     else map_of (mr_edges mr) k)"
  by (auto simp: AddEdge_def Let_def update_conv' split: option.splits)

lemma add_edges_lookup:
  "map_of (mr_edges (add_edges es mr)) \<lparr>ek_Left = l, ek_Right = r\<rparr> =
    foldl (\<lambda>acc c. Some (case acc of None \<Rightarrow> c | Some c' \<Rightarrow> min c c')) (map_of (mr_edges mr) \<lparr>ek_Left = l, ek_Right = r\<rparr>)
      [c. (l', r', c) \<leftarrow> es, l' = l \<and> r' = r]"
proof (induction es arbitrary: mr)
  case (Cons e es)
  obtain l' r' c where e: "e = (l', r', c)" by (cases e)
  have "add_edges (e # es) mr = add_edges es (AddEdge mr l' r' c)" by (simp add: add_edges_def e)
  then show ?case using Cons [of "AddEdge mr l' r' c"] by (simp add: e AddEdge_lookup)
qed (simp add: add_edges_def)

lemma min_fold: "foldl (\<lambda>acc c. Some (case acc of None \<Rightarrow> c | Some c' \<Rightarrow> min c c')) (Some a) cs = Some (Min (insert a (set cs)))"
  for a :: int
proof (induction cs arbitrary: a)
  case (Cons c cs)
  have "Min (insert (min c a) (set cs)) = Min (insert a (insert c (set cs)))"
    by (cases "cs = []") (simp_all add: min.commute min.assoc)
  then show ?case using Cons [of "min c a"] by simp
qed simp

text \<open>After any sequence of edges added to a new router, the cost of an edge is the least of the costs it
  was added with, and an edge that was never added is absent; an edge and its reverse are distinct.\<close>

lemma mesh_edges_minimum:
  "map_of (mr_edges (add_edges es NewMeshRouter)) \<lparr>ek_Left = l, ek_Right = r\<rparr> =
     (if \<exists>c. (l, r, c) \<in> set es then Some (Min {c. (l, r, c) \<in> set es}) else None)"
proof -
  let ?cs = "[c. (l', r', c) \<leftarrow> es, l' = l \<and> r' = r]"
  have set: "set ?cs = {c. (l, r, c) \<in> set es}" by force
  show ?thesis
  proof (cases ?cs)
    case Nil
    then have "\<not> (\<exists>c. (l, r, c) \<in> set es)" using set by (metis (mono_tags, lifting) empty_set mem_Collect_eq empty_iff)
    then show ?thesis unfolding add_edges_lookup Nil by (simp add: NewMeshRouter_def)
  next
    case (Cons c cs)
    then have s: "{c. (l, r, c) \<in> set es} = insert c (set cs)" using set by (metis list.simps(15))
    then have "\<exists>c. (l, r, c) \<in> set es" by blast
    then show ?thesis unfolding add_edges_lookup Cons s by (simp add: NewMeshRouter_def min_fold)
  qed
qed

end
