(* ===== verification/Metrics.thy ===== *)
theory Metrics
  imports Gateway
begin

text \<open>
  The metrics of the services (\<open>internal/controller/metrics.go\<close>, \<open>controller/ws/metrics.go\<close>, \<open>receptor/protocol/metrics.go\<close>
  and the ones that \<open>middlewares\<close>, \<open>controller/api\<close> and the cleaner declare): their registration when a program
  starts, and what the gateway's registrar and the active registrars count. The counted programs are the programs
  of \<open>Gateway\<close> with the increments at the places where the code has them, over a state with the counters beside it.
\<close>

subsection \<open>Registration\<close>

datatype metric_kind =
    Counter
  | Gauge
  | Histogram "nat list"
  | CounterVec "string list"
  | SummaryVec "string list"

type_synonym collectors = "(string \<times> metric_kind) list"

definition metric_char :: "char \<Rightarrow> bool" where
  "metric_char c \<longleftrightarrow> (let n = of_char c :: nat in 97 \<le> n \<and> n \<le> 122 \<or> 65 \<le> n \<and> n \<le> 90 \<or> n = 95 \<or> n = 58)"

definition valid_metric_name :: "string \<Rightarrow> bool" where
  "valid_metric_name s \<longleftrightarrow> s \<noteq> [] \<and> metric_char (hd s) \<and>
     list_all (\<lambda>c. metric_char c \<or> (let n = of_char c :: nat in 48 \<le> n \<and> n \<le> 57)) s"

text \<open>\<open>promauto\<close> registers a metric with the default registry and panics if the name is not valid or already there.\<close>

definition promauto :: "string \<times> metric_kind \<Rightarrow> collectors \<Rightarrow> (unit, collectors) outcome" where
  "promauto m reg = (if \<not> valid_metric_name (fst m) \<or> fst m \<in> fst ` set reg then Panic else Ok (reg @ [m]))"

fun promauto_all :: "(string \<times> metric_kind) list \<Rightarrow> collectors \<Rightarrow> (unit, collectors) outcome" where
  "promauto_all [] reg = Ok reg"
| "promauto_all (m # ms) reg =
     (case promauto m reg of Ok reg' \<Rightarrow> promauto_all ms reg' | Err e \<Rightarrow> Err e | Panic \<Rightarrow> Panic)"

definition controller_collectors :: collectors where
  "controller_collectors =
     [(''receptor_controller_duplicate_connection_count'', Counter),
      (''receptor_controller_kafka_response_writer_go_routine_count'', Gauge),
      (''receptor_controller_kafka_response_writer_success_count'', Counter),
      (''receptor_controller_kafka_response_writer_failure_count'', Counter),
      (''receptor_controller_response_message_without_handler_count'', Counter),
      (''receptor_controller_response_message_handled_count'', Counter),
      (''receptor_controller_pod_running_status_lookup_failure_count'', Counter),
      (''receptor_controller_auto_connection_closure_due_to_duplicate_connection_count'', Counter),
      (''receptor_controller_reregister_connection_with_redis_count'', Counter),
      (''receptor_controller_unregister_stale_connection_from_redis_count'', Counter),
      (''receptor_controller_redis_connection_error_count'', Counter),
      (''receptor_controller_message_directive_count'', CounterVec [''directive''])]"

definition controller_NewMetrics :: "collectors \<Rightarrow> (unit, collectors) outcome" where
  "controller_NewMetrics = promauto_all controller_collectors"

definition ws_collectors :: collectors where
  "ws_collectors =
     [(''receptor_controller_websocket_total_connection_count'', Counter),
      (''receptor_controller_websocket_active_connection_count'', Gauge),
      (''receptor_controller_websocket_total_messages_sent_count'', Counter),
      (''receptor_controller_websocket_total_messages_received_count'', Counter)]"

definition ws_NewMetrics :: "collectors \<Rightarrow> (unit, collectors) outcome" where
  "ws_NewMetrics = promauto_all ws_collectors"

definition protocol_collectors :: collectors where
  "protocol_collectors =
     [(''receptor_controller_payload_message_sizes'', Histogram [512, 1024, 1024 * 10, 1024 * 100])]"

definition protocol_NewMetrics :: "collectors \<Rightarrow> (unit, collectors) outcome" where
  "protocol_NewMetrics = promauto_all protocol_collectors"

definition api_collectors :: collectors where
  "api_collectors =
     [(''receptor_controller_receptor_proxy_remote_call_count'', CounterVec [''operation'']),
      (''receptor_controller_receptor_proxy_remote_call_failure_count'', CounterVec [''operation'']),
      (''receptor_controller_receptor_proxy_remote_operation_status_code_count'', CounterVec [''operation'', ''status_code'']),
      (''receptor_controller_receptor_proxy_remote_operation_duration'', SummaryVec [''operation''])]"

definition api_newMetrics :: "collectors \<Rightarrow> (unit, collectors) outcome" where
  "api_newMetrics = promauto_all api_collectors"

definition middleware_collectors :: collectors where
  "middleware_collectors =
     [(''receptor_contoller_http_status_code_counter'', CounterVec [''status_code''])]"

definition statusCodeCounter :: "collectors \<Rightarrow> (unit, collectors) outcome" where
  "statusCodeCounter = promauto_all middleware_collectors"

definition cleaner_collectors :: collectors where
  "cleaner_collectors =
     [(''receptor_controller_connection_cleaner_unregister_stale_connection_from_redis_count'', Counter)]"

definition cleaner_Metrics :: "collectors \<Rightarrow> (unit, collectors) outcome" where
  "cleaner_Metrics = promauto_all cleaner_collectors"

text \<open>The packages of a program are initialised one after the other, those that a package imports before it.\<close>

fun init_packages :: "(collectors \<Rightarrow> (unit, collectors) outcome) list \<Rightarrow> collectors \<Rightarrow> (unit, collectors) outcome" where
  "init_packages [] reg = Ok reg"
| "init_packages (p # ps) reg = (case p reg of Ok reg' \<Rightarrow> init_packages ps reg' | Err e \<Rightarrow> Err e | Panic \<Rightarrow> Panic)"

definition gateway_packages :: "(collectors \<Rightarrow> (unit, collectors) outcome) list" where
  "gateway_packages = [protocol_NewMetrics, controller_NewMetrics, statusCodeCounter, api_newMetrics, ws_NewMetrics]"

definition job_receiver_packages :: "(collectors \<Rightarrow> (unit, collectors) outcome) list" where
  "job_receiver_packages = [protocol_NewMetrics, controller_NewMetrics, statusCodeCounter, api_newMetrics]"

definition cleaner_packages :: "(collectors \<Rightarrow> (unit, collectors) outcome) list" where
  "cleaner_packages = [protocol_NewMetrics, controller_NewMetrics, cleaner_Metrics]"

lemma promauto_all_ok:
  "distinct (map fst (reg @ ms)) \<Longrightarrow> list_all (\<lambda>m. valid_metric_name (fst m)) ms \<Longrightarrow> promauto_all ms reg = Ok (reg @ ms)"
  by (induction ms arbitrary: reg) (auto simp: promauto_def)

lemmas package_defs = controller_NewMetrics_def ws_NewMetrics_def protocol_NewMetrics_def api_newMetrics_def
  statusCodeCounter_def cleaner_Metrics_def

lemmas program_defs = gateway_packages_def job_receiver_packages_def cleaner_packages_def

lemmas collectors_defs = controller_collectors_def ws_collectors_def protocol_collectors_def api_collectors_def
  middleware_collectors_def cleaner_collectors_def

lemma names_valid:
  "list_all (\<lambda>m. valid_metric_name (fst m)) controller_collectors" "list_all (\<lambda>m. valid_metric_name (fst m)) ws_collectors"
  "list_all (\<lambda>m. valid_metric_name (fst m)) protocol_collectors" "list_all (\<lambda>m. valid_metric_name (fst m)) api_collectors"
  "list_all (\<lambda>m. valid_metric_name (fst m)) middleware_collectors" "list_all (\<lambda>m. valid_metric_name (fst m)) cleaner_collectors"
  by (simp_all add: collectors_defs valid_metric_name_def metric_char_def)

lemma names_distinct:
  "distinct (map fst (protocol_collectors @ controller_collectors @ middleware_collectors @ api_collectors @ ws_collectors @
     cleaner_collectors))"
  by (simp add: collectors_defs)

text \<open>No program panics when its packages register their metrics.\<close>

lemma init_packages_ok:
  "init_packages gateway_packages [] =
     Ok (protocol_collectors @ controller_collectors @ middleware_collectors @ api_collectors @ ws_collectors)"
  "init_packages job_receiver_packages [] = Ok (protocol_collectors @ controller_collectors @ middleware_collectors @ api_collectors)"
  "init_packages cleaner_packages [] = Ok (protocol_collectors @ controller_collectors @ cleaner_collectors)"
  using names_distinct names_valid
  by (simp_all add: program_defs package_defs promauto_all_ok Int_Un_distrib Int_Un_distrib2 del: promauto_all.simps)

subsection \<open>Counted programs\<close>

text \<open>The counters that registrations change.\<close>

record metrics =
  mt_duplicateConnection :: nat
  mt_podRunningStatusLookupFailure :: nat
  mt_autoConnectionClosure :: nat
  mt_reRegisterConnection :: nat
  mt_unregisterStaleConnection :: nat
  mt_redisConnectionError :: nat

text \<open>A program over the state of a process, as a program over that state and the counters.\<close>

primrec with_metrics :: "('s, 'a) prog \<Rightarrow> ('s \<times> 'm, 'a) prog" where
  "with_metrics (Ret a) = Ret a"
| "with_metrics (Redis c k) = Redis c (\<lambda>r. with_metrics (k r))"
| "with_metrics (Local u k) = Local (map_prod u id) (\<lambda>s. with_metrics (k (fst s)))"

lemma run_with_metrics [simp]:
  "run ex (with_metrics p) (s, m) w = (case run ex p s w of (a, s', w') \<Rightarrow> (a, (s', m), w'))"
  by (induction p arbitrary: s w rule: prog_induct) (auto split: prod.splits)

definition count :: "('m \<Rightarrow> 'm) \<Rightarrow> ('s \<times> 'm, unit) prog" where
  "count f = locally (\<lambda>(s, m). ((), (s, f m)))"

lemma run_count [simp]: "run ex (count f) (s, m) w = ((), (s, f m), w)"
  by (simp add: count_def)

text \<open>\<open>logRedisError\<close>.\<close>

definition logRedisError :: "redis_err option \<Rightarrow> metrics \<Rightarrow> metrics" where
  "logRedisError err m =
     (if err \<noteq> None \<and> err \<noteq> Some RedisNil then m\<lparr>mt_redisConnectionError := mt_redisConnectionError m + 1\<rparr> else m)"

definition counted_GetRedisConnection :: "string \<Rightarrow> string \<Rightarrow> ('s \<times> metrics, string \<times> redis_err option) prog" where
  "counted_GetRedisConnection account nodeID =
     pbind (GetRedisConnection account nodeID) (\<lambda>(val, err).
     pbind (if err \<noteq> None \<and> err \<noteq> Some RedisNil then count (logRedisError err) else Ret ()) (\<lambda>_.
     Ret (val, err)))"

definition counted_RegisterWithRedis :: "string \<Rightarrow> string \<Rightarrow> string \<Rightarrow> ('s \<times> metrics, conn_error option) prog" where
  "counted_RegisterWithRedis account nodeID hostname =
     pbind (RegisterWithRedis account nodeID hostname) (\<lambda>err.
     pbind (case err of Some (RedisError e) \<Rightarrow> count (logRedisError (Some e)) | _ \<Rightarrow> Ret ()) (\<lambda>_.
     Ret err))"

definition counted_UnregisterWithRedis :: "string \<Rightarrow> string \<Rightarrow> string \<Rightarrow> ('s \<times> metrics, unit) prog" where
  "counted_UnregisterWithRedis account nodeID hostname =
     pbind
       (TxPipelined
         (pbind (redis (Del (getConnectionKey account nodeID))) (\<lambda>_.
          pbind (removeIndexes account nodeID hostname) (\<lambda>_. Ret ((), None)))))
       (\<lambda>(_, err). case err of Some e \<Rightarrow> count (logRedisError (Some e)) | None \<Rightarrow> Ret ())"

definition counted_closeConnection :: "'c \<Rightarrow> ('c gateway \<times> metrics, unit) prog" where
  "counted_closeConnection receptor =
     pbind (count (\<lambda>m. m\<lparr>mt_autoConnectionClosure := mt_autoConnectionClosure m + 1\<rparr>)) (\<lambda>_.
     with_metrics (closeConnectionDueToDuplication receptor))"

definition counted_registerAndClose ::
  "string \<Rightarrow> string \<Rightarrow> string \<Rightarrow> 'c \<Rightarrow> ('c gateway \<times> metrics, conn_error option) prog" where
  "counted_registerAndClose account nodeID hostname receptor =
     pbind (counted_RegisterWithRedis account nodeID hostname) (\<lambda>err.
     pbind (count (\<lambda>m. m\<lparr>mt_reRegisterConnection := mt_reRegisterConnection m + 1\<rparr>)) (\<lambda>_.
       if (case err of None \<Rightarrow> False | Some e \<Rightarrow> is_DuplicateConnectionError_pointer e)
       then pbind (counted_closeConnection receptor) (\<lambda>_. Ret err)
       else Ret err))"

text \<open>\<open>isPodRunning\<close> with the counter of failed lookups.\<close>

definition counted_isPodRunning ::
  "(string \<Rightarrow> string list option) \<Rightarrow> string \<Rightarrow> string \<Rightarrow> ('s \<times> metrics, bool) prog" where
  "counted_isPodRunning dns headlessDNSName podName =
     pbind (case getRunningPods dns headlessDNSName of
              None \<Rightarrow> count (\<lambda>m. m\<lparr>mt_podRunningStatusLookupFailure := mt_podRunningStatusLookupFailure m + 1\<rparr>)
            | Some pods \<Rightarrow> Ret ()) (\<lambda>_.
     Ret (isPodRunning dns headlessDNSName podName))"

definition counted_turn ::
  "(string \<Rightarrow> string list option) \<Rightarrow> string \<Rightarrow> string \<Rightarrow> string \<Rightarrow> string \<Rightarrow> 'c \<Rightarrow> registrar_event \<Rightarrow>
   ('c gateway \<times> metrics, bool) prog" where
  "counted_turn dns clusterServiceName account nodeID hostname receptor ev =
     (case ev of
        CtxDone \<Rightarrow> Ret False
      | Tick \<Rightarrow>
          pbind (counted_GetRedisConnection account nodeID) (\<lambda>(hostNameFromRedis, err).
            if err \<noteq> None \<and> err \<noteq> Some RedisNil then
              pbind (count (\<lambda>m. m\<lparr>mt_redisConnectionError := mt_redisConnectionError m + 1\<rparr>)) (\<lambda>_. Ret True)
            else if hostNameFromRedis = [] then
              pbind (counted_registerAndClose account nodeID hostname receptor) (\<lambda>_. Ret True)
            else if hostNameFromRedis \<noteq> hostname then
              pbind (counted_isPodRunning dns clusterServiceName hostNameFromRedis) (\<lambda>running.
                if running then pbind (counted_closeConnection receptor) (\<lambda>_. Ret False)
                else
                  pbind (count (\<lambda>m. m\<lparr>mt_unregisterStaleConnection := mt_unregisterStaleConnection m + 1\<rparr>)) (\<lambda>_.
                  pbind (counted_UnregisterWithRedis account nodeID hostNameFromRedis) (\<lambda>_.
                  pbind (counted_registerAndClose account nodeID hostname receptor) (\<lambda>_. Ret True))))
            else Ret True))"

subsection \<open>The counters do not change what is done\<close>

lemma with_metrics_pbind: "with_metrics (pbind p f) = pbind (with_metrics p) (\<lambda>a. with_metrics (f a))"
  by (induction p rule: prog_induct) auto

lemma with_metrics_redis: "with_metrics (redis c) = redis c"
  by (simp add: redis_def)

lemma with_metrics_cases:
  "with_metrics (if b then p else q) = (if b then with_metrics p else with_metrics q)"
  "with_metrics (case x of None \<Rightarrow> p | Some e \<Rightarrow> f e) = (case x of None \<Rightarrow> with_metrics p | Some e \<Rightarrow> with_metrics (f e))"
  "with_metrics (case y of (i, j) \<Rightarrow> g i j) = (case y of (i, j) \<Rightarrow> with_metrics (g i j))"
  by (simp_all split: option.split prod.split)

lemmas with_metrics_simps = with_metrics_pbind with_metrics_redis with_metrics_cases

lemma with_metrics_Tx: "with_metrics (TxPipelined p) = TxPipelined (with_metrics p)"
  by (simp add: TxPipelined_def with_metrics_simps cong: option.case_cong prod.case_cong)

text \<open>The programs of the connector do not look at the state of the process.\<close>

lemma with_metrics_connector:
  "with_metrics (GetRedisConnection a n) = GetRedisConnection a n"
  "with_metrics (RegisterWithRedis a n h) = RegisterWithRedis a n h"
  "with_metrics (UnregisterWithRedis a n h) = UnregisterWithRedis a n h"
  by (simp_all add: GetRedisConnection_def RegisterWithRedis_def UnregisterWithRedis_def addIndexes_def removeIndexes_def
      with_metrics_simps with_metrics_Tx cong: option.case_cong prod.case_cong if_cong)

lemma run_connector_metrics:
  "run ex (GetRedisConnection a n) (s, m) w = (case run ex (GetRedisConnection a n) s w of (r, s', w') \<Rightarrow> (r, (s', m), w'))"
  "run ex (RegisterWithRedis a n h) (s, m) w = (case run ex (RegisterWithRedis a n h) s w of (r, s', w') \<Rightarrow> (r, (s', m), w'))"
  "run ex (UnregisterWithRedis a n h) (s, m) w = (case run ex (UnregisterWithRedis a n h) s w of (r, s', w') \<Rightarrow> (r, (s', m), w'))"
  by (subst with_metrics_connector [symmetric], simp)+

text \<open>What a counted program of the connector does beside counting.\<close>

lemma run_counted_Get:
  "run ex (counted_GetRedisConnection a n) (s, m) w =
     (case run ex (GetRedisConnection a n) s w of ((v, err), s', w') \<Rightarrow> ((v, err), (s', logRedisError err m), w'))"
  by (auto simp: counted_GetRedisConnection_def run_connector_metrics logRedisError_def split: prod.splits)

lemma run_counted_Register:
  "run ex (counted_RegisterWithRedis a n h) (s, m) w =
     (case run ex (RegisterWithRedis a n h) s w of (err, s', w') \<Rightarrow>
        (err, (s', case err of Some (RedisError e) \<Rightarrow> logRedisError (Some e) m | _ \<Rightarrow> m), w'))"
  by (auto simp: counted_RegisterWithRedis_def run_connector_metrics split: prod.splits option.splits conn_error.splits)

lemma run_counted_Unregister:
  "\<exists>err. run ex (counted_UnregisterWithRedis a n h) (s, m) w =
     (case run ex (UnregisterWithRedis a n h) s w of (u, s', w') \<Rightarrow> (u, (s', logRedisError err m), w'))"
proof -
  let ?p = "TxPipelined (pbind (redis (Del (getConnectionKey a n))) (\<lambda>_. pbind (removeIndexes a n h) (\<lambda>_. Ret ((), None))))"
  have "with_metrics ?p = ?p" by (simp add: removeIndexes_def with_metrics_simps with_metrics_Tx)
  then have p: "run ex ?p (s, m) w = (case run ex ?p s w of (r, s', w') \<Rightarrow> (r, (s', m), w'))" by (metis run_with_metrics)
  obtain e s' w' where e: "run ex ?p s w = (((), e), s', w')" by (cases "run ex ?p s w") auto
  then have "run ex (counted_UnregisterWithRedis a n h) (s, m) w = ((), (s', logRedisError e m), w')"
    by (auto simp: counted_UnregisterWithRedis_def p logRedisError_def split: option.split)
  moreover have "run ex (UnregisterWithRedis a n h) s w = ((), s', w')" using e by (simp add: UnregisterWithRedis_def)
  ultimately show ?thesis by auto
qed

lemma run_counted_close:
  "run ex (counted_closeConnection c) (g, m) w =
     ((), (g\<lparr>gw_closed := c # gw_closed g\<rparr>, m\<lparr>mt_autoConnectionClosure := mt_autoConnectionClosure m + 1\<rparr>), w)"
  by (simp add: counted_closeConnection_def run_closeConnection)

text \<open>The counters with the one of Redis errors left out.\<close>

definition erased :: "metrics \<Rightarrow> metrics" where
  "erased m = m\<lparr>mt_redisConnectionError := 0\<rparr>"

lemma erased_log [simp]: "erased (logRedisError err m) = erased m"
  by (simp add: erased_def logRedisError_def)

lemma erased_updates [simp]:
  "erased (m\<lparr>mt_podRunningStatusLookupFailure := x\<rparr>) = (erased m)\<lparr>mt_podRunningStatusLookupFailure := x\<rparr>"
  "erased (m\<lparr>mt_autoConnectionClosure := x\<rparr>) = (erased m)\<lparr>mt_autoConnectionClosure := x\<rparr>"
  "erased (m\<lparr>mt_reRegisterConnection := x\<rparr>) = (erased m)\<lparr>mt_reRegisterConnection := x\<rparr>"
  "erased (m\<lparr>mt_unregisterStaleConnection := x\<rparr>) = (erased m)\<lparr>mt_unregisterStaleConnection := x\<rparr>"
  "erased (m\<lparr>mt_redisConnectionError := x\<rparr>) = erased m"
  by (simp_all add: erased_def)

lemma erased_fields:
  "mt_podRunningStatusLookupFailure m = mt_podRunningStatusLookupFailure (erased m)"
  "mt_autoConnectionClosure m = mt_autoConnectionClosure (erased m)"
  "mt_reRegisterConnection m = mt_reRegisterConnection (erased m)"
  "mt_unregisterStaleConnection m = mt_unregisterStaleConnection (erased m)"
  by (simp_all add: erased_def)

lemma run_counted_registerAndClose:
  "\<exists>m'. run ex (counted_registerAndClose a n h c) (g, m) w =
     (case run ex (registerAndCloseConnectionOnDuplicate a n h c) g w of (err, g', w') \<Rightarrow> (err, (g', m'), w')) \<and>
     erased m' = (erased m)\<lparr>mt_reRegisterConnection := mt_reRegisterConnection (erased m) + 1\<rparr>"
proof -
  obtain err g' w' where r: "run ex (RegisterWithRedis a n h) g w = (err, g', w')" using prod_cases3 by blast
  define m1 where "m1 = (case err of Some (RedisError e) \<Rightarrow> logRedisError (Some e) m | _ \<Rightarrow> m)"
  have e: "erased m1 = erased m" by (simp add: m1_def split: option.split conn_error.split)
  have "\<not> (case err of None \<Rightarrow> False | Some e \<Rightarrow> is_DuplicateConnectionError_pointer e)"
    by (auto split: option.split elim: is_DuplicateConnectionError_pointer.elims)
  then have "run ex (counted_registerAndClose a n h c) (g, m) w =
      (err, (g', m1\<lparr>mt_reRegisterConnection := mt_reRegisterConnection m1 + 1\<rparr>), w')"
    by (simp add: counted_registerAndClose_def run_counted_Register r m1_def)
  moreover have "mt_reRegisterConnection m1 = mt_reRegisterConnection (erased m)" using e erased_fields(3) by metis
  ultimately show ?thesis using r e by (simp add: registerAndClose_eq)
qed

lemma run_counted_isPodRunning:
  "run ex (counted_isPodRunning dns svc h) (s, m) w =
     (isPodRunning dns svc h, (s, if dns svc = None
        then m\<lparr>mt_podRunningStatusLookupFailure := mt_podRunningStatusLookupFailure m + 1\<rparr> else m), w)"
  by (simp add: counted_isPodRunning_def getRunningPods_def split: option.split)

text \<open>Property C32. A tick of the active registrar with its metrics does what it does without, whatever Redis and DNS
  do, and counts exactly what it did: a closed connection, an entry put back or taken over, a failed lookup
  of the pods. An error of the first command is counted twice, by the connector and by the registrar.\<close>

theorem registrar_tick_counted:
  assumes "run ex (counted_turn dns svc a n host c Tick) (g, m) w = (cont, (g', m'), w')"
    and "run ex (GetRedisConnection a n) g w = ((hn, err), g0, w0)"
    and "failed \<longleftrightarrow> err \<noteq> None \<and> err \<noteq> Some RedisNil" "foreign \<longleftrightarrow> \<not> failed \<and> hn \<noteq> [] \<and> hn \<noteq> host"
    and "gone \<longleftrightarrow> foreign \<and> (\<forall>hosts. dns svc = Some hosts \<longrightarrow> hn \<notin> set hosts)"
  shows "run ex (registrar_turn dns svc a n host c Tick) g w = (cont, g', w') \<and>
    mt_autoConnectionClosure m' = mt_autoConnectionClosure m + of_bool (foreign \<and> \<not> gone) \<and>
    mt_reRegisterConnection m' = mt_reRegisterConnection m + of_bool (\<not> failed \<and> hn = [] \<or> gone) \<and>
    mt_unregisterStaleConnection m' = mt_unregisterStaleConnection m + of_bool gone \<and>
    mt_podRunningStatusLookupFailure m' = mt_podRunningStatusLookupFailure m + of_bool (foreign \<and> dns svc = None) \<and>
    (failed \<longrightarrow> mt_redisConnectionError m' = mt_redisConnectionError m + 2)"
proof -
  have g0: "g0 = g" using run_redis_only [OF _ assms(2)] by simp
  have running: "isPodRunning dns svc hn \<longleftrightarrow> \<not> (\<forall>hosts. dns svc = Some hosts \<longrightarrow> hn \<notin> set hosts)"
    by (auto simp: isPodRunning_iff)
  note get = run_counted_Get [of ex a n g m w] assms(2) g0
  obtain m1 where reg: "run ex (counted_registerAndClose a n host c) (g, logRedisError err m) w0 =
      (case run ex (registerAndCloseConnectionOnDuplicate a n host c) g w0 of (e, g', w') \<Rightarrow> (e, (g', m1), w'))"
    "erased m1 = (erased m)\<lparr>mt_reRegisterConnection := mt_reRegisterConnection (erased m) + 1\<rparr>"
    using run_counted_registerAndClose [of ex a n host c g "logRedisError err m" w0] by auto
  have log: "logRedisError err m = m" if "\<not> failed" using that assms(3) by (simp add: logRedisError_def)
  consider "failed" | "\<not> failed" "hn = []" | "\<not> failed" "hn \<noteq> []" "hn = host" | "foreign" "\<not> gone" | "foreign" "gone"
    using assms(4,5) by blast
  then show ?thesis
  proof cases
    case 1
    then show ?thesis using assms get by (auto simp: counted_turn_def registrar_turn_def logRedisError_def)
  next
    case 2
    obtain e g1 w1 where r: "run ex (registerAndCloseConnectionOnDuplicate a n host c) g w0 = (e, g1, w1)" using prod_cases3 by blast
    have "m' = m1" "run ex (registrar_turn dns svc a n host c Tick) g w = (cont, g', w')"
      using 2 assms(1-3) get reg(1) r by (auto simp: counted_turn_def registrar_turn_def)
    with 2 assms(4,5) reg(2) show ?thesis by (cases m; cases m1) (simp add: erased_def)
  next
    case 3
    then show ?thesis using assms get log by (auto simp: counted_turn_def registrar_turn_def)
  next
    case 4
    then show ?thesis
      using assms get log running
      by (auto simp: counted_turn_def registrar_turn_def run_counted_isPodRunning run_counted_close run_closeConnection)
  next
    case 5
    define m2 where "m2 = (if dns svc = None then m\<lparr>mt_podRunningStatusLookupFailure := mt_podRunningStatusLookupFailure m + 1\<rparr> else m)"
    define m3 where "m3 = m2\<lparr>mt_unregisterStaleConnection := mt_unregisterStaleConnection m2 + 1\<rparr>"
    obtain u g1 w1 where un: "run ex (UnregisterWithRedis a n hn) g w0 = (u, g1, w1)" using prod_cases3 by blast
    have "g1 = g" using run_redis_only [OF _ un] by simp
    with un obtain ee where un': "run ex (counted_UnregisterWithRedis a n hn) (g, m3) w0 = (u, (g, logRedisError ee m3), w1)"
      using run_counted_Unregister [of ex a n hn g m3 w0] by auto
    obtain e g4 w4 where r: "run ex (registerAndCloseConnectionOnDuplicate a n host c) g w1 = (e, g4, w4)" using prod_cases3 by blast
    obtain m4 where r': "run ex (counted_registerAndClose a n host c) (g, logRedisError ee m3) w1 = (e, (g4, m4), w4)"
      "erased m4 = (erased m3)\<lparr>mt_reRegisterConnection := mt_reRegisterConnection (erased m3) + 1\<rparr>"
      using run_counted_registerAndClose [of ex a n host c g "logRedisError ee m3" w1] r by auto
    have "m' = m4" "run ex (registrar_turn dns svc a n host c Tick) g w = (cont, g', w')"
      using 5 assms(1-5) get log running un un' r r'(1) \<open>g1 = g\<close>
      by (auto simp: counted_turn_def registrar_turn_def run_counted_isPodRunning m3_def m2_def)
    with 5 assms(4,5) r'(2) show ?thesis by (cases m; cases m4) (auto simp: erased_def m3_def m2_def)
  qed
qed

definition zero_metrics :: metrics where
  "zero_metrics = \<lparr>mt_duplicateConnection = 0, mt_podRunningStatusLookupFailure = 0, mt_autoConnectionClosure = 0,
     mt_reRegisterConnection = 0, mt_unregisterStaleConnection = 0, mt_redisConnectionError = 0\<rparr>"

theorem registrar_tick_counted_witness:
  "\<exists>g' m' w'. run mem_exec (counted_turn (\<lambda>_. Some [''10.0.0.2'']) ''svc'' ''01'' ''node-a'' ''10.0.0.2'' ''conn'' Tick)
      (new_gateway, zero_metrics) sample_world = (True, (g', m'), w') \<and>
     run mem_exec (registrar_turn (\<lambda>_. Some [''10.0.0.2'']) ''svc'' ''01'' ''node-a'' ''10.0.0.2'' ''conn'' Tick)
      new_gateway sample_world = (True, g', w') \<and>
     mt_unregisterStaleConnection m' = 1 \<and> mt_reRegisterConnection m' = 1 \<and> mt_autoConnectionClosure m' = 0"
proof -
  let ?dns = "\<lambda>_ :: string. Some [''10.0.0.2'']"
  obtain cont g' m' w' where r: "run mem_exec (counted_turn ?dns ''svc'' ''01'' ''node-a'' ''10.0.0.2'' ''conn'' Tick)
      (new_gateway, zero_metrics) sample_world = (cont, (g', m'), w')" by (metis prod_cases3 surj_pair)
  obtain f g0 w0 where f: "run mem_exec (GetRedisConnection ''01'' ''node-a'') (new_gateway :: string gateway) sample_world = (f, g0, w0)"
    using prod_cases3 by blast
  have "mem_view sample_world (getConnectionKey ''01'' ''node-a'') = map_option VStr (Some ''10.0.0.1'')"
    using sample_registry sample_valid by (simp add: registry_def sample_R_def)
  from mem.run_GetRedisConnection [OF f this] have f': "f = (''10.0.0.1'', None)" by simp
  have res: "run mem_exec (registrar_turn ?dns ''svc'' ''01'' ''node-a'' ''10.0.0.2'' ''conn'' Tick) new_gateway sample_world =
      (cont, g', w')" "mt_unregisterStaleConnection m' = 1" "mt_reRegisterConnection m' = 1" "mt_autoConnectionClosure m' = 0"
    using registrar_tick_counted [OF r f [unfolded f'] refl refl refl] by (simp_all add: zero_metrics_def)
  have "cont"
    using mem.run_registrar_tick [OF sample_registry sample_valid(1,2,5) res(1)] by (simp add: sample_R_def isPodRunning_iff)
  with r res show ?thesis by auto
qed

subsection \<open>Registrations\<close>

text \<open>The gateway's \<open>Register\<close> and \<open>Unregister\<close>. A duplicate is counted where it is found by a lookup, in Redis or in the
  process, and not where the command of the registration finds it.\<close>

definition count_duplicate :: "metrics \<Rightarrow> metrics" where
  "count_duplicate m = m\<lparr>mt_duplicateConnection := mt_duplicateConnection m + 1\<rparr>"

definition counted_Unregister :: "string \<Rightarrow> string \<Rightarrow> string \<Rightarrow> ('c gateway \<times> metrics, unit) prog" where
  "counted_Unregister hostname account nodeID =
     pbind (counted_UnregisterWithRedis account nodeID hostname) (\<lambda>_.
     with_metrics
      (pbind (locally (\<lambda>g. ((), g\<lparr>gw_local := Local_Unregister (gw_local g) account nodeID\<rparr>))) (\<lambda>_.
       pbind (StopActiveRegistrar account nodeID) (\<lambda>_. Ret ()))))"

definition counted_local_register :: "string \<Rightarrow> string \<Rightarrow> 'c \<Rightarrow> ('c gateway \<times> metrics, conn_error option) prog" where
  "counted_local_register account nodeID client =
     pbind (with_metrics (local_register account nodeID client)) (\<lambda>err.
     pbind (if err = Some DuplicateConnectionError then count count_duplicate else Ret ()) (\<lambda>_. Ret err))"

definition counted_Register ::
  "string \<Rightarrow> string \<Rightarrow> string \<Rightarrow> 'c \<Rightarrow> ('c gateway \<times> metrics, conn_error option) prog" where
  "counted_Register hostname account nodeID client =
     pbind (ExistsInRedis account nodeID) (\<lambda>found.
       if found then pbind (count count_duplicate) (\<lambda>_. Ret (Some DuplicateConnectionError))
       else pbind (counted_RegisterWithRedis account nodeID hostname) (\<lambda>err.
         case err of
           Some e \<Rightarrow> Ret (Some e)
         | None \<Rightarrow>
             pbind (counted_local_register account nodeID client) (\<lambda>err.
               case err of
                 Some e \<Rightarrow> pbind (counted_Unregister hostname account nodeID) (\<lambda>_. Ret (Some e))
               | None \<Rightarrow> pbind (with_metrics (StartActiveRegistrar account nodeID client)) (\<lambda>_. Ret None))))"

lemma run_counted_Gateway_Unregister:
  "\<exists>m'. run ex (counted_Unregister h a n) (g, m) w =
     (case run ex (Gateway_Unregister h a n) g w of (u, g', w') \<Rightarrow> (u, (g', m'), w'))"
  using run_counted_Unregister [of ex a n h g m w]
  by (auto simp: counted_Unregister_def Gateway_Unregister_def split: prod.splits)

text \<open>Counting changes nothing else.\<close>

lemma counted_Register_transparent:
  assumes "run ex (counted_Register h a n c) (g, m) w = (res, (g', m'), w')"
  shows "run ex (Gateway_Register h a n c) g w = (res, g', w')"
proof -
  have ex: "run ex (ExistsInRedis a n) (g, m) w = (case run ex (ExistsInRedis a n) g w of (r, s', w') \<Rightarrow> (r, (s', m), w'))"
    by (simp add: ExistsInRedis_def split: prod.split)
  obtain b s1 w1 where r1: "run ex (ExistsInRedis a n) g w = (b, s1, w1)" using prod_cases3 by blast
  obtain e s2 w2 where r2: "run ex (RegisterWithRedis a n h) g w1 = (e, s2, w2)" using prod_cases3 by blast
  have s: "s1 = g" "s2 = g" using run_redis_only [OF _ r1] run_redis_only [OF _ r2] by simp_all
  obtain e3 g3 w3 where r3: "run ex (local_register a n c) g w2 = (e3, g3, w3)" using prod_cases3 by blast
  obtain u g4 w4 where r4: "run ex (Gateway_Unregister h a n) g3 w3 = (u, g4, w4)" using prod_cases3 by blast
  have un: "g5 = g4 \<and> w5 = w4" if "run ex (counted_Unregister h a n) (g3, m1) w3 = (u', (g5, m2), w5)" for m1 u' g5 m2 w5
    using that run_counted_Gateway_Unregister [of ex h a n g3 m1 w3] r4 by auto
  show ?thesis
    using assms r1 r2 r3 s
    by (auto simp: counted_Register_def Gateway_Register_def ex run_counted_Register counted_local_register_def r4
        split: if_splits option.splits prod.splits dest: un)
qed

subsection \<open>Websocket handlers\<close>

text \<open>The gauge of active connections. A handler counts its connection when it starts; the deferred call takes it
  back when the handler returns, also after a failed upgrade or a panic.\<close>

record ws_metrics =
  wm_TotalConnection :: nat
  wm_ActiveConnection :: int

definition handler_starts :: "ws_metrics \<Rightarrow> ws_metrics" where
  "handler_starts m = m\<lparr>wm_TotalConnection := wm_TotalConnection m + 1, wm_ActiveConnection := wm_ActiveConnection m + 1\<rparr>"

definition handler_ends :: "ws_metrics \<Rightarrow> ws_metrics" where
  "handler_ends m = m\<lparr>wm_ActiveConnection := wm_ActiveConnection m - 1\<rparr>"

inductive handlers_step :: "nat set \<times> ws_metrics \<Rightarrow> nat set \<times> ws_metrics \<Rightarrow> bool" where
  starts: "i \<notin> H \<Longrightarrow> handlers_step (H, m) (insert i H, handler_starts m)"
| ends: "i \<in> H \<Longrightarrow> handlers_step (H, m) (H - {i}, handler_ends m)"

text \<open>The gauge is the number of handlers that run.\<close>

lemma active_connections_exact:
  assumes "handlers_step\<^sup>*\<^sup>* ({}, \<lparr>wm_TotalConnection = 0, wm_ActiveConnection = 0\<rparr>) (H, m)"
  shows "finite H \<and> wm_ActiveConnection m = int (card H) \<and> card H \<le> wm_TotalConnection m"
  using assms
proof (induction "(H, m)" arbitrary: H m rule: rtranclp_induct)
  case base
  then show ?case by simp
next
  case (step y)
  from step(2) show ?case
  proof cases
    case (starts i H' m')
    with step(3) [of H' m'] show ?thesis by (simp add: handler_starts_def)
  next
    case (ends i H' m')
    with step(3) [of H' m'] have IH: "finite H'" "wm_ActiveConnection m' = int (card H')" "card H' \<le> wm_TotalConnection m'" by auto
    moreover have "0 < card H'" using ends IH(1) by (auto simp: card_gt_0_iff)
    ultimately show ?thesis using ends by (simp add: handler_ends_def card_Diff_singleton of_nat_diff)
  qed
qed

end
