(* ===== verification/Repair.thy ===== *)
theory Repair
  imports Pod
begin

text \<open>
  The registry after a loss. Entries of the registry may be missing or name pods that are gone: Redis has been
  restarted, a pod has crashed, the cleaner has worked with an old list of pods. The active registrars
  (\<open>internal/controller/active_connection_registrar.go\<close>) put the registry right again. This theory shows from what
  and to what, how two connections of one node are resolved, and which stale entry is never removed.
\<close>

subsection \<open>Rounds of ticks\<close>

text \<open>The active registrars of the pods tick one after the other, in any order and any number of times.\<close>

inductive ticks_run ::
  "'w redis_exec \<Rightarrow> (string \<Rightarrow> string list option) \<Rightarrow> string \<Rightarrow> (string \<times> 'c active_registrar) list \<Rightarrow>
   ('c, 'w) cluster \<Rightarrow> ('c, 'w) cluster \<Rightarrow> bool"
  for ex :: "'w redis_exec" and dns :: "string \<Rightarrow> string list option" and svc :: string where
  rest: "ticks_run ex dns svc [] s s"
| tick: "\<lbrakk>P h = Some g; live g r;
      run ex (registrar_turn dns svc (ar_account r) (ar_nodeID r) h (ar_receptor r) Tick) g w = (cont, g', w');
      ticks_run ex dns svc ts (P(h \<mapsto> g'), w') s\<rbrakk>
    \<Longrightarrow> ticks_run ex dns svc ((h, r) # ts) (P, w) s"

inductive_cases ticks_runE: "ticks_run ex dns svc ((h, r) # ts) s s'"

inductive_simps ticks_run_Nil [simp]: "ticks_run ex dns svc [] s s'"

text \<open>Every pod is in order by itself; nothing is asked of how pods and registry agree.\<close>

definition pods_ok :: "(string \<rightharpoonup> 'c gateway) \<Rightarrow> bool" where
  "pods_ok P \<longleftrightarrow> (\<forall>h g. P h = Some g \<longrightarrow> valid_host h \<and> gw_ok g \<and> (\<forall>r. live g r \<longrightarrow> valid_node (ar_nodeID r)))"

text \<open>A registrar has done its work: the registry names its pod, or another running pod and then the
  connection has been closed.\<close>

definition settled :: "(string \<rightharpoonup> 'c gateway) \<Rightarrow> registry_spec \<Rightarrow> string \<Rightarrow> 'c active_registrar \<Rightarrow> bool" where
  "settled P R h r \<longleftrightarrow> (\<exists>h' g. R (ar_account r, ar_nodeID r) = Some h' \<and> P h' \<noteq> None \<and> P h = Some g \<and>
     (h' = h \<or> ar_receptor r \<in> set (gw_closed g)))"

lemma pods_okD:
  assumes "pods_ok P" "P h = Some g" "live g r"
  shows "valid_host h" "gw_ok g" "valid_account (ar_account r)" "valid_node (ar_nodeID r)"
  using assms gw_ok_registrars(1) unfolding pods_ok_def by blast+

lemma live_closed [simp]: "live (g\<lparr>gw_closed := cs\<rparr>) = live g"
  by (simp add: live_def fun_eq_iff)

lemma pods_ok_closed: "pods_ok P \<Longrightarrow> P h = Some g \<Longrightarrow> pods_ok (P(h \<mapsto> g\<lparr>gw_closed := cs\<rparr>))"
  unfolding pods_ok_def by simp

context reliable_redis
begin

text \<open>A tick settles its registrar and unsettles none.\<close>

lemma tick_settles:
  assumes "registry (view w) R" "pods_ok P" "dns svc = Some hosts" "set hosts = dom P" "P h = Some g" "live g r"
    "run exec (registrar_turn dns svc (ar_account r) (ar_nodeID r) h (ar_receptor r) Tick) g w = (cont, g', w')"
  shows "pods_ok (P(h \<mapsto> g')) \<and> (\<exists>R'. registry (view w') R' \<and> settled (P(h \<mapsto> g')) R' h r \<and>
    (\<forall>h1 r1. settled P R h1 r1 \<longrightarrow> settled (P(h \<mapsto> g')) R' h1 r1) \<and>
    (\<forall>p h'. R' p = Some h' \<longrightarrow> R p = Some h' \<or> h' = h \<and> p = (ar_account r, ar_nodeID r)))"
proof -
  let ?p = "(ar_account r, ar_nodeID r)"
  note ok = pods_okD [OF assms(2,5,6)]
  note tick = run_registrar_tick [OF assms(1) ok(3,4,1) assms(7), unfolded isPodRunning_iff]
  have up: "(\<exists>hosts. dns svc = Some hosts \<and> h' \<in> set hosts) \<longleftrightarrow> P h' \<noteq> None" for h'
    using assms(3,4) by auto
  consider (own) "R ?p = Some h" "g' = g" "registry (view w') R"
    | (gone) "R ?p = None \<or> (\<exists>h'. R ?p = Some h' \<and> P h' = None)" "g' = g" "registry (view w') (R(?p \<mapsto> h))"
    | (other) h' where "R ?p = Some h'" "P h' \<noteq> None" "g' = g\<lparr>gw_closed := ar_receptor r # gw_closed g\<rparr>"
        "registry (view w') R"
  proof -
    consider "R ?p = None" | "R ?p = Some h" | h' where "R ?p = Some h'" "h' \<noteq> h" "P h' = None"
      | h' where "R ?p = Some h'" "h' \<noteq> h" "P h' \<noteq> None" by (metis not_None_eq)
    then show thesis
    proof cases
      case 1
      with tick show thesis by (intro gone) simp_all
    next
      case 2
      with tick show thesis by (intro own) simp_all
    next
      case 3
      with tick show thesis unfolding up by (intro gone) simp_all
    next
      case 4
      with tick show thesis unfolding up by (intro other) simp_all
    qed
  qed
  then show ?thesis
  proof cases
    case own
    then have "settled P R h r" "P(h \<mapsto> g') = P" using assms(5) by (auto simp: settled_def)
    with own(3) assms(2) show ?thesis by auto
  next
    case gone
    have "settled P R h1 r1 \<longrightarrow> settled P (R(?p \<mapsto> h)) h1 r1" for h1 r1
      using gone(1) by (auto simp: settled_def)
    moreover have "settled P (R(?p \<mapsto> h)) h r" "P(h \<mapsto> g') = P" using assms(5) gone(2) by (auto simp: settled_def)
    moreover have "\<forall>p h'. (R(?p \<mapsto> h)) p = Some h' \<longrightarrow> R p = Some h' \<or> h' = h \<and> p = ?p" by auto
    ultimately show ?thesis using gone(3) assms(2) by metis
  next
    case other
    have "settled P R h1 r1 \<longrightarrow> settled (P(h \<mapsto> g')) R h1 r1" for h1 r1
      using assms(5) other(3) by (fastforce simp: settled_def)
    moreover have "settled (P(h \<mapsto> g')) R h r" using other(1-3) by (auto simp: settled_def)
    ultimately show ?thesis using other pods_ok_closed [OF assms(2,5)] by blast
  qed
qed

lemma ticks_settle:
  assumes "ticks_run exec dns svc ts (P, w) (P', w')"
    and "registry (view w) R" "pods_ok P" "dns svc = Some hosts" "set hosts = dom P"
  shows "\<exists>R'. registry (view w') R' \<and>
    (\<forall>h r. (h, r) \<in> set ts \<or> settled P R h r \<longrightarrow> settled P' R' h r) \<and>
    (\<forall>p h. R' p = Some h \<longrightarrow> R p = Some h \<or> (\<exists>r. (h, r) \<in> set ts \<and> p = (ar_account r, ar_nodeID r)))"
  using assms
proof (induction ts arbitrary: P w R)
  case (Cons t ts)
  obtain h r where t: "t = (h, r)" by fastforce
  from Cons.prems(1) [unfolded t] obtain g cont g' w1 where st: "P h = Some g" "live g r"
    "run exec (registrar_turn dns svc (ar_account r) (ar_nodeID r) h (ar_receptor r) Tick) g w = (cont, g', w1)"
    "ticks_run exec dns svc ts (P(h \<mapsto> g'), w1) (P', w')"
    by (auto elim: ticks_runE)
  obtain R1 where R1: "pods_ok (P(h \<mapsto> g'))" "registry (view w1) R1" "settled (P(h \<mapsto> g')) R1 h r"
    "\<forall>h1 r1. settled P R h1 r1 \<longrightarrow> settled (P(h \<mapsto> g')) R1 h1 r1"
    "\<forall>p h'. R1 p = Some h' \<longrightarrow> R p = Some h' \<or> h' = h \<and> p = (ar_account r, ar_nodeID r)"
    using tick_settles [OF Cons.prems(2-5) st(1-3)] by blast
  have "set hosts = dom (P(h \<mapsto> g'))" using Cons.prems(5) st(1) by auto
  from Cons.IH [OF st(4) R1(2,1) Cons.prems(4) this] obtain R' where R': "registry (view w') R'"
    "\<And>h1 r1. (h1, r1) \<in> set ts \<or> settled (P(h \<mapsto> g')) R1 h1 r1 \<Longrightarrow> settled P' R' h1 r1"
    "\<And>p h1. R' p = Some h1 \<Longrightarrow> R1 p = Some h1 \<or> (\<exists>r1. (h1, r1) \<in> set ts \<and> p = (ar_account r1, ar_nodeID r1))" by blast
  have "settled P' R' h1 r1" if "(h1, r1) \<in> set (t # ts) \<or> settled P R h1 r1" for h1 r1
    using that R'(2) R1(3,4) unfolding t by auto
  moreover have "R p = Some h1 \<or> (\<exists>r1. (h1, r1) \<in> set (t # ts) \<and> p = (ar_account r1, ar_nodeID r1))"
    if "R' p = Some h1" for p h1
    using R'(3) [OF that]
  proof
    assume "R1 p = Some h1"
    then have "R p = Some h1 \<or> h1 = h \<and> p = (ar_account r, ar_nodeID r)" using R1(5) by blast
    then show ?thesis unfolding t by auto
  qed auto
  ultimately show ?case using R'(1) by blast
qed auto

end

text \<open>Property C4. The registry heals. Start from any pods and any registry: entries may be missing, may name pods
  that are gone, and several pods may hold the same node. Let the server answer, let DNS name the running pods,
  and let registrars tick in any order. Afterwards each connection whose registrar has ticked is named by the
  registry, or the registry names another running pod and the connection has been closed. An entry that was
  not there before belongs to a connection whose registrar has ticked.\<close>

theorem registry_self_heals:
  assumes "reliable_redis ex view" "registry (view w) R" "pods_ok P" "dns svc = Some hosts" "set hosts = dom P"
    and "ticks_run ex dns svc ts (P, w) (P', w')"
  shows "\<exists>R'. registry (view w') R' \<and>
    (\<forall>(h, r) \<in> set ts. \<exists>h' g. R' (ar_account r, ar_nodeID r) = Some h' \<and> P' h' \<noteq> None \<and> P' h = Some g \<and>
       (h' = h \<or> ar_receptor r \<in> set (gw_closed g))) \<and>
    (\<forall>p h. R' p = Some h \<longrightarrow> R p = Some h \<or> (\<exists>r. (h, r) \<in> set ts \<and> p = (ar_account r, ar_nodeID r)))"
proof -
  obtain R' where R': "registry (view w') R'" "\<And>h r. (h, r) \<in> set ts \<Longrightarrow> settled P' R' h r"
    "\<forall>p h. R' p = Some h \<longrightarrow> R p = Some h \<or> (\<exists>r. (h, r) \<in> set ts \<and> p = (ar_account r, ar_nodeID r))"
    using reliable_redis.ticks_settle [OF assms(1,6,2-5)] by blast
  from R'(2) have "\<forall>(h, r) \<in> set ts. settled P' R' h r" by blast
  with R'(1,3) show ?thesis unfolding settled_def by (intro exI [of _ R'] conjI)
qed

text \<open>A pod whose entry was lost.\<close>

definition sample_holder :: "string gateway" where
  "sample_holder = gw_registered new_gateway ''01'' ''node-a'' ''conn''"

definition sample_registrar :: "string active_registrar" where
  "sample_registrar = \<lparr>ar_ctx = 0, ar_account = ''01'', ar_nodeID = ''node-a'', ar_receptor = ''conn''\<rparr>"

lemma sample_holder_ok: "gw_ok sample_holder" "live sample_holder r \<longleftrightarrow> r = sample_registrar"
proof -
  show "gw_ok sample_holder" unfolding sample_holder_def
    by (rule gw_ok_registered [OF gw_ok_new sample_valid(1) new_gateway_get])
  show "live sample_holder r \<longleftrightarrow> r = sample_registrar"
    by (auto simp: sample_holder_def gw_registered_def new_gateway_def live_def sample_registrar_def)
qed

theorem registry_self_heals_witness:
  "\<exists>w' R'. ticks_run mem_exec (\<lambda>_. Some [''10.0.0.1'']) ''svc'' [(''10.0.0.1'', sample_registrar)]
      ([''10.0.0.1'' \<mapsto> sample_holder], []) ([''10.0.0.1'' \<mapsto> sample_holder], w') \<and>
     registry (mem_view w') R' \<and> R' (''01'', ''node-a'') = Some ''10.0.0.1''"
proof -
  let ?r = sample_registrar and ?dns = "\<lambda>_ :: string. Some [''10.0.0.1'']" and ?P = "[''10.0.0.1'' \<mapsto> sample_holder]"
  obtain cont g' w' where r: "run mem_exec (registrar_turn ?dns ''svc'' (ar_account ?r) (ar_nodeID ?r) ''10.0.0.1''
      (ar_receptor ?r) Tick) sample_holder [] = (cont, g', w')" using prod_cases3 by blast
  have a: "ar_account ?r = ''01''" "ar_nodeID ?r = ''node-a''" by (simp_all add: sample_registrar_def)
  have g': "g' = sample_holder"
    using mem.run_registrar_tick [OF registry_empty _ _ sample_valid(4) r] sample_valid(1,2) by (simp add: a)
  have st: "ticks_run mem_exec ?dns ''svc'' [(''10.0.0.1'', ?r)] (?P, []) (?P, w')"
    by (rule ticks_run.tick [OF _ _ r]) (simp_all add: sample_holder_ok g')
  have P: "pods_ok ?P" "set [''10.0.0.1''] = dom ?P"
    by (simp_all add: pods_ok_def sample_holder_ok sample_valid a)
  obtain R' where R': "registry (mem_view w') R'"
    "\<forall>(h, r) \<in> set [(''10.0.0.1'', ?r)]. \<exists>h' g. R' (ar_account r, ar_nodeID r) = Some h' \<and> ?P h' \<noteq> None \<and> ?P h = Some g \<and>
       (h' = h \<or> ar_receptor r \<in> set (gw_closed g))"
    using registry_self_heals [OF mem.reliable_redis_axioms registry_empty P(1) refl P(2) st] by blast
  then have "R' (''01'', ''node-a'') = Some ''10.0.0.1''" by (auto simp: a split: if_splits)
  with st R'(1) show ?thesis by blast
qed


subsection \<open>Two connections of one node\<close>

lemma registry_restored:
  assumes "registry v R" "R (a, n) = Some h" "valid_host h'" "h' \<noteq> h"
  shows "unregistered v a n h' (getConnectionKey a n) = None" "registry (registered (unregistered v a n h') a n h) R"
proof -
  have v: "valid_registry R" "valid_account a" "valid_node n" "valid_host h"
    using assms(1,2) by (auto simp: registry_def valid_registry_def)
  have mem: "getAllConnectionsIndexVal a n h \<in> all_index R" "getAccountIndexVal n h \<in> account_index R a"
    "getPodIndexVal a n \<in> pod_index R h" using assms(2) by (auto simp: index_mem)
  have absent: "getAllConnectionsIndexVal a n h' \<notin> all_index R" "getAccountIndexVal n h' \<notin> account_index R a"
    "getPodIndexVal a n \<notin> pod_index R h'"
    using v assms(2,4) index_inj unfolding index_mem valid_registry_def by (metis option.inject)+
  show "unregistered v a n h' (getConnectionKey a n) = None"
    using assms(1,3) v by (simp add: unregistered_def keys_differ' registry_def)
  show "registry (registered (unregistered v a n h') a n h) R"
    using assms v mem absent
    by (simp add: registry_def registered_def unregistered_def keys_differ' key_inj insert_absorb)
qed

text \<open>Property C15. A node is connected to two pods and the registry names one of them, which is running. The tick
  of the other pod closes that pod's connection. When the connection ends it is unregistered, which deletes the
  key of the node although it names the first pod: a lookup does not find the node. The next tick of the first
  pod restores the registry exactly, and its connection stays.\<close>

theorem duplicate_resolved:
  assumes "reliable_redis ex view" "registry (view w) R" "R (a, n) = Some h" "valid_host h'" "h' \<noteq> h"
    and "dns svc = Some hosts" "h \<in> set hosts" "lcm_ok (gw_local g')"
    and tick': "run ex (registrar_turn dns svc a n h' c' Tick) g' w = (cont', g1, w1)"
    and ends: "run ex (Gateway_Unregister h' a n) g1 w1 = (u, g2, w2)"
    and lookup: "run ex (GetRedisConnection a n) s w2 = (found, s3, w3)"
    and tick: "run ex (registrar_turn dns svc a n h c Tick) g w3 = (cont, g4, w4)"
  shows "\<not> cont' \<and> c' \<in> set (gw_closed g1) \<and> Local_GetConnection (gw_local g2) a n = None \<and>
    found = ([], Some RedisNil) \<and> cont \<and> g4 = g \<and> registry (view w4) R"
proof -
  have v: "valid_account a" "valid_node n"
    using assms(2,3) by (auto simp: registry_def valid_registry_def)
  have closes: "\<not> cont'" "g1 = g'\<lparr>gw_closed := c' # gw_closed g'\<rparr>" "registry (view w1) R"
    using reliable_redis.run_registrar_tick [OF assms(1,2) v(1,2) assms(4) tick'] assms(3,5-7) by (auto simp: isPodRunning_iff)
  note old = registry_restored [OF closes(3) assms(3-5)]
  obtain u1 s1 w1' where un: "run ex (UnregisterWithRedis a n h') g1 w1 = (u1, s1, w1')" using prod_cases3 by blast
  have "s1 = g1" "view w1' = unregistered (view w1) a n h'"
    using reliable_redis.run_UnregisterWithRedis [OF assms(1) un] by simp_all
  moreover have "w2 = w1'"
    using ends un by (auto simp: Gateway_Unregister_def run_StopActiveRegistrar)
  ultimately have w2: "view w2 = unregistered (view w1) a n h'" by simp
  have g2: "Local_GetConnection (gw_local g2) a n = None"
    using run_Gateway_Unregister_state [OF ends] gw_unregistered_get [of g1 a n a n] assms(8) by (simp add: closes(2))
  have none: "view w2 (getConnectionKey a n) = map_option VStr None" using old(1) w2 by simp
  from reliable_redis.run_GetRedisConnection [OF assms(1) lookup none]
  have found: "found = ([], Some RedisNil)" "view w3 = view w2" by simp_all
  obtain f s5 w5 where get: "run ex (GetRedisConnection a n) g w3 = (f, s5, w5)" using prod_cases3 by blast
  have f: "s5 = g" "view w5 = view w2" "f = ([], Some RedisNil)"
    using reliable_redis.run_GetRedisConnection [OF assms(1) get, of None] none found(2) by simp_all
  obtain e s6 w6 where reg: "run ex (RegisterWithRedis a n h) g w5 = (e, s6, w6)" using prod_cases3 by blast
  have "s6 = g" "view w6 = registered (view w2) a n h"
    using reliable_redis.run_RegisterWithRedis [OF assms(1) reg] none f(2) by simp_all
  moreover have "cont" "g4 = s6" "w4 = w6"
    using tick get f reg by (auto simp: registrar_turn_def registerAndClose_eq)
  ultimately show ?thesis using closes g2 found(1) old(2) w2 by simp
qed

theorem duplicate_resolved_witness:
  "\<exists>g1 w1 g2 w2 w3 w4.
     run mem_exec (registrar_turn (\<lambda>_. Some [''10.0.0.1'']) ''svc'' ''01'' ''node-a'' ''10.0.0.2'' ''conn2'' Tick)
       new_gateway sample_world = (False, g1, w1) \<and>
     run mem_exec (Gateway_Unregister ''10.0.0.2'' ''01'' ''node-a'') g1 w1 = ((), g2, w2) \<and>
     run mem_exec (GetRedisConnection ''01'' ''node-a'') () w2 = (([], Some RedisNil), (), w3) \<and>
     run mem_exec (registrar_turn (\<lambda>_. Some [''10.0.0.1'']) ''svc'' ''01'' ''node-a'' ''10.0.0.1'' ''conn'' Tick)
       sample_holder w3 = (True, sample_holder, w4) \<and> registry (mem_view w4) sample_R"
proof -
  let ?dns = "\<lambda>_ :: string. Some [''10.0.0.1'']"
  obtain b g1 w1 where r1: "run mem_exec (registrar_turn ?dns ''svc'' ''01'' ''node-a'' ''10.0.0.2'' ''conn2'' Tick)
      new_gateway sample_world = (b, g1, w1)" using prod_cases3 by blast
  obtain u g2 w2 where r2: "run mem_exec (Gateway_Unregister ''10.0.0.2'' ''01'' ''node-a'') g1 w1 = (u, g2, w2)"
    using prod_cases3 by blast
  obtain f w3 where r3: "run mem_exec (GetRedisConnection ''01'' ''node-a'') () w2 = (f, (), w3)"
    by (cases "run mem_exec (GetRedisConnection ''01'' ''node-a'') () w2") auto
  obtain b' g4 w4 where r4: "run mem_exec (registrar_turn ?dns ''svc'' ''01'' ''node-a'' ''10.0.0.1'' ''conn'' Tick)
      sample_holder w3 = (b', g4, w4)" using prod_cases3 by blast
  have "\<not> b \<and> ''conn2'' \<in> set (gw_closed g1) \<and> Local_GetConnection (gw_local g2) ''01'' ''node-a'' = None \<and>
      f = ([], Some RedisNil) \<and> b' \<and> g4 = sample_holder \<and> registry (mem_view w4) sample_R"
    by (rule duplicate_resolved [OF mem.reliable_redis_axioms sample_registry _ sample_valid(5) _ refl _ _ r1 r2 r3 r4])
      (simp_all add: sample_R_def gw_ok_local [OF gw_ok_new])
  with r1 r2 r3 r4 show ?thesis by auto
qed

subsection \<open>An entry that nobody removes\<close>

text \<open>The registry names a running pod that does not hold the node, as when the pod's process crashed and was
  started again under the same address.\<close>

definition orphan :: "(string \<rightharpoonup> 'c gateway) \<Rightarrow> registry_spec \<Rightarrow> string \<Rightarrow> string \<Rightarrow> string \<Rightarrow> bool" where
  "orphan P R h a n \<longleftrightarrow> holds P R \<and> R (a, n) = Some h \<and>
     (\<exists>g. P h = Some g \<and> Local_GetConnection (gw_local g) a n = None)"

lemma orphan_unheld: "orphan P R h a n \<Longrightarrow> P h' = Some g' \<Longrightarrow> Local_GetConnection (gw_local g') a n = None"
  unfolding orphan_def using holdsD(3) by (metis option.inject)

text \<open>Steps of the cluster during which the pod \<open>h\<close> does not end.\<close>

definition up_step :: "'w redis_exec \<Rightarrow> ('w \<Rightarrow> redis_view) \<Rightarrow> string \<Rightarrow> ('c, 'w) cluster \<Rightarrow> ('c, 'w) cluster \<Rightarrow> bool" where
  "up_step ex view h s s' \<longleftrightarrow> cluster_step ex view s s' \<and> fst s' h \<noteq> None"

lemma registry_unique:
  assumes "registry v R" "registry v R'"
  shows "R = R'"
proof
  fix p :: "string \<times> string"
  obtain a n where p: "p = (a, n)" by (cases p)
  show "R p = R' p"
  proof (cases "valid_account a \<and> valid_node n")
    case True
    then have "map_option VStr (R p) = map_option VStr (R' p)" using assms by (simp add: registry_def p)
    then show ?thesis by (metis option.inj_map_strong redis_value.inject(1))
  next
    case False
    then have "R p = None" "R' p = None" using assms unfolding registry_def valid_registry_def p by (metis not_None_eq)+
    then show ?thesis by simp
  qed
qed

context reliable_redis
begin

text \<open>The operations of a pod, and the cleaner, leave the entry of another node or of a node they do not hold.\<close>

lemma registers_leaves:
  assumes "registry (view w) R" "holds P R" "P h1 = Some g" "valid_account a1" "valid_node n1"
    "run exec (Gateway_Register h1 a1 n1 c) g w = (res, g', w')"
    "R (a, n) = Some h" "Local_GetConnection (gw_local g) a n = None"
  shows "(\<exists>R1. registry (view w') R1 \<and> R1 (a, n) = Some h) \<and> Local_GetConnection (gw_local g') a n = None"
proof -
  note g = holdsD(1,2) [OF assms(2,3)]
  note reg = run_Gateway_Register [OF assms(1,4,5) g assms(6)]
  show ?thesis
  proof (cases "R (a1, n1)")
    case (Some x)
    then show ?thesis using reg(1) assms(7,8) by auto
  next
    case None
    then have free: "Local_GetConnection (gw_local g) a1 n1 = None" using holdsD(3) [OF assms(2,3)] by force
    have "(a1, n1) \<noteq> (a, n)" using None assms(7) by auto
    then show ?thesis
      using reg(2) [OF None free] assms(7,8) gw_registered_get [OF gw_ok_local [OF g(2)] free] by auto
  qed
qed

lemma unregisters_leaves:
  assumes "registry (view w) R" "holds P R" "P h1 = Some g" "Local_GetConnection (gw_local g) a1 n1 \<noteq> None"
    "run exec (Gateway_Unregister h1 a1 n1) g w = (u, g', w')"
    "R (a, n) = Some h" "Local_GetConnection (gw_local g) a n = None"
  shows "(\<exists>R1. registry (view w') R1 \<and> R1 (a, n) = Some h) \<and> Local_GetConnection (gw_local g') a n = None"
proof -
  note g = holdsD(1,2) [OF assms(2,3)]
  have R: "R (a1, n1) = Some h1" by (rule holdsD(3) [OF assms(2-4)])
  then have v: "valid_account a1" "valid_node n1" using assms(1) unfolding registry_def valid_registry_def by blast+
  have "(a1, n1) \<noteq> (a, n)" using assms(4,7) by auto
  then show ?thesis
    using run_Gateway_Unregister [OF assms(1) v g(1) _ assms(5)] R assms(6,7) gw_unregistered_get [OF gw_ok_local [OF g(2)]]
    by auto
qed

lemma cleans_leaves:
  assumes "registry (view w) R" "valid_account a1" "valid_node n1" "view w (getConnectionKey a1 n1) = Some (VStr h1)"
    "run exec (processConnection dryRun pods a1 n1 h1) u0 w = (b, u, w')"
    "R (a, n) = Some h" "map_of pods h \<noteq> None"
  shows "\<exists>R1. registry (view w') R1 \<and> R1 (a, n) = Some h"
proof (cases "map_of pods h1 = None \<and> \<not> dryRun")
  case True
  have R: "R (a1, n1) = Some h1" using assms(1-4) unfolding registry_def by auto
  obtain u1 s1 w1 where r: "run exec (UnregisterWithRedis a1 n1 h1) u0 w = (u1, s1, w1)" using prod_cases3 by blast
  have "w' = w1" using assms(5) True r by (simp add: processConnection_def)
  then have "registry (view w') (R((a1, n1) := None))"
    using run_UnregisterWithRedis [OF r] registry_unregistered [OF assms(1) R] by simp
  moreover have "(a1, n1) \<noteq> (a, n)" using R True assms(6,7) by auto
  ultimately show ?thesis using assms(6) by auto
next
  case False
  then show ?thesis using assms(1,5,6) by (auto simp: processConnection_def split: if_splits)
qed

lemma orphan_step:
  assumes "registry (view (snd s)) R" "orphan (fst s) R h a n" "up_step exec view h s s'"
  shows "\<exists>R'. registry (view (snd s')) R' \<and> orphan (fst s') R' h a n"
proof -
  have R: "holds (fst s) R" "R (a, n) = Some h" and running: "fst s h \<noteq> None" using assms(2) by (auto simp: orphan_def)
  note unheld = orphan_unheld [OF assms(2)]
  have st: "cluster_step exec view s s'" and up: "fst s' h \<noteq> None" using assms(3) by (auto simp: up_step_def)
  have "cluster_inv view s'" using cluster_inv_step [OF st] assms(1) R(1) by (auto simp: cluster_inv_def)
  then obtain R' where R': "registry (view (snd s')) R'" "holds (fst s') R'" by (auto simp: cluster_inv_def)
  have *: "\<exists>R'. registry (view (snd s')) R' \<and> orphan (fst s') R' h a n"
    if "\<exists>R1. registry (view (snd s')) R1 \<and> R1 (a, n) = Some h"
      "\<forall>g. fst s' h = Some g \<longrightarrow> Local_GetConnection (gw_local g) a n = None"
    using that R' up registry_unique [OF R'(1)] unfolding orphan_def by blast
  from st show ?thesis
  proof cases
    case (pod_starts P h1 w)
    with R(2) assms(1) unheld show ?thesis by (intro *) (auto simp: new_gateway_get split: if_splits)
  next
    case (pod_ends P w h1)
    with R(2) assms(1) unheld show ?thesis by (intro *) (auto split: if_splits)
  next
    case (registers P h1 g a1 n1 c w res g' w')
    then show ?thesis using registers_leaves [of w R P h1 g a1 n1 c res g' w' a n h] assms(1) R unheld
      by (intro *) (auto split: if_splits)
  next
    case (unregisters P h1 g a1 n1 w u g' w')
    then show ?thesis using unregisters_leaves [of w R P h1 g a1 n1 u g' w' a n h] assms(1) R unheld
      by (intro *) (auto split: if_splits)
  next
    case (ticks P h1 g r dns svc w cont g' w')
    then have "registry (view w') R \<and> g' = g" using ticks_leaves [of w R P h1 g r dns svc cont g' w'] assms(1) R(1) by simp
    then show ?thesis using ticks R(2) unheld by (intro *) (auto split: if_splits)
  next
    case (cleans P pods a1 n1 w h1 dryRun b u w')
    then show ?thesis using cleans_leaves [of w R a1 n1 h1 dryRun pods "()" b u w' a n h] assms(1) R unheld running
      by (intro *) auto
  qed
qed

lemma orphan_reachable:
  assumes "(up_step exec view h)\<^sup>*\<^sup>* s s'" "registry (view (snd s)) R" "orphan (fst s) R h a n"
  shows "\<exists>R'. registry (view (snd s')) R' \<and> orphan (fst s') R' h a n"
  using assms by (induction rule: rtranclp_induct) (auto dest: orphan_step)

end

text \<open>Property C13. A pod whose process ends without unregistering its connections, and that comes back under the same
  address, locks out the nodes it held. As long as it runs, whatever the pods do, and the cleaner with a list
  of the pods that has the running ones, no pod gets the node: every registration is refused as a duplicate, and
  a lookup names the pod that does not hold it.\<close>

theorem restart_locks_out:
  fixes P :: "string \<rightharpoonup> 'c gateway"
  assumes "reliable_redis ex view" "registry (view w0) R0" "(cluster_step ex view)\<^sup>*\<^sup>* (Map.empty, w0) (P, w)"
    and "P h = Some g" "Local_GetConnection (gw_local g) a n \<noteq> None"
    and "(up_step ex view h)\<^sup>*\<^sup>* (P(h \<mapsto> new_gateway), w) (P', w')" "P' h1 = Some g1"
    and "run ex (Gateway_Register h1 a n c) g1 w' = (res, g2, w2)"
  shows "Local_GetConnection (gw_local g1) a n = None \<and> res = Some DuplicateConnectionError \<and> g2 = g1 \<and>
    fst (run ex (GetRedisConnection a n) s w') = (h, None)"
proof -
  have "cluster_inv view (Map.empty :: string \<rightharpoonup> 'c gateway, w0)"
    using assms(2) by (auto simp: cluster_inv_def holds_def)
  from reliable_redis.cluster_inv_reachable [OF assms(1,3) this]
  obtain R where R: "registry (view w) R" "holds P R" by (auto simp: cluster_inv_def)
  have at: "R (a, n) = Some h" by (rule holdsD(3) [OF R(2) assms(4,5)])
  have "holds (P(h \<mapsto> new_gateway)) R" using R(2) assms(4) by (auto simp: holds_def gw_ok_new new_gateway_get)
  with at have "orphan (P(h \<mapsto> new_gateway)) R h a n" by (simp add: orphan_def new_gateway_get)
  then obtain R' where R': "registry (view w') R'" "orphan P' R' h a n"
    using reliable_redis.orphan_reachable [OF assms(1,6), of R a n] R(1) by auto
  then have h: "R' (a, n) = Some h" "holds P' R'" by (auto simp: orphan_def)
  have v: "valid_account a" "valid_node n" using R'(1) h(1) unfolding registry_def valid_registry_def by blast+
  have key: "view w' (getConnectionKey a n) = map_option VStr (Some h)" using R'(1) h(1) v by (simp add: registry_def)
  obtain f s1 w1 where f: "run ex (GetRedisConnection a n) s w' = (f, s1, w1)" using prod_cases3 by blast
  show ?thesis
    using orphan_unheld [OF R'(2) assms(7)] reliable_redis.run_GetRedisConnection [OF assms(1) f key] f h(1)
      reliable_redis.run_Gateway_Register(1) [OF assms(1) R'(1) v holdsD(1,2) [OF h(2) assms(7)] assms(8)] by simp
qed

theorem restart_locks_out_witness:
  "\<exists>w w2. run mem_exec (Gateway_Register ''10.0.0.1'' ''01'' ''node-a'' ''conn'') new_gateway [] = (None, sample_holder, w) \<and>
     run mem_exec (Gateway_Register ''10.0.0.2'' ''01'' ''node-a'' ''conn2'') (new_gateway :: string gateway) w =
       (Some DuplicateConnectionError, new_gateway, w2) \<and>
     fst (run mem_exec (GetRedisConnection ''01'' ''node-a'') () w) = (''10.0.0.1'', None)"
proof -
  let ?h = "''10.0.0.1''" and ?h' = "''10.0.0.2''" and ?new = "new_gateway :: string gateway"
  obtain res g w where r: "run mem_exec (Gateway_Register ?h ''01'' ''node-a'' ''conn'') new_gateway [] = (res, g, w)"
    using prod_cases3 by blast
  have g: "g = sample_holder" "res = None" unfolding sample_holder_def
    using mem.run_Gateway_Register(2) [OF registry_empty sample_valid(1,2,4) gw_ok_new r] by (simp_all add: new_gateway_get)
  obtain res2 g2 w2 where r2: "run mem_exec (Gateway_Register ?h' ''01'' ''node-a'' ''conn2'') ?new w = (res2, g2, w2)"
    using prod_cases3 by blast
  have get: "Local_GetConnection (gw_local sample_holder) ''01'' ''node-a'' \<noteq> None"
    by (simp add: sample_holder_def gw_registered_get [OF gw_ok_local [OF gw_ok_new] new_gateway_get])
  have "cluster_step mem_exec mem_view (Map.empty, []) ([?h \<mapsto> ?new], [])"
    by (rule cluster_step.pod_starts) (simp_all add: sample_valid)
  moreover have "cluster_step mem_exec mem_view ([?h \<mapsto> ?new], []) ([?h \<mapsto> sample_holder], w)"
    using cluster_step.registers [OF _ sample_valid(1,2) r, of "[?h \<mapsto> ?new]"] g by simp
  ultimately have st: "(cluster_step mem_exec mem_view)\<^sup>*\<^sup>* (Map.empty, []) ([?h \<mapsto> sample_holder], w)"
    by (meson converse_rtranclp_into_rtranclp rtranclp.rtrancl_refl)
  have "up_step mem_exec mem_view ?h ([?h \<mapsto> ?new], w) ([?h \<mapsto> ?new, ?h' \<mapsto> ?new], w)"
    unfolding up_step_def by (auto intro: cluster_step.pod_starts simp: sample_valid)
  then have up: "(up_step mem_exec mem_view ?h)\<^sup>*\<^sup>* ([?h \<mapsto> sample_holder, ?h \<mapsto> ?new], w) ([?h \<mapsto> ?new, ?h' \<mapsto> ?new], w)"
    by simp
  have "res2 = Some DuplicateConnectionError \<and> g2 = ?new \<and>
      fst (run mem_exec (GetRedisConnection ''01'' ''node-a'') () w) = (?h, None)"
    using restart_locks_out [OF mem.reliable_redis_axioms registry_empty st _ get up _ r2, where s = "()"] by simp
  with r r2 g show ?thesis by auto
qed

end
