(* ===== verification/Programs.thy ===== *)
theory Programs
  imports Platform Cleaner
begin

text \<open>
  The programs from the moment their servers run: the HTTP servers (\<open>internal/platform/utils/utils.go\<close>), the
  shutdown of the gateway and of the job receiver (\<open>src/cmd/gateway/main.go\<close>, \<open>src/cmd/job_receiver/main.go\<close>), and the
  connection cleaner as a whole (\<open>src/cmd/connection_cleaner/main.go\<close>).

  On a signal the gateway shuts its two servers down. The websocket server then starts the goroutine that closes
  the connections, and \<open>main\<close> waits for it. Goroutines are steps of a relation; the steps of the environment are
  requests, handlers that register and unregister connections, the timer and failing servers.
\<close>

subsection \<open>HTTP servers\<close>

text \<open>\<open>srv_busy\<close> counts the requests in progress. A websocket connection has been taken over by its handler and
  does not count.\<close>

record http_server =
  srv_addr :: string
  srv_name :: string
  srv_down :: bool
  srv_busy :: nat

definition StartHTTPServer :: "string \<Rightarrow> string \<Rightarrow> http_server" where
  "StartHTTPServer addr name = \<lparr>srv_addr = addr, srv_name = name, srv_down = False, srv_busy = 0\<rparr>"

text \<open>The goroutine that \<open>StartHTTPServer\<close> leaves behind: \<open>ListenAndServe\<close> has returned an error, none of which
  stands for \<open>http.ErrServerClosed\<close>. The result is the message the process ends with.\<close>

definition serve_returned :: "http_server \<Rightarrow> string option \<Rightarrow> string option" where
  "serve_returned srv err = (if err \<noteq> None then Some (srv_name srv @ '' server error'') else None)"

text \<open>\<open>Shutdown\<close> closes the listeners, and starts the functions registered for it; then it waits until no request is in
  progress or the context is done. Its result, once there is one, is the line that is logged for an error.\<close>

definition begin_shutdown :: "http_server \<Rightarrow> http_server" where
  "begin_shutdown srv = srv\<lparr>srv_down := True\<rparr>"

definition ShutdownHTTPServer :: "bool \<Rightarrow> http_server \<Rightarrow> string option option" where
  "ShutdownHTTPServer done srv =
     (if srv_busy srv = 0 then Some None
      else if done then Some (Some (''Error shutting down '' @ srv_name srv @ '' server''))
      else None)"

text \<open>\<open>GetHostname\<close>; \<open>hostname\<close> is the result of \<open>os.Hostname\<close>.\<close>

definition GetHostname :: "string option \<Rightarrow> string" where
  "GetHostname hostname = (case hostname of None \<Rightarrow> [] | Some name \<Rightarrow> name)"

subsection \<open>The websocket port\<close>

text \<open>The middleware that logs requests: the entry is made when the handler has returned. \<open>proto\<close> and \<open>remoteAddr\<close> are those
  of the request, \<open>caller\<close> the place that logs.\<close>

definition AccessLoggerMiddleware :: "string \<Rightarrow> string \<Rightarrow> string \<Rightarrow> 'st handler \<Rightarrow> ('st \<times> log_entry list) handler" where
  "AccessLoggerMiddleware proto remoteAddr caller next req s =
     (case s of (st, log) \<Rightarrow>
        (case next req st of
           (None, st') \<Rightarrow> (None, (st', log))
         | (Some resp, st') \<Rightarrow>
             (Some resp, (st', log @ [logrusAccessLogAdapter proto remoteAddr caller req (rsp_status resp) (length (rsp_body resp))]))))"

text \<open>\<open>identity.EnforceIdentity\<close> with the library's decision \<open>enforce\<close>.\<close>

definition EnforceIdentity :: "(http_request \<Rightarrow> http_response + http_request) \<Rightarrow> 'st handler \<Rightarrow> 'st handler" where
  "EnforceIdentity enforce next req st =
     (case enforce req of Inl resp \<Rightarrow> (Some resp, st) | Inr req' \<Rightarrow> next req' st)"

definition ReceptorController_Routes ::
  "string \<Rightarrow> string \<Rightarrow> string \<Rightarrow> (http_request \<Rightarrow> http_response + http_request) \<Rightarrow> 'st handler \<Rightarrow>
   ('st \<times> log_entry list) route list" where
  "ReceptorController_Routes proto remoteAddr caller enforce handleWebSocket =
     [(Some ''GET'', (\<lambda>p. p = ''/wss/receptor-controller'' @ ''/gateway''),
       (\<lambda>p. AccessLoggerMiddleware proto remoteAddr caller (EnforceIdentity enforce handleWebSocket)))]"

text \<open>A request without an identity never reaches the websocket handler, and is logged.\<close>

lemma websocket_needs_identity:
  assumes "enforce req = Inl resp" "rq_method req = ''GET''"
  shows "serve other (ReceptorController_Routes proto remoteAddr caller enforce h) ''/wss/receptor-controller/gateway'' req (st, log) =
    (Some resp, (st, log @ [logrusAccessLogAdapter proto remoteAddr caller req (rsp_status resp) (length (rsp_body resp))]))"
  using assms by (simp add: serve_def ReceptorController_Routes_def AccessLoggerMiddleware_def EnforceIdentity_def)

subsection \<open>The gateway\<close>

datatype main_pc = AwaitSignal | ShutdownApi | ShutdownWs | AwaitGroup | MainReturned | MainFatal string

datatype 'c closer = NotStarted | Started | Closing "'c list" | Sleeping | Finished

record 'c gateway_main =
  gm_pc :: main_pc
  gm_api :: http_server
  gm_ws :: http_server
  gm_done :: bool
  gm_wg :: nat
  gm_closer :: "'c closer"
  gm_local :: "'c LocalConnectionManager"
  gm_closed :: "'c list"

definition gateway_serves :: "string \<Rightarrow> string \<Rightarrow> 'c gateway_main" where
  "gateway_serves mgmtAddr wsAddr =
     \<lparr>gm_pc = AwaitSignal, gm_api = StartHTTPServer mgmtAddr ''management'', gm_ws = StartHTTPServer wsAddr ''websocket'',
      gm_done = False, gm_wg = 1, gm_closer = NotStarted, gm_local = NewLocalConnectionManager, gm_closed = []\<rparr>"

definition gm_alive :: "'c gateway_main \<Rightarrow> bool" where
  "gm_alive s \<longleftrightarrow> (case gm_pc s of MainReturned \<Rightarrow> False | MainFatal _ \<Rightarrow> False | _ \<Rightarrow> True)"

text \<open>The clients in the order in which \<open>closeConnections\<close> visits them.\<close>

definition clients_of :: "'c LocalConnectionManager \<Rightarrow> 'c list" where
  "clients_of cm = concat (map (\<lambda>(_, nodes). map snd nodes) (Local_GetAllConnections cm))"

text \<open>The steps of \<open>main\<close> and of \<open>closeConnections\<close>. The function registered for the shutdown of the websocket server
  starts when that server is shut down.\<close>

inductive main_step :: "'c gateway_main \<Rightarrow> 'c gateway_main \<Rightarrow> bool" where
  api_down: "\<lbrakk>gm_pc s = ShutdownApi; ShutdownHTTPServer (gm_done s) (gm_api s) = Some err\<rbrakk>
    \<Longrightarrow> main_step s (s\<lparr>gm_pc := ShutdownWs, gm_ws := begin_shutdown (gm_ws s), gm_closer := Started\<rparr>)"
| ws_down: "\<lbrakk>gm_pc s = ShutdownWs; ShutdownHTTPServer (gm_done s) (gm_ws s) = Some err\<rbrakk>
    \<Longrightarrow> main_step s (s\<lparr>gm_pc := AwaitGroup\<rparr>)"
| returns: "\<lbrakk>gm_pc s = AwaitGroup; gm_wg s = 0\<rbrakk> \<Longrightarrow> main_step s (s\<lparr>gm_pc := MainReturned\<rparr>)"
| lists: "\<lbrakk>gm_alive s; gm_closer s = Started\<rbrakk> \<Longrightarrow> main_step s (s\<lparr>gm_closer := Closing (clients_of (gm_local s))\<rparr>)"
| closes: "\<lbrakk>gm_alive s; gm_closer s = Closing (c # cs)\<rbrakk>
    \<Longrightarrow> main_step s (s\<lparr>gm_closer := Closing cs, gm_closed := gm_closed s @ [c]\<rparr>)"
| sleeps: "\<lbrakk>gm_alive s; gm_closer s = Closing []\<rbrakk> \<Longrightarrow> main_step s (s\<lparr>gm_closer := Sleeping\<rparr>)"
| finishes: "\<lbrakk>gm_alive s; gm_closer s = Sleeping\<rbrakk> \<Longrightarrow> main_step s (s\<lparr>gm_closer := Finished, gm_wg := gm_wg s - 1\<rparr>)"

text \<open>The environment: the signal and the timeout of the context it starts, requests, connections, and servers whose
  \<open>ListenAndServe\<close> fails.\<close>

inductive env_step :: "'c gateway_main \<Rightarrow> 'c gateway_main \<Rightarrow> bool" where
  signal: "gm_pc s = AwaitSignal \<Longrightarrow> env_step s (s\<lparr>gm_pc := ShutdownApi, gm_api := begin_shutdown (gm_api s)\<rparr>)"
| timeout: "\<lbrakk>gm_alive s; gm_pc s \<noteq> AwaitSignal\<rbrakk> \<Longrightarrow> env_step s (s\<lparr>gm_done := True\<rparr>)"
| api_request: "\<lbrakk>gm_alive s; srv_down (gm_api s) \<longrightarrow> k \<le> srv_busy (gm_api s)\<rbrakk>
    \<Longrightarrow> env_step s (s\<lparr>gm_api := (gm_api s)\<lparr>srv_busy := k\<rparr>\<rparr>)"
| ws_request: "\<lbrakk>gm_alive s; srv_down (gm_ws s) \<longrightarrow> k \<le> srv_busy (gm_ws s)\<rbrakk>
    \<Longrightarrow> env_step s (s\<lparr>gm_ws := (gm_ws s)\<lparr>srv_busy := k\<rparr>\<rparr>)"
| connects: "gm_alive s \<Longrightarrow> env_step s (s\<lparr>gm_local := snd (Local_Register (gm_local s) a n c)\<rparr>)"
| disconnects: "gm_alive s \<Longrightarrow> env_step s (s\<lparr>gm_local := Local_Unregister (gm_local s) a n\<rparr>)"
| api_fails: "\<lbrakk>gm_alive s; \<not> srv_down (gm_api s); serve_returned (gm_api s) (Some e) = Some msg\<rbrakk>
    \<Longrightarrow> env_step s (s\<lparr>gm_pc := MainFatal msg\<rparr>)"
| ws_fails: "\<lbrakk>gm_alive s; \<not> srv_down (gm_ws s); serve_returned (gm_ws s) (Some e) = Some msg\<rbrakk>
    \<Longrightarrow> env_step s (s\<lparr>gm_pc := MainFatal msg\<rparr>)"

abbreviation gateway_run :: "'c gateway_main \<Rightarrow> 'c gateway_main \<Rightarrow> bool" where
  "gateway_run \<equiv> (sup main_step env_step)\<^sup>*\<^sup>*"

subsection \<open>The shutdown closes the connections\<close>

definition main_inv :: "'c gateway_main \<Rightarrow> bool" where
  "main_inv s \<longleftrightarrow> lcm_ok (gm_local s) \<and> gm_wg s = (if gm_closer s = Finished then 0 else 1) \<and>
     (case gm_pc s of
        AwaitSignal \<Rightarrow> gm_closer s = NotStarted \<and> gm_closed s = []
      | ShutdownApi \<Rightarrow> gm_closer s = NotStarted \<and> gm_closed s = []
      | MainReturned \<Rightarrow> gm_closer s = Finished
      | MainFatal _ \<Rightarrow> True
      | _ \<Rightarrow> gm_closer s \<noteq> NotStarted) \<and>
     (gm_closer s = Started \<longrightarrow> gm_closed s = [])"

text \<open>What the goroutine has still to close.\<close>

definition pending :: "'c closer \<Rightarrow> 'c list" where
  "pending x = (case x of Closing cs \<Rightarrow> cs | _ \<Rightarrow> [])"

definition listing_inv :: "'c gateway_main \<Rightarrow> 'c gateway_main \<Rightarrow> bool" where
  "listing_inv s0 s \<longleftrightarrow> (gm_closer s \<in> {NotStarted, Started} \<or>
     (\<exists>s1. gateway_run s0 s1 \<and> gateway_run s1 s \<and> gm_closer s1 = Started \<and> main_inv s1 \<and>
        gm_closed s @ pending (gm_closer s) = clients_of (gm_local s1)))"

lemma main_inv_init: "main_inv (gateway_serves mgmtAddr wsAddr)"
  by (simp add: main_inv_def gateway_serves_def lcm_ok_def NewLocalConnectionManager_def)

lemma main_inv_main: "main_step s s' \<Longrightarrow> main_inv s \<Longrightarrow> main_inv s'"
  by (induction rule: main_step.induct) (auto simp: main_inv_def gm_alive_def split: main_pc.splits if_splits)

lemma main_inv_env: "env_step s s' \<Longrightarrow> main_inv s \<Longrightarrow> main_inv s'"
  by (induction rule: env_step.induct)
    (auto simp: main_inv_def gm_alive_def lcm.reg_ok lcm.unreg_ok split: main_pc.splits)

lemma closer_env: "env_step s s' \<Longrightarrow> gm_closer s' = gm_closer s \<and> gm_closed s' = gm_closed s"
  by (induction rule: env_step.induct) auto

text \<open>A step other than the listing keeps the list of what is closed and what is to be closed.\<close>

lemma pending_main:
  assumes "main_step s s'" "gm_closer s \<notin> {NotStarted, Started}" "main_inv s"
  shows "gm_closer s' \<notin> {NotStarted, Started} \<and>
    gm_closed s' @ pending (gm_closer s') = gm_closed s @ pending (gm_closer s)"
  using assms by (induction rule: main_step.induct) (auto simp: pending_def main_inv_def)

lemma listing_inv_main:
  assumes "main_step s s'" "main_inv s" "listing_inv s0 s" "gateway_run s0 s"
  shows "listing_inv s0 s'"
proof (cases "gm_closer s \<in> {NotStarted, Started}")
  case True
  show ?thesis
  proof (cases "gm_closer s' \<in> {NotStarted, Started}")
    case False
    then have "gm_closer s = Started" "gm_closed s' @ pending (gm_closer s') = clients_of (gm_local s)"
      using assms(1,2) True by (auto elim!: main_step.cases simp: pending_def main_inv_def)
    moreover have "gateway_run s s'" using assms(1) by (simp add: r_into_rtranclp)
    ultimately show ?thesis using assms(2,4) unfolding listing_inv_def by blast
  qed (simp add: listing_inv_def)
next
  case False
  then obtain s1 where s1: "gateway_run s0 s1" "gateway_run s1 s" "gm_closer s1 = Started" "main_inv s1"
    "gm_closed s @ pending (gm_closer s) = clients_of (gm_local s1)"
    using assms(3) unfolding listing_inv_def by blast
  have "gateway_run s1 s'" using s1(2) assms(1) by (meson rtranclp.rtrancl_into_rtrancl sup2I1)
  with s1 pending_main [OF assms(1) False assms(2)] show ?thesis unfolding listing_inv_def by metis
qed

lemma listing_inv_env:
  assumes "env_step s s'" "listing_inv s0 s"
  shows "listing_inv s0 s'"
  using assms(2) closer_env [OF assms(1)] unfolding listing_inv_def
  by (metis (no_types, lifting) assms(1) rtranclp.rtrancl_into_rtrancl sup2I2)

lemma gateway_run_inv:
  assumes "gateway_run s0 s" "main_inv s0" "gm_closer s0 = NotStarted"
  shows "main_inv s \<and> listing_inv s0 s"
  using assms(1)
proof (induction rule: rtranclp_induct)
  case base
  then show ?case using assms(2,3) by (simp add: listing_inv_def)
next
  case (step y z)
  then show ?case using main_inv_main main_inv_env listing_inv_main listing_inv_env by (metis sup2E)
qed

text \<open>Property C9. When the gateway's \<open>main\<close> returns, every connection that its local manager held at some moment of the
  shutdown has been closed, in one pass and exactly these; this holds whatever requests, connections, failing
  servers and the timeout did before and meanwhile.\<close>

theorem shutdown_closes_connections:
  assumes "gateway_run (gateway_serves mgmtAddr wsAddr) s" "gm_pc s = MainReturned"
  shows "\<exists>s1. gateway_run (gateway_serves mgmtAddr wsAddr) s1 \<and> gateway_run s1 s \<and>
    gm_pc s1 \<notin> {AwaitSignal, ShutdownApi, MainReturned} \<and>
    gm_closed s = closeConnections (\<lambda>c cs. cs @ [c]) (gm_local s1) [] \<and>
    (\<forall>c. c \<in> set (gm_closed s) \<longleftrightarrow> (\<exists>a n. Local_GetConnection (gm_local s1) a n = Some c))"
proof -
  have inv: "main_inv s" "listing_inv (gateway_serves mgmtAddr wsAddr) s"
    using gateway_run_inv [OF assms(1) main_inv_init] by (simp_all add: gateway_serves_def)
  then have "gm_closer s = Finished" using assms(2) by (simp add: main_inv_def)
  with inv(2) obtain s1 where s1: "gateway_run (gateway_serves mgmtAddr wsAddr) s1" "gateway_run s1 s"
    "gm_closer s1 = Started" "main_inv s1" "gm_closed s = clients_of (gm_local s1)"
    by (auto simp: listing_inv_def pending_def)
  have all: "gm_closed s = closeConnections (\<lambda>c cs. cs @ [c]) (gm_local s1) []"
    using s1(5) by (simp add: closeConnections_eq clients_of_def)
  moreover have "lcm_ok (gm_local s1)" "gm_pc s1 \<notin> {AwaitSignal, ShutdownApi, MainReturned}"
    using s1(3,4) by (auto simp: main_inv_def)
  ultimately show ?thesis using s1(1,2) closeConnections_all by metis
qed

text \<open>The same steps as a function, which lets the goroutine that closes go first.\<close>

definition main_turn :: "'c gateway_main \<Rightarrow> 'c gateway_main option" where
  "main_turn s =
     (if \<not> gm_alive s then None
      else case gm_closer s of
        Started \<Rightarrow> Some (s\<lparr>gm_closer := Closing (clients_of (gm_local s))\<rparr>)
      | Closing (c # cs) \<Rightarrow> Some (s\<lparr>gm_closer := Closing cs, gm_closed := gm_closed s @ [c]\<rparr>)
      | Closing [] \<Rightarrow> Some (s\<lparr>gm_closer := Sleeping\<rparr>)
      | Sleeping \<Rightarrow> Some (s\<lparr>gm_closer := Finished, gm_wg := gm_wg s - 1\<rparr>)
      | _ \<Rightarrow>
          (case gm_pc s of
             ShutdownApi \<Rightarrow> map_option (\<lambda>_. s\<lparr>gm_pc := ShutdownWs, gm_ws := begin_shutdown (gm_ws s), gm_closer := Started\<rparr>)
               (ShutdownHTTPServer (gm_done s) (gm_api s))
           | ShutdownWs \<Rightarrow> map_option (\<lambda>_. s\<lparr>gm_pc := AwaitGroup\<rparr>) (ShutdownHTTPServer (gm_done s) (gm_ws s))
           | AwaitGroup \<Rightarrow> if gm_wg s = 0 then Some (s\<lparr>gm_pc := MainReturned\<rparr>) else None
           | _ \<Rightarrow> None))"

fun main_turns :: "nat \<Rightarrow> 'c gateway_main \<Rightarrow> 'c gateway_main" where
  "main_turns 0 s = s"
| "main_turns (Suc k) s = (case main_turn s of None \<Rightarrow> s | Some s' \<Rightarrow> main_turns k s')"

lemma main_turn_step: "main_turn s = Some s' \<Longrightarrow> main_step s s'"
proof (cases "gm_closer s")
  case Sleeping
  then show "main_turn s = Some s' \<Longrightarrow> main_step s s'"
    using main_step.finishes [of s] by (simp add: main_turn_def split: if_splits)
qed (auto simp: main_turn_def split: if_splits list.splits main_pc.splits intro: main_step.intros)

lemma main_turns_run: "gateway_run s (main_turns k s)"
proof (induction k arbitrary: s)
  case (Suc k)
  show ?case
  proof (cases "main_turn s")
    case (Some s')
    then have "(sup main_step env_step) s s'" using main_turn_step by blast
    with Suc.IH [of s'] Some show ?thesis by (simp add: converse_rtranclp_into_rtranclp)
  qed simp
qed simp

definition sample_main :: "string gateway_main" where
  "sample_main =
     (let s = gateway_serves '':9090'' '':8080'' :: string gateway_main;
          s = s\<lparr>gm_local := snd (Local_Register (gm_local s) ''01'' ''node-a'' ''conn'')\<rparr>
      in s\<lparr>gm_pc := ShutdownApi, gm_api := begin_shutdown (gm_api s)\<rparr>)"

lemma sample_main_run: "gateway_run (gateway_serves '':9090'' '':8080'') sample_main"
proof -
  let ?s = "gateway_serves '':9090'' '':8080'' :: string gateway_main"
  let ?t = "?s\<lparr>gm_local := snd (Local_Register (gm_local ?s) ''01'' ''node-a'' ''conn'')\<rparr>"
  have "env_step ?s ?t" by (rule env_step.connects) (simp add: gm_alive_def gateway_serves_def)
  moreover have "env_step ?t sample_main"
    unfolding sample_main_def Let_def by (rule env_step.signal) (simp add: gateway_serves_def)
  ultimately show ?thesis by (meson converse_rtranclp_into_rtranclp rtranclp.rtrancl_refl sup2I2)
qed

theorem shutdown_closes_connections_witness:
  "gm_pc (main_turns 9 sample_main) = MainReturned \<and>
   (\<exists>s1 :: string gateway_main. gateway_run s1 (main_turns 9 sample_main) \<and>
      (\<exists>a n. Local_GetConnection (gm_local s1) a n = Some ''conn'')) \<and>
   gm_closed (main_turns 9 sample_main) = [''conn'']"
proof -
  have run: "gateway_run (gateway_serves '':9090'' '':8080'') (main_turns 9 sample_main)"
    using sample_main_run main_turns_run by (rule rtranclp_trans)
  have "gm_pc (main_turns 9 sample_main) = MainReturned" "gm_closed (main_turns 9 sample_main) = [''conn'']"
    by code_simp+
  moreover from shutdown_closes_connections [OF run this(1)] this(2)
  have "\<exists>s1 :: string gateway_main. gateway_run s1 (main_turns 9 sample_main) \<and>
      (\<exists>a n. Local_GetConnection (gm_local s1) a n = Some ''conn'')" by (metis list.set_intros(1))
  ultimately show ?thesis by simp
qed

subsection \<open>The shutdown ends\<close>

definition main_rank :: "'c gateway_main \<Rightarrow> nat" where
  "main_rank s =
     (case gm_pc s of ShutdownApi \<Rightarrow> 3 | ShutdownWs \<Rightarrow> 2 | AwaitGroup \<Rightarrow> 1 | _ \<Rightarrow> 0) +
     (case gm_closer s of
        NotStarted \<Rightarrow> length (clients_of (gm_local s)) + 4
      | Started \<Rightarrow> length (clients_of (gm_local s)) + 3
      | Closing cs \<Rightarrow> length cs + 2
      | Sleeping \<Rightarrow> 1
      | Finished \<Rightarrow> 0)"

lemma main_step_rank: "main_step s s' \<Longrightarrow> main_inv s \<Longrightarrow> main_rank s' < main_rank s"
  by (induction rule: main_step.induct) (auto simp: main_rank_def main_inv_def split: closer.splits)

lemma main_step_keeps:
  "main_step s s' \<Longrightarrow> gm_done s' = gm_done s \<and> gm_local s' = gm_local s \<and>
   (gm_pc s \<notin> {AwaitSignal} \<longrightarrow> gm_pc s' \<noteq> AwaitSignal) \<and> (\<forall>m. gm_pc s' = MainFatal m \<longrightarrow> gm_pc s = MainFatal m)"
  by (induction rule: main_step.induct) auto

text \<open>The signal has come, the timeout has passed and no server has failed.\<close>

definition stopping :: "'c gateway_main \<Rightarrow> bool" where
  "stopping s \<longleftrightarrow> main_inv s \<and> gm_done s \<and> gm_pc s \<noteq> AwaitSignal \<and> (\<forall>m. gm_pc s \<noteq> MainFatal m)"

interpretation shutdown: ranked_steps main_step stopping main_rank
proof unfold_locales
  fix s s' :: "'c gateway_main"
  assume st: "main_step s s'" and s: "stopping s"
  show "stopping s'" using s main_inv_main [OF st] main_step_keeps [OF st] by (auto simp: stopping_def)
  show "main_rank s' < main_rank s" using s main_step_rank [OF st] by (simp add: stopping_def)
qed

lemma main_progress:
  assumes "stopping s" "\<forall>s'. \<not> main_step s s'"
  shows "gm_pc s = MainReturned"
proof -
  have "main_turn s = None" using assms(2) main_turn_step by (metis not_Some_eq)
  with assms(1) show ?thesis
    by (auto simp: stopping_def main_turn_def main_inv_def gm_alive_def ShutdownHTTPServer_def
        split: if_splits closer.splits list.splits main_pc.splits)
qed

text \<open>Property C30. The shutdown ends. Once the signal has come and the timeout has passed, \<open>main\<close> and the goroutine that closes
  the connections take at most seven steps and one for each connection, and when they can take no
  more \<open>main\<close> has returned.\<close>

theorem shutdown_returns:
  assumes "gateway_run (gateway_serves mgmtAddr wsAddr) s" "gm_pc s \<in> {ShutdownApi, ShutdownWs, AwaitGroup}" "gm_done s"
    and "(main_step ^^ k) s s'"
  shows "k \<le> main_rank s \<and> ((\<forall>s''. \<not> main_step s' s'') \<longrightarrow> gm_pc s' = MainReturned)"
proof -
  have "main_inv s" using gateway_run_inv [OF assms(1) main_inv_init] by (simp add: gateway_serves_def)
  with assms(2,3) have "stopping s" by (auto simp: stopping_def)
  from shutdown.steps_bounded [OF assms(4) this] shutdown.steps_rank [OF assms(4) this] main_progress show ?thesis by blast
qed

theorem shutdown_returns_witness:
  "(main_step ^^ 1) (sample_main\<lparr>gm_done := True\<rparr>) (the (main_turn (sample_main\<lparr>gm_done := True\<rparr>))) \<and>
   1 \<le> main_rank (sample_main\<lparr>gm_done := True\<rparr>)"
proof -
  let ?s = "sample_main\<lparr>gm_done := True\<rparr>"
  have pc: "gm_pc sample_main = ShutdownApi" "main_turn ?s \<noteq> None" by code_simp+
  then have "env_step sample_main ?s" by (intro env_step.timeout) (simp_all add: gm_alive_def)
  then have run: "gateway_run (gateway_serves '':9090'' '':8080'') ?s"
    using sample_main_run by (meson rtranclp.rtrancl_into_rtrancl sup2I2)
  obtain t where t: "main_turn ?s = Some t" using pc(2) by blast
  then have st: "(main_step ^^ 1) ?s (the (main_turn ?s))" unfolding relpowp_1 using main_turn_step by simp
  with shutdown_returns [OF run _ _ st] pc(1) show ?thesis by simp
qed

text \<open>A connection that registers after the listing is not closed: the process ends with it, and nothing removes its
  entry from the registry.\<close>

lemma main_steps_pending:
  assumes "main_step\<^sup>*\<^sup>* s s'" "gm_closer s \<notin> {NotStarted, Started}" "main_inv s"
  shows "gm_closed s' @ pending (gm_closer s') = gm_closed s @ pending (gm_closer s) \<and> gm_local s' = gm_local s \<and>
    gm_closer s' \<notin> {NotStarted, Started} \<and> main_inv s'"
  using assms(1)
proof (induction rule: rtranclp_induct)
  case (step y z)
  then show ?case using pending_main [OF step.hyps(2)] main_step_keeps [OF step.hyps(2)] main_inv_main [OF step.hyps(2)] by simp
qed (use assms(2,3) in simp)

lemma late_connection_not_closed:
  assumes "main_inv s" "gm_closer s \<in> {Sleeping, Finished}" "gm_pc s \<in> {ShutdownWs, AwaitGroup}" "gm_done s"
    "c \<notin> set (gm_closed s)" "Local_GetConnection (gm_local s) a n = None"
  shows "\<exists>s'. gateway_run s s' \<and> gm_pc s' = MainReturned \<and> Local_GetConnection (gm_local s') a n = Some c \<and>
    c \<notin> set (gm_closed s')"
proof -
  let ?t = "s\<lparr>gm_local := snd (Local_Register (gm_local s) a n c)\<rparr>"
  have st: "env_step s ?t" using assms(3) by (intro env_step.connects) (auto simp: gm_alive_def)
  have lcm: "lcm_ok (gm_local s)" using assms(1) by (simp add: main_inv_def)
  have inv: "main_inv ?t" by (rule main_inv_env [OF st assms(1)])
  have "stopping ?t" using inv assms(3,4) by (auto simp: stopping_def)
  then obtain s' where s': "main_step\<^sup>*\<^sup>* ?t s'" "gm_pc s' = MainReturned"
    using shutdown.steps_end main_progress by blast
  have "gm_closed s' @ pending (gm_closer s') = gm_closed s @ pending (gm_closer s)" "gm_local s' = gm_local ?t"
    using main_steps_pending [OF s'(1) _ inv] assms(2) by auto
  moreover have "pending (gm_closer s) = []" using assms(2) by (auto simp: pending_def)
  moreover have "gateway_run ?t s'" by (rule rtranclp_mono [THEN predicate2D, OF _ s'(1)]) blast
  then have "gateway_run s s'" using st by (meson converse_rtranclp_into_rtranclp sup2I2)
  moreover have "set (gm_closed s') \<subseteq> set (gm_closed s)" using calculation(1,3) by (metis append_Nil2 set_append sup_ge1)
  ultimately show ?thesis
    using s'(2) assms(5) lcm.reg_new [OF lcm assms(6), of c] by (intro exI [of _ s']) auto
qed

subsection \<open>The job receiver\<close>

record jobs_main =
  jm_pc :: main_pc
  jm_api :: http_server
  jm_done :: bool

inductive jobs_step :: "jobs_main \<Rightarrow> jobs_main \<Rightarrow> bool" where
  jobs_signal: "jm_pc s = AwaitSignal \<Longrightarrow> jobs_step s (s\<lparr>jm_pc := ShutdownApi, jm_api := begin_shutdown (jm_api s)\<rparr>)"
| jobs_down: "\<lbrakk>jm_pc s = ShutdownApi; ShutdownHTTPServer (jm_done s) (jm_api s) = Some err\<rbrakk>
    \<Longrightarrow> jobs_step s (s\<lparr>jm_pc := MainReturned\<rparr>)"
| jobs_timeout: "jm_pc s = ShutdownApi \<Longrightarrow> jobs_step s (s\<lparr>jm_done := True\<rparr>)"
| jobs_request: "\<lbrakk>jm_pc s \<in> {AwaitSignal, ShutdownApi}; srv_down (jm_api s) \<longrightarrow> k \<le> srv_busy (jm_api s)\<rbrakk>
    \<Longrightarrow> jobs_step s (s\<lparr>jm_api := (jm_api s)\<lparr>srv_busy := k\<rparr>\<rparr>)"
| jobs_fails: "\<lbrakk>jm_pc s = AwaitSignal; serve_returned (jm_api s) (Some e) = Some msg\<rbrakk>
    \<Longrightarrow> jobs_step s (s\<lparr>jm_pc := MainFatal msg\<rparr>)"

text \<open>After the signal the job receiver returns as soon as no request is in progress, at the latest when the timeout has
  passed.\<close>

lemma jobs_return:
  assumes "jm_pc s = ShutdownApi"
  shows "(\<exists>s'. jobs_step s s' \<and> jm_pc s' = MainReturned) \<longleftrightarrow> srv_busy (jm_api s) = 0 \<or> jm_done s"
proof
  assume "\<exists>s'. jobs_step s s' \<and> jm_pc s' = MainReturned"
  then show "srv_busy (jm_api s) = 0 \<or> jm_done s"
    using assms by (auto elim!: jobs_step.cases simp: ShutdownHTTPServer_def split: if_splits)
next
  assume "srv_busy (jm_api s) = 0 \<or> jm_done s"
  then obtain err where "ShutdownHTTPServer (jm_done s) (jm_api s) = Some err"
    by (cases "srv_busy (jm_api s) = 0") (auto simp: ShutdownHTTPServer_def)
  with jobs_step.jobs_down [OF assms this] show "\<exists>s'. jobs_step s s' \<and> jm_pc s' = MainReturned"
    by (intro exI [of _ "s\<lparr>jm_pc := MainReturned\<rparr>"]) simp
qed

subsection \<open>The cleaner and the utility\<close>

text \<open>\<open>pusher\<close> sends the counter to the push gateway under the name of the job and may fail; the result is the line that
  is printed then.\<close>

definition pushValuesToPrometheus :: "(string \<Rightarrow> string \<Rightarrow> nat \<Rightarrow> string option) \<Rightarrow> Config \<Rightarrow> nat \<Rightarrow> string option" where
  "pushValuesToPrometheus pusher cfg connCount =
     (case pusher (cfg_PrometheusPushGateway cfg) ''receptor_controller_stale_job'' connCount of
        Some err \<Rightarrow> Some ''Unable to push metrics to prometheus gateway''
      | None \<Rightarrow> None)"

definition redis_client :: "Config \<Rightarrow> redis_options" where
  "redis_client cfg =
     \<lparr>ro_Addr = cfg_RedisHost cfg @ '':'' @ cfg_RedisPort cfg, ro_Password = cfg_RedisPassword cfg, ro_DB = cfg_RedisDB cfg\<rparr>"

text \<open>The flags of the cleaner, with their defaults, and the program: the server it talks to and what it does there. The
  counter is pushed only if the listing succeeded.\<close>

record cleaner_flags =
  cf_podName :: string
  cf_dryRun :: bool

definition cleaner_defaults :: cleaner_flags where
  "cleaner_defaults = \<lparr>cf_podName = ''receptor-gateway-internal'', cf_dryRun = False\<rparr>"

definition cleaner_program ::
  "(string \<Rightarrow> string list option) \<Rightarrow> (string \<Rightarrow> string \<Rightarrow> nat \<Rightarrow> string option) \<Rightarrow> Config \<Rightarrow> cleaner_flags \<Rightarrow>
   redis_options \<times> ('s, (string, nat \<times> string option) outcome) prog" where
  "cleaner_program dns pusher cfg flags =
     (redis_client cfg,
      pbind (cleaner_main dns (cf_podName flags) (cf_dryRun flags)) (\<lambda>res.
        Ret (case res of
               Err e \<Rightarrow> Err e
             | Panic \<Rightarrow> Panic
             | Ok connCount \<Rightarrow> Ok (connCount, pushValuesToPrometheus pusher cfg connCount))))"

record util_flags =
  uf_action :: string
  uf_account :: string
  uf_nodeID :: string
  uf_ip :: string

definition util_defaults :: util_flags where
  "util_defaults = \<lparr>uf_action = ''register'', uf_account = [], uf_nodeID = [], uf_ip = []\<rparr>"

definition util_program ::
  "Config \<Rightarrow> util_flags \<Rightarrow> redis_options \<times> ('s, (string, (string \<times> redis_err option) option) outcome) prog" where
  "util_program cfg flags =
     (redis_client cfg, connection_util (uf_action flags) (uf_account flags) (uf_nodeID flags) (uf_ip flags))"

text \<open>Without flags the utility asks for its parameters and changes nothing.\<close>

lemma util_program_defaults:
  "run ex (snd (util_program cfg util_defaults)) s w = (Err ''Required parameters: account, node-id, ip'', s, w)"
  by (simp add: util_program_def util_defaults_def connection_util_def)

text \<open>The response consumer needs an identifier for its group.\<close>

definition response_consumer ::
  "string option \<Rightarrow> Config \<Rightarrow> (string + int \<times> int \<times> string \<times> string) list \<Rightarrow> string + kafka_reader \<times> string list" where
  "response_consumer groupID cfg reads =
     (case groupID of
        None \<Rightarrow> Inl ''Unable to generate random uuid''
      | Some g \<Rightarrow> Inr (response_consumer_reader g cfg, response_consumer_loop reads))"

end
