(* ===== verification/Spec2Isabelle.thy ===== *)
theory Spec2Isabelle
  imports Connection_Life Job_Flow Proxy_Probes Mesh_Router Metrics Repair Programs
begin

text \<open>
  A verification development of the receptor controller.

  \<^bold>\<open>The program.\<close> Receptor nodes connect to a gateway pod over a websocket and identify themselves by a
  handshake. The gateway keeps its connections in a local manager and in a registry in Redis that all
  pods share. Clients post jobs to the HTTP API of the job receiver, which looks up the pod of the node
  in Redis and forwards the job to that pod's own API; the pod sends it to the node over the websocket.
  Answers come back as payload messages: a ping that waits for one gets it, all others go to Kafka. A
  goroutine for each connection repairs the registry while the connection lasts, and a periodic job
  removes the connections of pods that are gone.

  \<^bold>\<open>Theories.\<close> Paths are relative to \<open>src/internal\<close>. A struct is a record, whose fields have a prefix in
  front of their Go names; functions and methods keep their names, with the name of the type or of the
  file in front where two would clash.
  \<^item> \<open>Prelude\<close>: bytes, big-endian integers, \<open>strings\<close>, Go maps as association lists, results that may be
    an error or a panic. Locale \<open>ranked_steps\<close>: a step relation under an invariant whose steps lower a
    rank, interpreted for the goroutines of a connection and for the shutdown of the gateway.
  \<^item> \<open>Frame\<close> (\<open>receptor/protocol/frame.go\<close>): frame headers at their byte widths, reading and writing of
    frames. Locale \<open>io_writer\<close>: the contract of \<open>io.Writer\<close>.
  \<^item> \<open>Go_Json\<close>, \<open>Timestamp\<close>: the part of \<open>encoding/json\<close> and \<open>time\<close> that the program uses, with the lemmas
    that decoding inverts encoding.
  \<^item> \<open>Messages\<close> (\<open>receptor/protocol/messages.go\<close>): the four message types, \<open>ReadMessage\<close>, \<open>WriteMessage\<close>.
    Locale \<open>message_codec\<close>, interpreted for each message type. Round trip over the wire, prefix of the
    bytes on failure, exact condition of a panic.
  \<^item> \<open>Redis_Client\<close>: programs of Redis commands and their interleaving. Locales \<open>redis_server\<close> (the
    documented effect of the commands, any of which may fail) and \<open>reliable_redis\<close>, interpreted on a server
    in memory.
  \<^item> \<open>Redis_Connector\<close> (\<open>controller/redis_connector.go\<close>): the registry, as a refinement of a partial function
    from account and node to host; exclusive registration under interleaving and failures.
  \<^item> \<open>Connection_Manager\<close> (\<open>controller/connection_manager.go\<close>). Locale \<open>connection_registry\<close>: the contract of
    \<open>ConnectionRegistrar\<close> and \<open>ConnectionLocator\<close> as the local manager keeps it; sublocale of \<open>registrar\<close>, the weaker
    contract that a registrar with a shared registry keeps too.
  \<^item> \<open>Gateway\<close> (\<open>controller/gateway_connection_manager.go\<close>, \<open>active_connection_registrar.go\<close>): registration in
    both places with rollback, the goroutine of each connection, and the invariant that ties them.
  \<^item> \<open>Cleaner\<close> (\<open>src/cmd/connection_cleaner\<close>, \<open>src/cmd/connection_util\<close>).
  \<^item> \<open>Transport\<close> (\<open>controller/transport.go\<close>): channels as bounded queues, contexts.
  \<^item> \<open>Receptor_Service\<close> (\<open>controller/receptor.go\<close>, \<open>message.go\<close>): sending, pinging, dispatch of responses.
  \<^item> \<open>Ping\<close>: any number of pings, the reactor and the write side as a step relation; correlation, conservation
    of responses, and that pings return.
  \<^item> \<open>Reactor\<close> (\<open>controller/response_reactor.go\<close> and the four handlers): the step relation of a connection
    among others. Locale \<open>reactor_manager\<close>, an extension of \<open>registrar\<close>: what it needs of the connection manager,
    interpreted for the local manager here and for the gateway's registrar in \<open>Pod\<close>.
  \<^item> \<open>Pod\<close>: the reactors of a pod over the gateway's registrar, and the cluster of pods in one Redis with the step
    relation \<open>cluster_step\<close>; a node has one holder and the registry names it.
  \<^item> \<open>Repair\<close>: the registry after a loss. Ticks of the active registrars put it right from any state, two connections of
    one node are resolved, and the entries of a pod that crashed and came back under its address are never removed.
  \<^item> \<open>Metrics\<close> (\<open>controller/metrics.go\<close>, \<open>controller/ws/metrics.go\<close>, \<open>receptor/protocol/metrics.go\<close>): registration of the
    metrics, and the programs of \<open>Gateway\<close> with what they count; equivalent to the programs without.
  \<^item> \<open>Config\<close> (\<open>config/config.go\<close>).
  \<^item> \<open>Ws_Client\<close> (\<open>controller/ws\<close>): read loop, write loop, deadlines, set-up. Locale \<open>ws_socket\<close>: what it relies
    on of the websocket library.
  \<^item> \<open>Connection_Life\<close>: the goroutines of one connection together (\<open>life_step\<close>); they end once the context is done,
    and the channels keep their bounds.
  \<^item> \<open>Auth\<close>, \<open>Api\<close> (\<open>middlewares/auth.go\<close>, \<open>controller/api\<close>): authentication, jobs, management.
  \<^item> \<open>Http_Proxy\<close> (\<open>controller/api/receptor_http_proxy.go\<close>, \<open>http_proxy_connection_manager.go\<close>): the job receiver's
    side, and a job's way from the proxy to the pod.
  \<^item> \<open>Proxy_Probes\<close> (\<open>controller/api/receptor_http_proxy_instrumentation.go\<close>): the proxy's calls with what they count;
    equivalent to the calls without.
  \<^item> \<open>Mesh_Router\<close> (\<open>receptor/mesh_router\<close>), not used by the services.
  \<^item> \<open>Platform\<close>: Kafka settings, dispatcher, metrics middleware, logger, start of the main programs, their routes.
  \<^item> \<open>Programs\<close> (\<open>platform/utils/utils.go\<close>, the programs under \<open>src/cmd\<close>): HTTP servers, shutdown of both services as step
    relations, cleaner and utility as whole programs. The shutdown closes the connections and ends.
  \<^item> \<open>Job_Flow\<close>: both services put together; a job from the job receiver to the queue of the node's connection.

  \<^bold>\<open>Effects.\<close> Code that only changes its own state is a function of it. Code that talks to Redis is a program
  tree that \<open>run\<close> executes alone and \<open>sys_step\<close> interleaves command by command. Goroutines of a connection
  are steps of the relations \<open>conn_step\<close>, \<open>rx_step\<close> and \<open>life_step\<close>, those of a service of \<open>main_step\<close>; the choice of a \<open>select\<close> statement is the list of the
  results of all communications that are ready, or a list of events. A run-time panic is a value.

  \<^bold>\<open>Bounds.\<close> The JSON scanner has fuel; \<open>json_decode\<close> gives it more than the length of the text, and
  \<open>scan_value_fuel\<close> shows that more never changes the result. Loops over sockets and events are functions of
  the list of events, of any length. After the end of its context a connection takes at most \<open>life_rank\<close>
  turns; the turns its write loop takes before it looks at the context are part of the state, because a
  \<open>select\<close> statement gives no bound for them. Steps of the cluster are whole operations; their interleaving
  command by command is the subject of \<open>Redis_Connector\<close>. Frame lengths are 32-bit words and durations wrap at 64 bits.

  \<^bold>\<open>Parameters.\<close> Redis, the websocket and HTTP libraries, viper, Clowder, uuid, the identity middleware, the
  validator, DNS, files, random numbers and the clock are arguments of the definitions that use them.

  \<^bold>\<open>Not modelled.\<close> The values of four metrics on which nothing depends (messages sent and received, directives, sizes
  of payloads; their registration is modelled); log output except its format; the parsing of flags and the inside
  of the HTTP server, which are libraries; channels without a buffer other than the error and response channels
  (a configured buffer size of 0).
\<close>

end
